(* ===== verification/Prelude.thy ===== *)
theory Prelude
  imports Complex_Main "HOL-Library.AList" "HOL-Library.Sublist"
begin

text \<open>
  Shared vocabulary of the fusion-identity development.

  \<^item> Clock readings (\<open>time.time()\<close>) are real numbers; every operation that reads the
    clock takes the reading \<open>now\<close> as an argument, and the readings one operation makes
    are identified with one another.
  \<^item> Random material (\<open>secrets.token_hex\<close>, \<open>uuid4\<close>) is an argument as well.
  \<^item> A Python \<open>dict\<close> is an association list in insertion order (\<open>dict\<close>): assignment
    to a present key keeps its place, assignment to a new key appends, which is what
    \<^const>\<open>AList.update\<close> does.
  \<^item> A Python \<open>str\<close> is a list of code points below 256 (\<^typ>\<open>string\<close>).
  \<^item> A capped append-only log (\<open>xs.append(x); xs = xs[-cap:]\<close>) and the one-shot
    redemption of a token recur in several components; their contracts are the locales
    at the end of this theory.
\<close>

named_theorems store_defs \<open>definitions of the operations of the in-memory store\<close>
named_theorems store_simps \<open>effect of the store operations on the fields of the store\<close>

section \<open>Clock and truthiness\<close>

type_synonym time = real

text \<open>\<open>if x["revoked_at"]\<close>: \<open>None\<close> and \<open>0.0\<close> are false.\<close>

definition truthy_time :: "time option \<Rightarrow> bool" where
  "truthy_time t \<longleftrightarrow> (case t of None \<Rightarrow> False | Some x \<Rightarrow> x \<noteq> 0)"

lemma truthy_time_simps [simp]:
  "\<not> truthy_time None"
  "truthy_time (Some x) \<longleftrightarrow> x \<noteq> 0"
  by (simp_all add: truthy_time_def)

text \<open>\<open>x or default\<close> on an optional string: \<open>None\<close> and the empty string are false.\<close>

definition truthy_str :: "string option \<Rightarrow> bool" where
  "truthy_str x \<longleftrightarrow> (case x of None \<Rightarrow> False | Some s \<Rightarrow> s \<noteq> [])"

lemma truthy_str_simps [simp]:
  "\<not> truthy_str None"
  "truthy_str (Some s) \<longleftrightarrow> s \<noteq> []"
  by (simp_all add: truthy_str_def)

text \<open>\<open>if fields[k] is not None: rec[k] = fields[k]\<close>.\<close>

definition upd_opt :: "'a option \<Rightarrow> 'a \<Rightarrow> 'a" where
  "upd_opt x old = (case x of None \<Rightarrow> old | Some v \<Rightarrow> v)"

lemma upd_opt_simps [simp]: "upd_opt None old = old" "upd_opt (Some v) old = v"
  by (simp_all add: upd_opt_def)

section \<open>Dictionaries\<close>

type_synonym ('k, 'v) dict = "('k \<times> 'v) list"

abbreviation dget :: "('k, 'v) dict \<Rightarrow> 'k \<Rightarrow> 'v option" where
  "dget d k \<equiv> map_of d k"

abbreviation dset :: "'k \<Rightarrow> 'v \<Rightarrow> ('k, 'v) dict \<Rightarrow> ('k, 'v) dict" where
  "dset k v d \<equiv> AList.update k v d"

abbreviation dpop :: "'k \<Rightarrow> ('k, 'v) dict \<Rightarrow> ('k, 'v) dict" where
  "dpop k d \<equiv> AList.delete k d"

abbreviation dvals :: "('k, 'v) dict \<Rightarrow> 'v list" where
  "dvals d \<equiv> map snd d"

abbreviation dkeys :: "('k, 'v) dict \<Rightarrow> 'k list" where
  "dkeys d \<equiv> map fst d"

abbreviation dict_wf :: "('k, 'v) dict \<Rightarrow> bool" where
  "dict_wf d \<equiv> distinct (map fst d)"

text \<open>A loop over \<open>d.values()\<close> that mutates each record it meets.\<close>

definition dmap :: "('v \<Rightarrow> 'v) \<Rightarrow> ('k, 'v) dict \<Rightarrow> ('k, 'v) dict" where
  "dmap f d = map (\<lambda>(k, v). (k, f v)) d"

text \<open>A loop over \<open>d.values()\<close> that mutates the first record satisfying a test and stops.\<close>

fun dmap_first :: "('v \<Rightarrow> bool) \<Rightarrow> ('v \<Rightarrow> 'v) \<Rightarrow> ('k, 'v) dict \<Rightarrow> ('k, 'v) dict" where
  "dmap_first P f [] = []"
| "dmap_first P f ((k, v) # d) = (if P v then (k, f v) # d else (k, v) # dmap_first P f d)"

text \<open>A loop that pops every key satisfying a test.\<close>

definition dpop_if :: "('k \<Rightarrow> bool) \<Rightarrow> ('k, 'v) dict \<Rightarrow> ('k, 'v) dict" where
  "dpop_if P d = filter (\<lambda>(k, v). \<not> P k) d"

text \<open>A loop that pops one key per record of a list.\<close>

definition dpop_all :: "'k list \<Rightarrow> ('k, 'v) dict \<Rightarrow> ('k, 'v) dict" where
  "dpop_all ks d = fold dpop ks d"

lemma dget_dpop_all: "dget (dpop_all ks d) k = (if k \<in> set ks then None else dget d k)"
  by (induction ks arbitrary: d) (auto simp: dpop_all_def delete_conv')

lemma dict_wf_dpop_all [simp]: "dict_wf d \<Longrightarrow> dict_wf (dpop_all ks d)"
  by (induction ks arbitrary: d) (auto simp: dpop_all_def distinct_delete)

lemma dget_dset: "dget (dset k v d) k' = (if k' = k then Some v else dget d k')"
  by (simp add: update_conv')

lemma dget_dpop: "dget (dpop k d) k' = (if k' = k then None else dget d k')"
  by (simp add: delete_conv')

lemma dkeys_dmap [simp]: "map fst (dmap f d) = map fst d"
  by (simp add: dmap_def comp_def case_prod_beta)

lemma dvals_dmap [simp]: "map snd (dmap f d) = map f (map snd d)"
  by (simp add: dmap_def comp_def case_prod_beta)

lemma dget_dmap: "dget (dmap f d) k = map_option f (dget d k)"
  by (induction d) (auto simp: dmap_def)

lemma dmap_id [simp]: "dmap (\<lambda>v. v) d = d"
  by (simp add: dmap_def case_prod_beta)

lemma dkeys_dmap_first [simp]: "map fst (dmap_first P f d) = map fst d"
  by (induction P f d rule: dmap_first.induct) auto

lemma dmap_first_none: "(\<forall>v \<in> set (dvals d). \<not> P v) \<Longrightarrow> dmap_first P f d = d"
  by (induction P f d rule: dmap_first.induct) auto

lemma find_none_dmap_first: "List.find P (dvals d) = None \<Longrightarrow> dmap_first P f d = d"
  by (rule dmap_first_none) (simp add: find_None_iff)

text \<open>The mutated record is the first match, and the loop is one assignment to its key.\<close>

lemma dmap_first_dset:
  assumes "dict_wf d" "List.find P (dvals d) = Some v"
  obtains k where "dget d k = Some v" "P v" "dmap_first P f d = dset k (f v) d"
  using assms
proof (induction d arbitrary: thesis)
  case Nil
  then show ?case by simp
next
  case (Cons p d)
  obtain k w where p: "p = (k, w)" by (cases p)
  show ?case
  proof (cases "P w")
    case True
    with Cons.prems(1) [of k] Cons.prems(3) p show ?thesis by simp
  next
    case False
    have "dict_wf d" "List.find P (dvals d) = Some v"
      using Cons.prems p False by auto
    then obtain k' where k': "dget d k' = Some v" "P v" "dmap_first P f d = dset k' (f v) d"
      using Cons.IH by blast
    then have "k' \<noteq> k"
      using Cons.prems(2) p by (force dest: map_of_SomeD)
    with Cons.prems(1) [of k'] k' p False show ?thesis by simp
  qed
qed

lemma set_dvals_dmap_first:
  "set (dvals (dmap_first P f d)) \<subseteq> set (dvals d) \<union> f ` {v \<in> set (dvals d). P v}"
  by (induction P f d rule: dmap_first.induct) auto

lemma dkeys_dpop_if: "map fst (dpop_if P d) = filter (\<lambda>k. \<not> P k) (map fst d)"
  by (induction d) (auto simp: dpop_if_def)

lemma dget_dpop_if: "dget (dpop_if P d) k = (if P k then None else dget d k)"
  by (induction d) (auto simp: dpop_if_def)

lemma dict_wf_dset [simp]: "dict_wf d \<Longrightarrow> dict_wf (dset k v d)"
  by (rule distinct_update)

lemma dict_wf_dpop [simp]: "dict_wf d \<Longrightarrow> dict_wf (dpop k d)"
  by (rule distinct_delete)

lemma dict_wf_dpop_if [simp]: "dict_wf d \<Longrightarrow> dict_wf (dpop_if P d)"
  by (simp add: dkeys_dpop_if)

lemma dict_wf_get_iff: "dict_wf d \<Longrightarrow> dget d k = Some v \<longleftrightarrow> (k, v) \<in> set d"
  by (rule map_of_eq_Some_iff)

lemma dget_in_dvals: "dget d k = Some v \<Longrightarrow> v \<in> set (dvals d)"
  by (metis image_eqI map_of_SomeD set_map snd_conv)

lemma set_dvals_conv: "dict_wf d \<Longrightarrow> v \<in> set (dvals d) \<longleftrightarrow> (\<exists>k. dget d k = Some v)"
  by (force simp: dict_wf_get_iff)

lemma set_dvals_dset:
  assumes "dict_wf d"
  shows "w \<in> set (dvals (dset k v d)) \<longleftrightarrow> w = v \<or> (\<exists>k'. k' \<noteq> k \<and> dget d k' = Some w)"
  using assms set_dvals_conv [of "dset k v d" w] by (auto simp: dget_dset)

lemma set_dvals_dset_subset: "set (dvals (dset k v d)) \<subseteq> insert v (set (dvals d))"
  by (induction d) auto

lemma set_dvals_dpop_subset: "set (dvals (dpop k d)) \<subseteq> set (dvals d)"
  by (induction d) auto

lemma dset_append: "k \<notin> set (dkeys d) \<Longrightarrow> dset k v d = d @ [(k, v)]"
  by (induction d) auto

section \<open>Strings\<close>

text \<open>
  \<open>str.lower\<close> on the code points below 256: the ASCII capitals and the Latin-1 capitals
  (\<open>0xC0\<close> to \<open>0xDE\<close>, the multiplication sign \<open>0xD7\<close> excepted) move up by 32.
\<close>

definition lower_char :: "char \<Rightarrow> char" where
  "lower_char c = (let n = of_char c :: nat in
     if (65 \<le> n \<and> n \<le> 90) \<or> (192 \<le> n \<and> n \<le> 222 \<and> n \<noteq> 215) then char_of (n + 32) else c)"

definition py_lower :: "string \<Rightarrow> string" where
  "py_lower = map lower_char"

text \<open>\<open>str.strip\<close> drops white space at both ends.\<close>

definition is_space :: "char \<Rightarrow> bool" where
  "is_space c \<longleftrightarrow> (let n = of_char c :: nat in
     (9 \<le> n \<and> n \<le> 13) \<or> (28 \<le> n \<and> n \<le> 32) \<or> n = 133 \<or> n = 160)"

definition py_strip :: "string \<Rightarrow> string" where
  "py_strip s = rev (dropWhile is_space (rev (dropWhile is_space s)))"

definition startswith :: "string \<Rightarrow> string \<Rightarrow> bool" where
  "startswith s p \<longleftrightarrow> take (length p) s = p"

lemma startswith_append [simp]: "startswith (p @ s) p"
  by (simp add: startswith_def)

lemma startswith_prefix: "startswith s p \<longleftrightarrow> prefix p s"
  by (auto simp: startswith_def prefix_def) (metis append_take_drop_id)

text \<open>Decimal rendering of an integer, as \<open>str(n)\<close> prints it.\<close>

fun nat_repr :: "nat \<Rightarrow> string" where
  "nat_repr n = (if n < 10 then [char_of (48 + n)]
                 else nat_repr (n div 10) @ [char_of (48 + n mod 10)])"

declare nat_repr.simps [simp del]

definition int_repr :: "int \<Rightarrow> string" where
  "int_repr i = (if i < 0 then ''-'' @ nat_repr (nat (- i)) else nat_repr (nat i))"

section \<open>Results\<close>

text \<open>
  An operation that may raise returns the error or the value together with the state it
  leaves behind: a Python exception does not undo the mutations made before it.
\<close>

type_synonym ('e, 'a, 's) outcome = "('e + 'a) \<times> 's"

abbreviation raise :: "'e \<Rightarrow> 's \<Rightarrow> ('e, 'a, 's) outcome" where
  "raise e s \<equiv> (Inl e, s)"

abbreviation ret :: "'a \<Rightarrow> 's \<Rightarrow> ('e, 'a, 's) outcome" where
  "ret x s \<equiv> (Inr x, s)"

fun is_ok :: "('e + 'a) \<Rightarrow> bool" where
  "is_ok (Inl e) = False"
| "is_ok (Inr x) = True"

section \<open>Capped logs\<close>

text \<open>\<open>xs[-n:]\<close> for a positive \<open>n\<close>, and the append that evicts from the front.\<close>

definition lastn :: "nat \<Rightarrow> 'a list \<Rightarrow> 'a list" where
  "lastn n xs = drop (length xs - n) xs"

definition capped_append :: "nat \<Rightarrow> 'a list \<Rightarrow> 'a \<Rightarrow> 'a list" where
  "capped_append cap xs x =
     (let ys = xs @ [x] in if length ys > cap then lastn cap ys else ys)"

text \<open>The slices \<open>xs[:i]\<close> and \<open>xs[i:]\<close>, where a negative \<open>i\<close> counts from the end.\<close>

definition slice_upto :: "int \<Rightarrow> 'a list \<Rightarrow> 'a list" where
  "slice_upto i xs = (if i \<ge> 0 then take (nat i) xs else take (length xs - nat (- i)) xs)"

definition slice_from :: "int \<Rightarrow> 'a list \<Rightarrow> 'a list" where
  "slice_from i xs = (if i \<ge> 0 then drop (nat i) xs else lastn (nat (- i)) xs)"

text \<open>A loop over a list that mutates the first element satisfying a test and stops.\<close>

fun map_first :: "('a \<Rightarrow> bool) \<Rightarrow> ('a \<Rightarrow> 'a) \<Rightarrow> 'a list \<Rightarrow> 'a list" where
  "map_first P f [] = []"
| "map_first P f (x # xs) = (if P x then f x # xs else x # map_first P f xs)"

lemma length_map_first [simp]: "length (map_first P f xs) = length xs"
  by (induction xs) auto

lemma map_map_first: "(\<And>x. g (f x) = g x) \<Longrightarrow> map g (map_first P f xs) = map g xs"
  by (induction xs) auto

lemma set_map_first: "set (map_first P f xs) \<subseteq> set xs \<union> f ` {x \<in> set xs. P x}"
  by (induction xs) auto

lemma length_lastn [simp]: "length (lastn n xs) = min n (length xs)"
  by (auto simp: lastn_def)

lemma lastn_all: "length xs \<le> n \<Longrightarrow> lastn n xs = xs"
  by (simp add: lastn_def)

lemma suffix_lastn: "suffix (lastn n xs) xs"
  by (simp add: lastn_def suffix_drop)

lemma set_lastn_subset: "set (lastn n xs) \<subseteq> set xs"
  by (simp add: lastn_def set_drop_subset)

lemma capped_append_lastn: "capped_append cap xs x = lastn cap (xs @ [x])"
  by (simp add: capped_append_def Let_def lastn_all)

lemma length_capped_append: "length (capped_append cap xs x) = min cap (Suc (length xs))"
  by (simp add: capped_append_lastn)

lemma capped_append_below: "length xs < cap \<Longrightarrow> capped_append cap xs x = xs @ [x]"
  by (simp add: capped_append_def)

lemma lastn_lastn_append: "lastn n (lastn n xs @ ys) = lastn n (xs @ ys)"
  by (cases "length xs \<le> n") (auto simp: lastn_def add.commute)

lemma fold_capped_append:
  "length xs \<le> cap \<Longrightarrow> fold (\<lambda>x l. capped_append cap l x) ys xs = lastn cap (xs @ ys)"
proof (induction ys arbitrary: xs)
  case Nil
  then show ?case by (simp add: lastn_all)
next
  case (Cons y ys)
  have "length (capped_append cap xs y) \<le> cap"
    by (simp add: length_capped_append)
  then have "fold (\<lambda>x l. capped_append cap l x) (y # ys) xs
      = lastn cap (lastn cap (xs @ [y]) @ ys)"
    using Cons.IH by (simp add: capped_append_lastn)
  then show ?case by (simp add: lastn_lastn_append)
qed

text \<open>
  The contract of an append-only log kept inside a larger state: the newest \<open>cap\<close>
  entries survive, in order.
\<close>

locale capped_log =
  fixes log :: "'s \<Rightarrow> 'a list"
    and app :: "'a \<Rightarrow> 's \<Rightarrow> 's"
    and cap :: nat
  assumes app_log: "log (app x s) = capped_append cap (log s) x"
begin

lemma log_bounded: "length (log s) \<le> cap \<Longrightarrow> length (log (app x s)) \<le> cap"
  by (simp add: app_log length_capped_append)

lemma log_run: "length (log s) \<le> cap \<Longrightarrow> log (fold app xs s) = lastn cap (log s @ xs)"
proof (induction xs arbitrary: s)
  case Nil
  then show ?case by (simp add: lastn_all)
next
  case (Cons x xs)
  then show ?case
    by (simp add: log_bounded app_log capped_append_lastn lastn_lastn_append)
qed

lemma log_keeps_all: "length (log s) + length xs \<le> cap \<Longrightarrow> log (fold app xs s) = log s @ xs"
  by (simp add: log_run lastn_all)

end

section \<open>One-shot tokens\<close>

text \<open>A sequence of redemptions, each with its circumstances (a clock reading, a drawn id) and its
  token, with the results they give.\<close>

fun redeem_all ::
  "('t \<Rightarrow> 'h \<Rightarrow> 's \<Rightarrow> 'r option \<times> 's) \<Rightarrow> ('t \<times> 'h) list \<Rightarrow> 's \<Rightarrow> ('h \<times> 'r option) list \<times> 's" where
  "redeem_all consume [] s = ([], s)"
| "redeem_all consume ((t, h) # rs) s =
     (case consume t h s of (r, s') \<Rightarrow>
       (case redeem_all consume rs s' of (out, s'') \<Rightarrow> ((h, r) # out, s'')))"

text \<open>How often the token was redeemed.\<close>

definition wins :: "'h \<Rightarrow> ('h \<times> 'r option) list \<Rightarrow> nat" where
  "wins h out = length (filter (\<lambda>(h', r). h' = h \<and> r \<noteq> None) out)"

text \<open>
  The contract of single-use redemption: a live token redeems once, and no later
  redemption of it, in whatever circumstances, succeeds again.
\<close>

locale one_shot =
  fixes consume :: "'t \<Rightarrow> 'h \<Rightarrow> 's \<Rightarrow> 'r option \<times> 's"
    and live :: "'t \<Rightarrow> 'h \<Rightarrow> 's \<Rightarrow> bool"
    and inv :: "'s \<Rightarrow> bool"
  assumes redeem_iff: "inv s \<Longrightarrow> fst (consume now h s) \<noteq> None \<longleftrightarrow> live now h s"
    and spent: "inv s \<Longrightarrow> live now h s \<Longrightarrow> \<not> live now' h (snd (consume now h s))"
    and refused_same: "inv s \<Longrightarrow> \<not> live now h s \<Longrightarrow> snd (consume now h s) = s"
    and others_kept: "inv s \<Longrightarrow> h' \<noteq> h \<Longrightarrow>
      live now' h' (snd (consume now h s)) = live now' h' s"
    and inv_kept: "inv s \<Longrightarrow> inv (snd (consume now h s))"
begin

lemma dead_stays_dead:
  assumes "inv s" "\<forall>t. \<not> live t h s"
  shows "wins h (fst (redeem_all consume rs s)) = 0"
  using assms
proof (induction rs arbitrary: s)
  case Nil
  then show ?case by (simp add: wins_def)
next
  case (Cons q rs)
  obtain t h' where q: "q = (t, h')" by (cases q)
  obtain r s' where c: "consume t h' s = (r, s')" by (cases "consume t h' s")
  have inv': "inv s'" using inv_kept [OF Cons.prems(1), of t h'] c by simp
  have dead': "\<forall>u. \<not> live u h s'"
  proof (cases "h' = h")
    case True
    then show ?thesis
      using refused_same [OF Cons.prems(1), of t h'] Cons.prems(2) c by auto
  next
    case False
    then show ?thesis
      using others_kept [OF Cons.prems(1), of h h' _ t] Cons.prems(2) c by auto
  qed
  have "wins h (fst (redeem_all consume rs s')) = 0"
    using Cons.IH [OF inv' dead'] .
  moreover have "h' = h \<Longrightarrow> r = None"
    using redeem_iff [OF Cons.prems(1), of t h'] Cons.prems(2) c by auto
  ultimately show ?case
    using q c by (auto simp: wins_def split: prod.splits)
qed

theorem at_most_one_win:
  assumes "inv s"
  shows "wins h (fst (redeem_all consume rs s)) \<le> 1"
  using assms
proof (induction rs arbitrary: s)
  case Nil
  then show ?case by (simp add: wins_def)
next
  case (Cons q rs)
  obtain t h' where q: "q = (t, h')" by (cases q)
  obtain r s' where c: "consume t h' s = (r, s')" by (cases "consume t h' s")
  have inv': "inv s'" using inv_kept [OF Cons.prems, of t h'] c by simp
  have rest: "wins h (fst (redeem_all consume ((t, h') # rs) s)) =
      (if h' = h \<and> r \<noteq> None then 1 else 0) + wins h (fst (redeem_all consume rs s'))"
    using c by (auto simp: wins_def split: prod.splits)
  show ?case
  proof (cases "h' = h \<and> r \<noteq> None")
    case True
    then have "live t h s" using redeem_iff [OF Cons.prems, of t h] c by auto
    then have "\<forall>u. \<not> live u h s'"
      using spent [OF Cons.prems, of t h] c True by auto
    then have "wins h (fst (redeem_all consume rs s')) = 0" by (rule dead_stays_dead [OF inv'])
    then show ?thesis using rest q by simp
  next
    case False
    then show ?thesis using rest q Cons.IH [OF inv'] by auto
  qed
qed

lemma replay_refused:
  assumes "inv s" "fst (consume t h s) \<noteq> None"
  shows "fst (consume u h (snd (consume t h s))) = None"
  using assms redeem_iff spent inv_kept by blast

end

end
