(* ===== verification/Hashing.thy ===== *)
theory Hashing
  imports Prelude "HOL-Library.Word" "HOL-Library.Char_ord" "HOL-Library.List_Lexorder"
begin

text \<open>
  The pieces of the Python standard library that the stored digests are made of:
  \<open>hashlib.sha256(raw.encode()).hexdigest()\<close>, and \<open>json.dumps\<close> with sorted keys and
  compact separators. SHA-256 is written out on 32-bit words (FIPS 180-4), so that a digest
  is a definite string and no assumption about the hash function is made anywhere: where a
  property depends on collision resistance, the collision is one of its conclusions.
  The shortest decimal rendering of a float (\<open>float.__repr__\<close>) is the parameter
  \<open>frepr\<close>.
\<close>

unbundle bit_operations_syntax

section \<open>SHA-256\<close>

type_synonym u32 = "32 word"

text \<open>
  The round constants are the first 32 bits of the fractional parts of the cube roots of the
  first 64 primes, the initial state those of the square roots of the first eight. The root
  is found bit by bit, downwards from \<open>2 ^ 35\<close>: the cube root of 311 is below 8, so the
  scaled roots fit.
\<close>

definition sha_primes :: "int list" where
  "sha_primes =
    [2, 3, 5, 7, 11, 13, 17, 19, 23, 29, 31, 37, 41, 43, 47, 53, 59, 61, 67, 71, 73, 79, 83, 89, 97,
     101, 103, 107, 109, 113, 127, 131, 137, 139, 149, 151, 157, 163, 167, 173, 179, 181, 191, 193,
     197, 199, 211, 223, 227, 229, 233, 239, 241, 251, 257, 263, 269, 271, 277, 281, 283, 293, 307,
     311]"

fun root_bits :: "nat \<Rightarrow> int \<Rightarrow> int list \<Rightarrow> int \<Rightarrow> int" where
  "root_bits k n [] r = r"
| "root_bits k n (b # bs) r = root_bits k n bs (if (r + b) ^ k \<le> n then r + b else r)"

definition root_frac :: "nat \<Rightarrow> int \<Rightarrow> u32" where
  "root_frac k p = of_int (root_bits k (p * 2 ^ (32 * k)) (rev (map (\<lambda>i. 2 ^ i) [0..<36])) 0)"

definition sha_k :: "u32 list" where
  "sha_k = map (root_frac 3) sha_primes"

type_synonym sha_state = "u32 \<times> u32 \<times> u32 \<times> u32 \<times> u32 \<times> u32 \<times> u32 \<times> u32"

definition sha_h0 :: sha_state where
  "sha_h0 = (root_frac 2 2, root_frac 2 3, root_frac 2 5, root_frac 2 7,
             root_frac 2 11, root_frac 2 13, root_frac 2 17, root_frac 2 19)"

definition rotr :: "nat \<Rightarrow> u32 \<Rightarrow> u32" where
  "rotr n x = (drop_bit n x) OR (push_bit (32 - n) x)"

fun sha_round :: "sha_state \<Rightarrow> u32 \<Rightarrow> sha_state" where
  "sha_round (a, b, c, d, e, f, g, h) kw =
    (let s1 = rotr 6 e XOR rotr 11 e XOR rotr 25 e;
         ch = (e AND f) XOR ((NOT e) AND g);
         t1 = h + s1 + ch + kw;
         s0 = rotr 2 a XOR rotr 13 a XOR rotr 22 a;
         maj = (a AND b) XOR (a AND c) XOR (b AND c);
         t2 = s0 + maj
     in (t1 + t2, a, b, c, d + t1, e, f, g))"

text \<open>The message schedule keeps the last sixteen words, oldest first.\<close>

definition sha_sched :: "u32 list \<Rightarrow> u32" where
  "sha_sched w =
    (let x = w ! 1; y = w ! 14;
         s0 = rotr 7 x XOR rotr 18 x XOR drop_bit 3 x;
         s1 = rotr 17 y XOR rotr 19 y XOR drop_bit 10 y
     in hd w + s0 + w ! 9 + s1)"

fun sha_rounds :: "u32 list \<Rightarrow> u32 list \<Rightarrow> sha_state \<Rightarrow> sha_state" where
  "sha_rounds [] w st = st"
| "sha_rounds (k # ks) w st =
     sha_rounds ks (tl w @ [sha_sched w]) (sha_round st (k + hd w))"

fun sha_add :: "sha_state \<Rightarrow> sha_state \<Rightarrow> sha_state" where
  "sha_add (a, b, c, d, e, f, g, h) (a', b', c', d', e', f', g', h') =
    (a + a', b + b', c + c', d + d', e + e', f + f', g + g', h + h')"

definition sha_block :: "sha_state \<Rightarrow> u32 list \<Rightarrow> sha_state" where
  "sha_block st w = sha_add st (sha_rounds sha_k w st)"

fun words_of :: "int list \<Rightarrow> u32 list" where
  "words_of (a # b # c # d # r) =
     of_int (a * 16777216 + b * 65536 + c * 256 + d) # words_of r"
| "words_of _ = []"

definition be64 :: "int \<Rightarrow> int list" where
  "be64 n = map (\<lambda>i. n div 256 ^ i mod 256) [7, 6, 5, 4, 3, 2, 1, 0]"

definition sha_pad :: "int list \<Rightarrow> int list" where
  "sha_pad m = (let l = length m
     in m @ [128] @ replicate ((119 - l mod 64) mod 64) 0 @ be64 (8 * int l))"

fun sha_blocks :: "nat \<Rightarrow> u32 list \<Rightarrow> sha_state \<Rightarrow> sha_state" where
  "sha_blocks 0 w st = st"
| "sha_blocks (Suc n) w st = sha_blocks n (drop 16 w) (sha_block st (take 16 w))"

definition hex_digit :: "int \<Rightarrow> char" where
  "hex_digit n = (if n < 10 then char_of (48 + n) else char_of (87 + n))"

definition word_hex :: "u32 \<Rightarrow> string" where
  "word_hex x = map (\<lambda>i. hex_digit (uint x div 16 ^ i mod 16)) [7, 6, 5, 4, 3, 2, 1, 0]"

definition sha256_bytes :: "int list \<Rightarrow> string" where
  "sha256_bytes m =
    (let w = words_of (sha_pad m)
     in case sha_blocks (length w div 16) w sha_h0 of
          (a, b, c, d, e, f, g, h) \<Rightarrow> concat (map word_hex [a, b, c, d, e, f, g, h]))"

text \<open>\<open>str.encode()\<close> is UTF-8: two bytes for the code points from 128.\<close>

definition utf8_char :: "char \<Rightarrow> int list" where
  "utf8_char ch = (let n = of_char ch :: int
     in if n < 128 then [n] else [192 + n div 64, 128 + n mod 64])"

definition utf8 :: "string \<Rightarrow> int list" where
  "utf8 s = concat (map utf8_char s)"

definition sha256_hash :: "string \<Rightarrow> string" where
  "sha256_hash raw = sha256_bytes (utf8 raw)"

lemma length_word_hex [simp]: "length (word_hex x) = 8"
  by (simp add: word_hex_def)

lemma length_sha256_bytes [simp]: "length (sha256_bytes m) = 64"
proof -
  obtain a b c d e f g h where
    "sha_blocks (length (words_of (sha_pad m)) div 16) (words_of (sha_pad m)) sha_h0
      = (a, b, c, d, e, f, g, h)"
    by (metis prod.exhaust)
  then show ?thesis by (simp add: sha256_bytes_def)
qed

lemma length_sha256_hash [simp]: "length (sha256_hash raw) = 64"
  by (simp add: sha256_hash_def)

section \<open>JSON\<close>

datatype json =
    JNull
  | JBool bool
  | JInt int
  | JFloat real
  | JStr string
  | JArr "json list"
  | JObj "(string \<times> json) list"

text \<open>
  String literals with \<open>ensure_ascii\<close> (the default): everything outside the printable
  ASCII range, the quote and the backslash are escaped.
\<close>

definition json_char :: "char \<Rightarrow> string" where
  "json_char ch = (let n = of_char ch :: int in
     if n = 34 then [CHR 0x5C, CHR 0x22]
     else if n = 92 then [CHR 0x5C, CHR 0x5C]
     else if n = 10 then [CHR 0x5C, CHR ''n'']
     else if n = 13 then [CHR 0x5C, CHR ''r'']
     else if n = 9 then [CHR 0x5C, CHR ''t'']
     else if n = 12 then [CHR 0x5C, CHR ''f'']
     else if n = 8 then [CHR 0x5C, CHR ''b'']
     else if 32 \<le> n \<and> n \<le> 126 then [ch]
     else [CHR 0x5C, CHR ''u'', CHR ''0'', CHR ''0'', hex_digit (n div 16), hex_digit (n mod 16)])"

definition json_str :: "string \<Rightarrow> string" where
  "json_str s = [CHR 0x22] @ concat (map json_char s) @ [CHR 0x22]"

fun join :: "string \<Rightarrow> string list \<Rightarrow> string" where
  "join sep [] = []"
| "join sep [x] = x"
| "join sep (x # y # xs) = x @ sep @ join sep (y # xs)"

text \<open>\<open>json.dumps(v, sort_keys=True, separators=(",", ":"))\<close>.\<close>

fun dumps :: "(real \<Rightarrow> string) \<Rightarrow> json \<Rightarrow> string" where
  "dumps frepr JNull = ''null''"
| "dumps frepr (JBool b) = (if b then ''true'' else ''false'')"
| "dumps frepr (JInt i) = int_repr i"
| "dumps frepr (JFloat x) = frepr x"
| "dumps frepr (JStr s) = json_str s"
| "dumps frepr (JArr xs) = ''['' @ join '','' (map (dumps frepr) xs) @ '']''"
| "dumps frepr (JObj kvs) =
     ''{'' @ join '','' (map (\<lambda>(k, v). json_str k @ '':'' @ dumps frepr v) (sort_key fst kvs)) @ ''}''"

text \<open>\<open>None\<close> is \<open>null\<close>.\<close>

definition jopt :: "string option \<Rightarrow> json" where
  "jopt x = (case x of None \<Rightarrow> JNull | Some s \<Rightarrow> JStr s)"

end
