(* ===== verification/Store_Types.thy ===== *)
theory Store_Types
  imports Hashing
begin

text \<open>
  The data of \<open>fusion_identity/store.py\<close>: the role, quota, plan and menu tables fixed at
  module level, the identifier checks, the records the in-memory store keeps, and the
  store itself (\<open>InMemoryStore.__init__\<close>). A record stored as a dict with string keys is
  a record here; its fields carry a short prefix, since several kinds of record have a
  \<open>tenant_id\<close> or a \<open>status\<close>. Status values stay strings, as in the source.
\<close>

section \<open>Module constants\<close>

definition ISSUED_JTI_DEFAULT_TTL :: real where "ISSUED_JTI_DEFAULT_TTL = 8 * 3600"
definition USAGE_CAP :: nat where "USAGE_CAP = 100000"
definition LEASE_LOG_CAP :: nat where "LEASE_LOG_CAP = 50000"
definition AUDIT_CAP :: nat where "AUDIT_CAP = 100000"

record role_seed =
  seed_display_name :: string
  seed_permissions :: "(string, string list) dict"

definition ROLES_SEED :: "(string, role_seed) dict" where
  "ROLES_SEED =
    [(''tenant_admin'', \<lparr>seed_display_name = ''Tenant Admin'',
        seed_permissions =
          [(''tenants'', [''read'', ''write'']), (''users'', [''read'', ''write'']),
           (''quotas'', [''read'', ''write'']), (''audit'', [''read''])]\<rparr>),
     (''operator'', \<lparr>seed_display_name = ''Operator'',
        seed_permissions =
          [(''models'', [''read'', ''infer'']), (''tasks'', [''read'', ''write''])]\<rparr>),
     (''member'', \<lparr>seed_display_name = ''Member'',
        seed_permissions = [(''models'', [''infer'']), (''tasks'', [''write''])]\<rparr>),
     (''viewer'', \<lparr>seed_display_name = ''Viewer'',
        seed_permissions = [(''models'', [''read'']), (''tasks'', [''read''])]\<rparr>)]"

definition builtin_role :: "string \<Rightarrow> bool" where
  "builtin_role r \<longleftrightarrow> r \<in> set (dkeys ROLES_SEED)"

lemma builtin_role_iff:
  "builtin_role r \<longleftrightarrow> r = ''tenant_admin'' \<or> r = ''operator'' \<or> r = ''member'' \<or> r = ''viewer''"
  by (auto simp: builtin_role_def ROLES_SEED_def)

definition JOIN_POLICIES :: "string list" where
  "JOIN_POLICIES = [''invite'', ''proof'', ''approval'', ''open'']"

record quota_body =
  q_rpm :: int
  q_tpm :: int
  q_concurrent :: int
  q_storage_mb :: int
  q_allowed_models :: "string list"
  q_allowed_modules :: "string list"
  q_default_priority :: int

definition DEFAULT_QUOTA :: quota_body where
  "DEFAULT_QUOTA = \<lparr>q_rpm = 60, q_tpm = 100000, q_concurrent = 4, q_storage_mb = 10240,
     q_allowed_models = [], q_allowed_modules = [], q_default_priority = 0\<rparr>"

definition PLAN_TEMPLATES :: "(string, quota_body) dict" where
  "PLAN_TEMPLATES =
    [(''free'', \<lparr>q_rpm = 10, q_tpm = 20000, q_concurrent = 2, q_storage_mb = 1024,
        q_allowed_models = [], q_allowed_modules = [], q_default_priority = 0\<rparr>),
     (''starter'', \<lparr>q_rpm = 30, q_tpm = 50000, q_concurrent = 3, q_storage_mb = 5120,
        q_allowed_models = [], q_allowed_modules = [], q_default_priority = 0\<rparr>),
     (''standard'', DEFAULT_QUOTA),
     (''pro'', \<lparr>q_rpm = 200, q_tpm = 1000000, q_concurrent = 16, q_storage_mb = 51200,
        q_allowed_models = [], q_allowed_modules = [], q_default_priority = 1\<rparr>),
     (''enterprise'', \<lparr>q_rpm = 1000, q_tpm = 10000000, q_concurrent = 64, q_storage_mb = 204800,
        q_allowed_models = [], q_allowed_modules = [], q_default_priority = 2\<rparr>)]"

definition LOCK_THRESHOLD :: int where "LOCK_THRESHOLD = 5"
definition LOCK_DURATION_SECONDS :: real where "LOCK_DURATION_SECONDS = 15 * 60"

text \<open>Every resource a seed may write becomes a write class, sorted.\<close>

definition WRITE_CLASSES :: "(string, string list) dict" where
  "WRITE_CLASSES = map (\<lambda>(role, seed). (role,
     sort (map (\<lambda>(res, acts). res @ '':write'')
       (filter (\<lambda>(res, acts). ''write'' \<in> set acts) (seed_permissions seed))))) ROLES_SEED"

definition BUILTIN_ROLE_MATRIX :: "(string, (string, string list) dict) dict" where
  "BUILTIN_ROLE_MATRIX =
    [(''operator'',
       [(''tenants'', [''read'']), (''members'', [''read'']),
        (''api_keys'', [''read'', ''write'', ''delete'']), (''quotas'', [''read'']),
        (''audit'', [''read'']), (''usage'', [''read'']),
        (''departments'', [''read'', ''write'', ''delete''])]),
     (''member'',
       [(''tenants'', [''read'']), (''usage'', [''read'']), (''departments'', [''read'', ''write''])]),
     (''viewer'',
       [(''tenants'', [''read'']), (''quotas'', [''read'']), (''usage'', [''read'']),
        (''departments'', [''read''])])]"

definition DEFAULT_ROLE_MENUS :: "(string, string list) dict" where
  "DEFAULT_ROLE_MENUS =
    [(''tenant_admin'', [''dashboard'', ''tenants'', ''users'', ''roles'', ''quotas'', ''usage'',
        ''audit'', ''settings'']),
     (''operator'', [''dashboard'', ''models'', ''tasks'']),
     (''member'', [''dashboard'', ''tasks'']),
     (''viewer'', [''dashboard'', ''models''])]"

definition MAX_CUSTOM_ROLES_PER_TENANT :: nat where "MAX_CUSTOM_ROLES_PER_TENANT = 64"
definition MAX_WRITE_CLASSES_PER_ROLE :: nat where "MAX_WRITE_CLASSES_PER_ROLE = 64"
definition MAX_MENUS_PER_TENANT :: nat where "MAX_MENUS_PER_TENANT = 256"
definition MAX_MENUS_PER_ROLE :: nat where "MAX_MENUS_PER_ROLE = 64"

section \<open>Identifiers\<close>

text \<open>
  The pattern \<open>^[a-z0-9][a-z0-9_.:-]{0,63}$\<close>, applied with \<open>re.match\<close>: the final \<open>$\<close>
  also matches just before a newline that ends the string.
\<close>

definition id_head :: "char \<Rightarrow> bool" where
  "id_head c \<longleftrightarrow> (let n = of_char c :: int in (97 \<le> n \<and> n \<le> 122) \<or> (48 \<le> n \<and> n \<le> 57))"

definition id_tail :: "char \<Rightarrow> bool" where
  "id_tail c \<longleftrightarrow> id_head c \<or> c = CHR ''_'' \<or> c = CHR ''.'' \<or> c = CHR '':'' \<or> c = CHR ''-''"

definition id_body :: "string \<Rightarrow> bool" where
  "id_body s \<longleftrightarrow> (case s of [] \<Rightarrow> False
     | c # cs \<Rightarrow> id_head c \<and> list_all id_tail cs \<and> length cs \<le> 63)"

definition valid_id :: "string \<Rightarrow> bool" where
  "valid_id s \<longleftrightarrow> id_body s \<or> (s \<noteq> [] \<and> last s = CHR 0x0A \<and> id_body (butlast s))"

definition valid_write_classes :: "string list \<Rightarrow> bool" where
  "valid_write_classes wcs \<longleftrightarrow>
     length wcs \<le> MAX_WRITE_CLASSES_PER_ROLE \<and> list_all valid_id wcs"

section \<open>Errors\<close>

text \<open>\<open>StoreConflict\<close>, with the values its message interpolates.\<close>

datatype conflict =
    TenantExists string
  | UnknownJoinPolicy string
  | UserExists string
  | UnknownRole string
  | UnknownRoleForTenant string string
  | InvalidRoleId string
  | RoleBuiltIn string
  | CustomRoleLimit
  | InvalidWriteClasses
  | RoleExists string
  | RoleInUse string nat
  | MenuLimitPerRole
  | MenuLimitPerTenant
  | InvalidMenuId string
  | MenuNotRegistered string
  | InvalidPlanId string
  | JoinRequestAlreadyPending
  | InvalidDecision string
  | JoinRequestDecided string
  | IdpExists string

section \<open>Records\<close>

record tenant_rec =
  t_tenant_id :: string
  t_display_name :: string
  t_status :: string
  t_plan :: string
  t_join_policy :: string
  t_created_at :: time
  t_disabled_at :: "time option"
  t_deleted_at :: "time option"

record user_rec =
  u_user_id :: string
  u_username :: string
  u_email :: "string option"
  u_display_name :: "string option"
  u_password_hash :: string
  u_password_hash_v :: string
  u_salt :: string
  u_password_algo :: string
  u_status :: string
  u_failed_attempts :: int
  u_locked_until :: "time option"
  u_must_change_password :: bool
  u_last_login_at :: "time option"
  u_email_verified :: bool
  u_email_verify_token_hash :: "string option"
  u_email_verify_expires :: "time option"
  u_password_reset_token_hash :: "string option"
  u_password_reset_expires :: "time option"
  u_created_at :: time

record member_rec =
  m_tenant_id :: string
  m_user_id :: string
  m_role :: string
  m_added_by :: "string option"
  m_added_at :: time
  m_joined_at :: time

record api_key_rec =
  k_key_id :: string
  k_tenant_id :: string
  k_user_id :: "string option"
  k_key_hash :: string
  k_prefix :: string
  k_scopes :: "string list"
  k_created_at :: time
  k_revoked_at :: "time option"

record app_secret_rec =
  a_secret_id :: string
  a_app_id :: string
  a_version :: int
  a_secret_hash :: string
  a_prefix :: string
  a_status :: string
  a_grace_until :: "time option"
  a_created_at :: time

record app_credential_rec =
  c_app_id :: string
  c_name :: string
  c_secret_enc :: string
  c_created_at :: time
  c_updated_at :: time
  c_fetch_count :: int
  c_last_fetched_at :: "time option"

record quota_rec =
  q_tenant_id :: string
  q_updated_at :: time
  q_body :: quota_body

record audit_fields =
  af_tenant_id :: string
  af_user_id :: "string option"
  af_jti :: "string option"
  af_role :: "string option"
  af_action :: string
  af_resource :: "string option"
  af_detail :: json
  af_ts :: time

record audit_rec =
  au_id :: int
  au_seq :: int
  au_fields :: audit_fields
  au_chain_hash :: string
  au_prev_hash :: string

record revoked_rec =
  r_jti :: string
  r_tenant_id :: string
  r_user_id :: "string option"
  r_reason :: string
  r_expires_at :: time
  r_revoked_at :: time

record refresh_rec =
  rt_jti :: string
  rt_family_id :: string
  rt_tenant_id :: string
  rt_user_id :: string
  rt_status :: string
  rt_issued_at :: time
  rt_expires_at :: time
  rt_replaced_by :: "string option"

record usage_rec =
  us_tenant_id :: string
  us_user_id :: "string option"
  us_metric :: string
  us_value :: int
  us_source :: string
  us_model :: "string option"
  us_ts :: time

record idp_rec =
  i_idp_id :: string
  i_tenant_id :: string
  i_type :: string
  i_issuer_url :: "string option"
  i_client_id :: "string option"
  i_client_secret_enc :: "string option"
  i_scopes :: "string option"
  i_auto_provision :: bool
  i_created_at :: time

record mfa_rec =
  f_user_id :: string
  f_method :: string
  f_secret_enc :: string
  f_enrolled_at :: time
  f_enabled :: bool

record lease_rec =
  l_tenant_id :: string
  l_lease_id :: string
  l_action :: string
  l_reason :: "string option"
  l_created_at :: time

record department_rec =
  d_dept_id :: string
  d_tenant_id :: string
  d_name :: string
  d_parent_id :: "string option"
  d_tool_allowlist :: "string list"
  d_created_at :: time
  d_updated_at :: time

record custom_role_rec =
  cr_role_id :: string
  cr_tenant_id :: string
  cr_display_name :: string
  cr_write_classes :: "string list"
  cr_created_at :: time
  cr_updated_at :: time

record idempotency_rec =
  id_key :: string
  id_endpoint :: string
  id_response :: json
  id_created_at :: time

record event_rec =
  e_event_id :: string
  e_seq :: int
  e_event_type :: string
  e_tenant_id :: string
  e_payload :: json
  e_status :: string
  e_attempts :: int
  e_created_at :: time
  e_updated_at :: time

record invite_rec =
  in_invite_id :: string
  in_tenant_id :: string
  in_token_hash :: string
  in_role :: string
  in_email :: "string option"
  in_created_by :: "string option"
  in_expires_at :: time
  in_used_at :: "time option"
  in_used_by :: "string option"
  in_created_at :: time

record ticket_rec =
  tk_ticket_hash :: string
  tk_user_id :: string
  tk_tenant_id :: string
  tk_expires_at :: time
  tk_used_at :: "time option"
  tk_created_at :: time

record join_request_rec =
  jr_request_id :: string
  jr_tenant_id :: string
  jr_user_id :: string
  jr_status :: string
  jr_decided_by :: "string option"
  jr_decided_at :: "time option"
  jr_created_at :: time

section \<open>The store\<close>

record store =
  tenants :: "(string, tenant_rec) dict"
  users :: "(string, user_rec) dict"
  members :: "(string \<times> string, member_rec) dict"
  api_keys :: "(string, api_key_rec) dict"
  key_hash_index :: "(string, string) dict"
  app_secrets :: "(string, app_secret_rec) dict"
  app_credentials :: "(string \<times> string, app_credential_rec) dict"
  quotas :: "(string, quota_rec) dict"
  audit :: "audit_rec list"
  revoked_jtis :: "(string, revoked_rec) dict"
  refresh_tokens :: "(string, refresh_rec) dict"
  issued_jtis :: "(string, string \<times> string \<times> time) dict"
  seq_audit :: int
  usage :: "usage_rec list"
  idps :: "(string, idp_rec) dict"
  mfa :: "(string \<times> string, mfa_rec) dict"
  lease_log :: "lease_rec list"
  departments :: "(string \<times> string, department_rec) dict"
  custom_roles :: "(string \<times> string, custom_role_rec) dict"
  menu_matrix :: "(string \<times> string, string list) dict"
  known_menus :: "(string, string list) dict"
  audit_tail_hash :: "(string, string) dict"
  plan_templates :: "(string, quota_body) dict"
  idempotency :: "(string, idempotency_rec) dict"
  events :: "event_rec list"
  event_seq :: int
  invites :: "(string, invite_rec) dict"
  sso_tickets :: "(string, ticket_rec) dict"
  join_requests :: "(string, join_request_rec) dict"

definition empty_store :: store where
  "empty_store =
    \<lparr>tenants = [], users = [], members = [], api_keys = [], key_hash_index = [],
     app_secrets = [], app_credentials = [], quotas = [], audit = [], revoked_jtis = [],
     refresh_tokens = [], issued_jtis = [], seq_audit = 0, usage = [], idps = [], mfa = [],
     lease_log = [], departments = [], custom_roles = [], menu_matrix = [], known_menus = [],
     audit_tail_hash = [], plan_templates = PLAN_TEMPLATES, idempotency = [], events = [],
     event_seq = 0, invites = [], sso_tickets = [], join_requests = []\<rparr>"

end
