(* ===== verification/Store_Tenants.thy ===== *)
theory Store_Tenants
  imports Store_Types
begin

text \<open>
  The tenant registry of \<open>InMemoryStore\<close>: tenants, quotas, plan templates, idempotency
  keys, departments and identity providers. Reads are functions of the store; an operation
  that writes returns its result together with the new store, and one that may raise
  returns \<open>Inl\<close> of the conflict.
\<close>

section \<open>Tenants\<close>

definition is_empty_tenants :: "store \<Rightarrow> bool" where
  "is_empty_tenants s \<longleftrightarrow> length (tenants s) = 0"

definition create_tenant ::
  "string \<Rightarrow> string \<Rightarrow> string \<Rightarrow> string \<Rightarrow> time \<Rightarrow> store \<Rightarrow> (conflict, tenant_rec, store) outcome" where
  "create_tenant tid display_name plan join_policy now s =
    (if dget (tenants s) tid \<noteq> None then raise (TenantExists tid) s
     else if join_policy \<notin> set JOIN_POLICIES then raise (UnknownJoinPolicy join_policy) s
     else
       let t = \<lparr>t_tenant_id = tid, t_display_name = display_name, t_status = ''active'',
                t_plan = plan, t_join_policy = join_policy, t_created_at = now,
                t_disabled_at = None, t_deleted_at = None\<rparr>
       in ret t (s\<lparr>tenants := dset tid t (tenants s),
                   quotas := dset tid \<lparr>q_tenant_id = tid, q_updated_at = now,
                                       q_body = DEFAULT_QUOTA\<rparr> (quotas s)\<rparr>))"

definition set_join_policy ::
  "string \<Rightarrow> string \<Rightarrow> store \<Rightarrow> (conflict, tenant_rec option, store) outcome" where
  "set_join_policy tid join_policy s =
    (if join_policy \<notin> set JOIN_POLICIES then raise (UnknownJoinPolicy join_policy) s
     else case dget (tenants s) tid of
       None \<Rightarrow> ret None s
     | Some t \<Rightarrow>
         let t' = t\<lparr>t_join_policy := join_policy\<rparr>
         in ret (Some t') (s\<lparr>tenants := dset tid t' (tenants s)\<rparr>))"

definition get_tenant :: "string \<Rightarrow> store \<Rightarrow> tenant_rec option" where
  "get_tenant tid s = dget (tenants s) tid"

definition get_tenant_status :: "string \<Rightarrow> store \<Rightarrow> string option" where
  "get_tenant_status tid s = map_option t_status (dget (tenants s) tid)"

definition list_tenants :: "store \<Rightarrow> tenant_rec list" where
  "list_tenants s = filter (\<lambda>t. t_status t \<noteq> ''deleted'') (dvals (tenants s))"

definition list_tenants_for :: "string \<Rightarrow> store \<Rightarrow> tenant_rec list" where
  "list_tenants_for tid s =
    (case dget (tenants s) tid of
       None \<Rightarrow> []
     | Some t \<Rightarrow> if t_status t = ''deleted'' then [] else [t])"

record tenant_update =
  tu_display_name :: "string option"
  tu_status :: "string option"
  tu_plan :: "string option"
  tu_join_policy :: "string option"

definition update_tenant ::
  "string \<Rightarrow> tenant_update \<Rightarrow> time \<Rightarrow> store \<Rightarrow> (conflict, tenant_rec option, store) outcome" where
  "update_tenant tid fs now s =
    (case dget (tenants s) tid of
       None \<Rightarrow> ret None s
     | Some t \<Rightarrow>
         let jp = upd_opt (tu_join_policy fs) (t_join_policy t)
         in if tu_join_policy fs \<noteq> None \<and> jp \<notin> set JOIN_POLICIES
            then raise (UnknownJoinPolicy jp) s
            else
              let t1 = t\<lparr>t_display_name := upd_opt (tu_display_name fs) (t_display_name t),
                         t_status := upd_opt (tu_status fs) (t_status t),
                         t_plan := upd_opt (tu_plan fs) (t_plan t),
                         t_join_policy := jp\<rparr>;
                  t2 = (if t_status t1 = ''disabled'' \<and> \<not> truthy_time (t_disabled_at t1)
                        then t1\<lparr>t_disabled_at := Some now\<rparr> else t1);
                  t3 = (if t_status t2 = ''active'' then t2\<lparr>t_disabled_at := None\<rparr> else t2)
              in ret (Some t3) (s\<lparr>tenants := dset tid t3 (tenants s)\<rparr>))"

text \<open>
  Deleting a tenant marks it and cascades: its memberships, custom roles and menus go, its
  live API keys are revoked and dropped from the hash index, its refresh tokens are revoked.
\<close>

definition key_of_tenant :: "string \<Rightarrow> api_key_rec \<Rightarrow> bool" where
  "key_of_tenant tid k \<longleftrightarrow> k_tenant_id k = tid \<and> \<not> truthy_time (k_revoked_at k)"

definition delete_tenant :: "string \<Rightarrow> time \<Rightarrow> store \<Rightarrow> bool \<times> store" where
  "delete_tenant tid now s =
    (case dget (tenants s) tid of
       None \<Rightarrow> (False, s)
     | Some t \<Rightarrow>
         (True, s\<lparr>
            tenants := dset tid (t\<lparr>t_status := ''deleted'', t_deleted_at := Some now\<rparr>) (tenants s),
            members := dpop_if (\<lambda>(t, u). t = tid) (members s),
            custom_roles := dpop_if (\<lambda>(t, r). t = tid) (custom_roles s),
            menu_matrix := dpop_if (\<lambda>(t, r). t = tid) (menu_matrix s),
            known_menus := dpop tid (known_menus s),
            api_keys := dmap (\<lambda>k. if key_of_tenant tid k then k\<lparr>k_revoked_at := Some now\<rparr> else k)
                             (api_keys s),
            key_hash_index := dpop_all (map k_key_hash (filter (key_of_tenant tid) (dvals (api_keys s))))
                                       (key_hash_index s),
            refresh_tokens := dmap (\<lambda>r. if rt_tenant_id r = tid \<and> rt_status r \<noteq> ''revoked''
                                         then r\<lparr>rt_status := ''revoked''\<rparr> else r)
                                   (refresh_tokens s)\<rparr>))"

section \<open>Quotas and plan templates\<close>

record quota_update =
  qu_rpm :: "int option"
  qu_tpm :: "int option"
  qu_concurrent :: "int option"
  qu_storage_mb :: "int option"
  qu_allowed_models :: "string list option"
  qu_allowed_modules :: "string list option"
  qu_default_priority :: "int option"

text \<open>The field loop shared by \<open>put_quota\<close> and \<open>put_plan_template\<close>.\<close>

definition merge_quota :: "quota_update \<Rightarrow> quota_body \<Rightarrow> quota_body" where
  "merge_quota f q =
    q\<lparr>q_rpm := upd_opt (qu_rpm f) (q_rpm q),
      q_tpm := upd_opt (qu_tpm f) (q_tpm q),
      q_concurrent := upd_opt (qu_concurrent f) (q_concurrent q),
      q_storage_mb := upd_opt (qu_storage_mb f) (q_storage_mb q),
      q_allowed_models := upd_opt (qu_allowed_models f) (q_allowed_models q),
      q_allowed_modules := upd_opt (qu_allowed_modules f) (q_allowed_modules q),
      q_default_priority := upd_opt (qu_default_priority f) (q_default_priority q)\<rparr>"

definition get_quota :: "string \<Rightarrow> store \<Rightarrow> quota_rec option" where
  "get_quota tid s = dget (quotas s) tid"

definition put_quota :: "string \<Rightarrow> quota_update \<Rightarrow> time \<Rightarrow> store \<Rightarrow> quota_rec option \<times> store" where
  "put_quota tid fs now s =
    (case dget (quotas s) tid of
       None \<Rightarrow> (None, s)
     | Some q \<Rightarrow>
         let q' = q\<lparr>q_body := merge_quota fs (q_body q), q_updated_at := now\<rparr>
         in (Some q', s\<lparr>quotas := dset tid q' (quotas s)\<rparr>))"

definition list_plan_templates :: "store \<Rightarrow> (string \<times> quota_body) list" where
  "list_plan_templates s = plan_templates s"

definition get_plan_template :: "string \<Rightarrow> store \<Rightarrow> quota_body option" where
  "get_plan_template plan s = dget (plan_templates s) plan"

definition put_plan_template ::
  "string \<Rightarrow> quota_update \<Rightarrow> store \<Rightarrow> (conflict, quota_body, store) outcome" where
  "put_plan_template plan quota s =
    (if \<not> valid_id plan then raise (InvalidPlanId plan) s
     else
       let base = (case dget (plan_templates s) plan of None \<Rightarrow> DEFAULT_QUOTA | Some q \<Rightarrow> q);
           merged = merge_quota quota base
       in ret merged (s\<lparr>plan_templates := dset plan merged (plan_templates s)\<rparr>))"

section \<open>Idempotency keys\<close>

definition get_idempotency :: "string \<Rightarrow> store \<Rightarrow> idempotency_rec option" where
  "get_idempotency idem_key s = dget (idempotency s) idem_key"

definition put_idempotency :: "string \<Rightarrow> string \<Rightarrow> json \<Rightarrow> time \<Rightarrow> store \<Rightarrow> store" where
  "put_idempotency idem_key endpoint response now s =
    s\<lparr>idempotency := dset idem_key \<lparr>id_key = idem_key, id_endpoint = endpoint,
                                    id_response = response, id_created_at = now\<rparr> (idempotency s)\<rparr>"

section \<open>Departments\<close>

definition create_department ::
  "string \<Rightarrow> string \<Rightarrow> string option \<Rightarrow> string list option \<Rightarrow> string \<Rightarrow> time \<Rightarrow> store
     \<Rightarrow> department_rec \<times> store" where
  "create_department tid name parent_id tool_allowlist rnd now s =
    (let dept_id = ''dept_'' @ rnd;
         rec = \<lparr>d_dept_id = dept_id, d_tenant_id = tid, d_name = name, d_parent_id = parent_id,
                d_tool_allowlist = upd_opt tool_allowlist [], d_created_at = now, d_updated_at = now\<rparr>
     in (rec, s\<lparr>departments := dset (tid, dept_id) rec (departments s)\<rparr>))"

definition get_department :: "string \<Rightarrow> string \<Rightarrow> store \<Rightarrow> department_rec option" where
  "get_department tid dept_id s = dget (departments s) (tid, dept_id)"

definition list_departments :: "string \<Rightarrow> store \<Rightarrow> department_rec list" where
  "list_departments tid s = filter (\<lambda>d. d_tenant_id d = tid) (dvals (departments s))"

record department_update =
  du_name :: "string option"
  du_parent_id :: "string option"
  du_tool_allowlist :: "string list option"

definition update_department ::
  "string \<Rightarrow> string \<Rightarrow> department_update \<Rightarrow> time \<Rightarrow> store \<Rightarrow> department_rec option \<times> store" where
  "update_department tid dept_id fs now s =
    (case dget (departments s) (tid, dept_id) of
       None \<Rightarrow> (None, s)
     | Some d \<Rightarrow>
         let d' = d\<lparr>d_name := upd_opt (du_name fs) (d_name d),
                    d_parent_id := (case du_parent_id fs of
                                      None \<Rightarrow> d_parent_id d | Some p \<Rightarrow> Some p),
                    d_tool_allowlist := upd_opt (du_tool_allowlist fs) (d_tool_allowlist d),
                    d_updated_at := now\<rparr>
         in (Some d', s\<lparr>departments := dset (tid, dept_id) d' (departments s)\<rparr>))"

definition delete_department :: "string \<Rightarrow> string \<Rightarrow> store \<Rightarrow> bool \<times> store" where
  "delete_department tid dept_id s =
    (dget (departments s) (tid, dept_id) \<noteq> None,
     s\<lparr>departments := dpop (tid, dept_id) (departments s)\<rparr>)"

section \<open>Identity providers\<close>

definition create_idp ::
  "string \<Rightarrow> string \<Rightarrow> string \<Rightarrow> string option \<Rightarrow> string option \<Rightarrow> string option \<Rightarrow> string option
     \<Rightarrow> bool \<Rightarrow> time \<Rightarrow> store \<Rightarrow> (conflict, idp_rec, store) outcome" where
  "create_idp idp_id tid type issuer_url client_id client_secret_enc scopes auto_provision now s =
    (if dget (idps s) idp_id \<noteq> None then raise (IdpExists idp_id) s
     else
       let rec = \<lparr>i_idp_id = idp_id, i_tenant_id = tid, i_type = type, i_issuer_url = issuer_url,
                  i_client_id = client_id, i_client_secret_enc = client_secret_enc,
                  i_scopes = scopes, i_auto_provision = auto_provision, i_created_at = now\<rparr>
       in ret rec (s\<lparr>idps := dset idp_id rec (idps s)\<rparr>))"

definition get_idp :: "string \<Rightarrow> store \<Rightarrow> idp_rec option" where
  "get_idp idp_id s = dget (idps s) idp_id"

definition list_idps :: "string \<Rightarrow> store \<Rightarrow> idp_rec list" where
  "list_idps tid s = filter (\<lambda>r. i_tenant_id r = tid) (dvals (idps s))"

definition list_all_idps :: "store \<Rightarrow> idp_rec list" where
  "list_all_idps s = filter (\<lambda>r. truthy_str (i_client_secret_enc r)) (dvals (idps s))"

definition delete_idp :: "string \<Rightarrow> store \<Rightarrow> bool \<times> store" where
  "delete_idp idp_id s =
    (if dget (idps s) idp_id = None then (False, s)
     else (True, s\<lparr>idps := dpop idp_id (idps s)\<rparr>))"

record idp_update =
  iu_type :: "string option"
  iu_issuer_url :: "string option"
  iu_client_id :: "string option"
  iu_client_secret_enc :: "string option"
  iu_scopes :: "string option"
  iu_auto_provision :: "bool option"

definition keep_opt :: "'a option \<Rightarrow> 'a option \<Rightarrow> 'a option" where
  "keep_opt new old = (case new of None \<Rightarrow> old | Some v \<Rightarrow> Some v)"

definition update_idp :: "string \<Rightarrow> idp_update \<Rightarrow> store \<Rightarrow> idp_rec option \<times> store" where
  "update_idp idp_id fs s =
    (case dget (idps s) idp_id of
       None \<Rightarrow> (None, s)
     | Some r \<Rightarrow>
         let r' = r\<lparr>i_type := upd_opt (iu_type fs) (i_type r),
                    i_issuer_url := keep_opt (iu_issuer_url fs) (i_issuer_url r),
                    i_client_id := keep_opt (iu_client_id fs) (i_client_id r),
                    i_client_secret_enc := keep_opt (iu_client_secret_enc fs) (i_client_secret_enc r),
                    i_scopes := keep_opt (iu_scopes fs) (i_scopes r),
                    i_auto_provision := upd_opt (iu_auto_provision fs) (i_auto_provision r)\<rparr>
         in (Some r', s\<lparr>idps := dset idp_id r' (idps s)\<rparr>))"

definition get_idp_summary :: "string \<Rightarrow> store \<Rightarrow> bool \<times> nat \<times> string list \<times> bool" where
  "get_idp_summary tid s =
    (let rows = filter (\<lambda>r. i_tenant_id r = tid) (dvals (idps s))
     in (length rows > 0, length rows, sort (remdups (map i_type rows)),
         list_ex i_auto_provision rows))"

lemmas tenant_store_defs = create_tenant_def set_join_policy_def update_tenant_def
  delete_tenant_def put_quota_def put_plan_template_def put_idempotency_def
  create_department_def update_department_def delete_department_def
  create_idp_def delete_idp_def update_idp_def

lemmas tenant_read_defs = is_empty_tenants_def get_tenant_def get_tenant_status_def
  list_tenants_def list_tenants_for_def get_quota_def get_plan_template_def
  get_idempotency_def get_department_def list_departments_def get_idp_def list_idps_def

section \<open>Steps of the tenant registry\<close>

text \<open>
  One rule per operation of this theory that writes, the cascading delete apart; a step
  leaves every other part of the store as it was.
\<close>

inductive tenant_step :: "store \<Rightarrow> store \<Rightarrow> bool" where
  create_tenant: "tenant_step s (snd (create_tenant t d p j n s))"
| set_join_policy: "tenant_step s (snd (set_join_policy t j s))"
| update_tenant: "tenant_step s (snd (update_tenant t f n s))"
| put_quota: "tenant_step s (snd (put_quota t q n s))"
| put_plan_template: "tenant_step s (snd (put_plan_template p q s))"
| put_idempotency: "tenant_step s (put_idempotency k e r n s)"
| create_department: "tenant_step s (snd (create_department t m pa a r n s))"
| update_department: "tenant_step s (snd (update_department t dp df n s))"
| delete_department: "tenant_step s (snd (delete_department t dp s))"
| create_idp: "tenant_step s (snd (create_idp i t ty iss c e sc au n s))"
| update_idp: "tenant_step s (snd (update_idp i uf s))"
| delete_idp: "tenant_step s (snd (delete_idp i s))"

lemma tenant_step_erase:
  assumes "tenant_step s s'"
  shows "s'\<lparr>tenants := [], quotas := [], plan_templates := [], idempotency := [], departments := [], idps := []\<rparr>
    = s\<lparr>tenants := [], quotas := [], plan_templates := [], idempotency := [], departments := [], idps := []\<rparr>"
  using assms by (cases rule: tenant_step.cases; simp add: tenant_store_defs Let_def split: option.splits)

lemma tenant_step_frame:
  assumes "tenant_step s s'"
  shows
    "users s' = users s" "members s' = members s" "api_keys s' = api_keys s"
    "key_hash_index s' = key_hash_index s" "app_secrets s' = app_secrets s"
    "app_credentials s' = app_credentials s" "audit s' = audit s"
    "revoked_jtis s' = revoked_jtis s" "refresh_tokens s' = refresh_tokens s"
    "issued_jtis s' = issued_jtis s" "seq_audit s' = seq_audit s" "usage s' = usage s"
    "mfa s' = mfa s" "lease_log s' = lease_log s" "custom_roles s' = custom_roles s"
    "menu_matrix s' = menu_matrix s" "known_menus s' = known_menus s"
    "audit_tail_hash s' = audit_tail_hash s" "events s' = events s" "event_seq s' = event_seq s"
    "invites s' = invites s" "sso_tickets s' = sso_tickets s" "join_requests s' = join_requests s"
  using tenant_step_erase [OF assms] by (cases s; cases s'; simp)+

end
