(* ===== verification/Store_Rbac.thy ===== *)
theory Store_Rbac
  imports Store_Types
begin

text \<open>
  Roles and menus of \<open>InMemoryStore\<close>: the four built-in roles, per-tenant custom roles,
  the menus a tenant has registered and the role-to-menu matrix.
\<close>

section \<open>Roles\<close>

definition is_valid_role :: "string \<Rightarrow> string \<Rightarrow> store \<Rightarrow> bool" where
  "is_valid_role tid role s \<longleftrightarrow> builtin_role role \<or> dget (custom_roles s) (tid, role) \<noteq> None"

definition get_role_menus :: "string \<Rightarrow> string \<Rightarrow> store \<Rightarrow> string list" where
  "get_role_menus tid role_id s =
    (case dget (menu_matrix s) (tid, role_id) of
       Some ms \<Rightarrow> ms
     | None \<Rightarrow> (case dget DEFAULT_ROLE_MENUS role_id of Some ms \<Rightarrow> ms | None \<Rightarrow> []))"

record role_view =
  rv_role_id :: string
  rv_tenant_id :: string
  rv_display_name :: string
  rv_write_classes :: "string list"
  rv_built_in :: bool
  rv_menus :: "string list"

definition get_role :: "string \<Rightarrow> string \<Rightarrow> store \<Rightarrow> role_view option" where
  "get_role tid role_id s =
    (case dget ROLES_SEED role_id of
       Some seed \<Rightarrow>
         Some \<lparr>rv_role_id = role_id, rv_tenant_id = tid,
               rv_display_name = seed_display_name seed,
               rv_write_classes = upd_opt (dget WRITE_CLASSES role_id) [],
               rv_built_in = True, rv_menus = get_role_menus tid role_id s\<rparr>
     | None \<Rightarrow>
         (case dget (custom_roles s) (tid, role_id) of
            None \<Rightarrow> None
          | Some rec \<Rightarrow>
              Some \<lparr>rv_role_id = cr_role_id rec, rv_tenant_id = cr_tenant_id rec,
                    rv_display_name = cr_display_name rec,
                    rv_write_classes = cr_write_classes rec,
                    rv_built_in = False, rv_menus = get_role_menus tid role_id s\<rparr>))"

definition list_roles :: "string \<Rightarrow> store \<Rightarrow> role_view option list" where
  "list_roles tid s =
    map (\<lambda>r. get_role tid r s) (dkeys ROLES_SEED)
    @ map (\<lambda>rid. get_role tid rid s)
        (map snd (filter (\<lambda>(t, rid). t = tid) (dkeys (custom_roles s))))"

definition tenant_custom_roles :: "string \<Rightarrow> store \<Rightarrow> (string \<times> string) list" where
  "tenant_custom_roles tid s = filter (\<lambda>(t, rid). t = tid) (dkeys (custom_roles s))"

definition create_custom_role ::
  "string \<Rightarrow> string \<Rightarrow> string \<Rightarrow> string list \<Rightarrow> time \<Rightarrow> store
     \<Rightarrow> (conflict, custom_role_rec, store) outcome" where
  "create_custom_role tid role_id display_name write_classes now s =
    (if \<not> valid_id role_id then raise (InvalidRoleId role_id) s
     else if builtin_role role_id then raise (RoleBuiltIn role_id) s
     else if length (tenant_custom_roles tid s) \<ge> MAX_CUSTOM_ROLES_PER_TENANT
     then raise CustomRoleLimit s
     else if \<not> valid_write_classes write_classes then raise InvalidWriteClasses s
     else if dget (custom_roles s) (tid, role_id) \<noteq> None then raise (RoleExists role_id) s
     else
       let rec = \<lparr>cr_role_id = role_id, cr_tenant_id = tid, cr_display_name = display_name,
                  cr_write_classes = write_classes, cr_created_at = now, cr_updated_at = now\<rparr>
       in ret rec (s\<lparr>custom_roles := dset (tid, role_id) rec (custom_roles s)\<rparr>))"

text \<open>
  The display name is written before the write classes are checked, so the error path
  leaves it changed.
\<close>

definition update_custom_role ::
  "string \<Rightarrow> string \<Rightarrow> string option \<Rightarrow> string list option \<Rightarrow> time \<Rightarrow> store
     \<Rightarrow> (conflict, custom_role_rec option, store) outcome" where
  "update_custom_role tid role_id display_name write_classes now s =
    (if builtin_role role_id then raise (RoleBuiltIn role_id) s
     else case dget (custom_roles s) (tid, role_id) of
       None \<Rightarrow> ret None s
     | Some rec \<Rightarrow>
         let rec1 = rec\<lparr>cr_display_name := upd_opt display_name (cr_display_name rec)\<rparr>;
             s1 = s\<lparr>custom_roles := dset (tid, role_id) rec1 (custom_roles s)\<rparr>
         in case write_classes of
              Some wcs \<Rightarrow>
                if \<not> valid_write_classes wcs then raise InvalidWriteClasses s1
                else
                  let rec2 = rec1\<lparr>cr_write_classes := wcs, cr_updated_at := now\<rparr>
                  in ret (Some rec2) (s\<lparr>custom_roles := dset (tid, role_id) rec2 (custom_roles s)\<rparr>)
            | None \<Rightarrow>
                let rec2 = rec1\<lparr>cr_updated_at := now\<rparr>
                in ret (Some rec2) (s\<lparr>custom_roles := dset (tid, role_id) rec2 (custom_roles s)\<rparr>))"

definition count_members_by_role :: "string \<Rightarrow> string \<Rightarrow> store \<Rightarrow> nat" where
  "count_members_by_role tid role s =
    length (filter (\<lambda>((t, u), m). t = tid \<and> m_role m = role) (members s))"

definition delete_custom_role ::
  "string \<Rightarrow> string \<Rightarrow> store \<Rightarrow> (conflict, bool, store) outcome" where
  "delete_custom_role tid role_id s =
    (if builtin_role role_id then raise (RoleBuiltIn role_id) s
     else if dget (custom_roles s) (tid, role_id) = None then ret False s
     else
       let in_use = length (filter (\<lambda>((t, u), m). t = tid \<and> m_role m = role_id) (members s))
       in if in_use \<noteq> 0 then raise (RoleInUse role_id in_use) s
          else ret True (s\<lparr>custom_roles := dpop (tid, role_id) (custom_roles s),
                            menu_matrix := dpop (tid, role_id) (menu_matrix s)\<rparr>))"

section \<open>Menus\<close>

text \<open>\<open>list(dict.fromkeys(xs))\<close>: duplicates dropped, first occurrences kept in order.\<close>

definition fromkeys :: "'a list \<Rightarrow> 'a list" where
  "fromkeys xs = rev (remdups (rev xs))"

lemma set_fromkeys [simp]: "set (fromkeys xs) = set xs"
  by (simp add: fromkeys_def)

lemma distinct_fromkeys [simp]: "distinct (fromkeys xs)"
  by (simp add: fromkeys_def)

lemma length_fromkeys: "length (fromkeys xs) \<le> length xs"
  using length_remdups_leq [of "rev xs"] by (simp add: fromkeys_def)

definition default_menus :: "string set" where
  "default_menus = \<Union> (set ` set (dvals DEFAULT_ROLE_MENUS))"

fun check_menus :: "string set \<Rightarrow> string list \<Rightarrow> conflict option" where
  "check_menus known [] = None"
| "check_menus known (m # ms) =
     (if \<not> valid_id m then Some (InvalidMenuId m)
      else if m \<notin> known then Some (MenuNotRegistered m)
      else check_menus known ms)"

definition set_role_menus ::
  "string \<Rightarrow> string \<Rightarrow> string list \<Rightarrow> store \<Rightarrow> (conflict, string list, store) outcome" where
  "set_role_menus tid role_id menus s =
    (if \<not> is_valid_role tid role_id s then raise (UnknownRole role_id) s
     else if length menus > MAX_MENUS_PER_ROLE then raise MenuLimitPerRole s
     else
       let known = set (upd_opt (dget (known_menus s) tid) []) \<union> default_menus
       in case check_menus known menus of
            Some e \<Rightarrow> raise e s
          | None \<Rightarrow> ret (fromkeys menus)
              (s\<lparr>menu_matrix := dset (tid, role_id) (fromkeys menus) (menu_matrix s)\<rparr>))"

definition reset_role_menus ::
  "string \<Rightarrow> string \<Rightarrow> store \<Rightarrow> (conflict, string list, store) outcome" where
  "reset_role_menus tid role_id s =
    (if \<not> is_valid_role tid role_id s then raise (UnknownRole role_id) s
     else ret (upd_opt (dget DEFAULT_ROLE_MENUS role_id) [])
            (s\<lparr>menu_matrix := dpop (tid, role_id) (menu_matrix s)\<rparr>))"

fun extend_menus :: "string list \<Rightarrow> string list \<Rightarrow> conflict + string list" where
  "extend_menus current [] = Inr current"
| "extend_menus current (m # ms) =
     (if \<not> valid_id m then Inl (InvalidMenuId m)
      else extend_menus (if m \<in> set current then current else current @ [m]) ms)"

definition add_known_menus ::
  "string \<Rightarrow> string list \<Rightarrow> store \<Rightarrow> (conflict, string list, store) outcome" where
  "add_known_menus tid menus s =
    (if length menus > MAX_MENUS_PER_TENANT then raise MenuLimitPerTenant s
     else case extend_menus (upd_opt (dget (known_menus s) tid) []) menus of
       Inl e \<Rightarrow> raise e s
     | Inr current \<Rightarrow>
         if length current > MAX_MENUS_PER_TENANT then raise MenuLimitPerTenant s
         else ret current (s\<lparr>known_menus := dset tid current (known_menus s)\<rparr>))"

definition list_known_menus :: "string \<Rightarrow> store \<Rightarrow> string list" where
  "list_known_menus tid s = upd_opt (dget (known_menus s) tid) []"

lemmas rbac_store_defs = create_custom_role_def update_custom_role_def delete_custom_role_def
  set_role_menus_def reset_role_menus_def add_known_menus_def

section \<open>Facts\<close>

lemma builtin_seed: "builtin_role r \<longleftrightarrow> dget ROLES_SEED r \<noteq> None"
  by (simp add: builtin_role_def map_of_eq_None_iff)

text \<open>A role id resolves exactly when it is valid for the tenant.\<close>

lemma get_role_valid: "get_role tid r s \<noteq> None \<longleftrightarrow> is_valid_role tid r s"
  by (auto simp: get_role_def is_valid_role_def builtin_seed split: option.splits)

lemma check_menus_None:
  "check_menus known ms = None \<longleftrightarrow> (\<forall>m \<in> set ms. valid_id m \<and> m \<in> known)"
  by (induction ms) auto

lemma set_role_menus_cases:
  obtains (err) e where "set_role_menus t r ms s = (Inl e, s)"
  | (ok) "is_valid_role t r s" "length ms \<le> MAX_MENUS_PER_ROLE"
      "\<forall>m \<in> set ms. valid_id m \<and> m \<in> set (list_known_menus t s) \<union> default_menus"
      "set_role_menus t r ms s =
        (Inr (fromkeys ms), s\<lparr>menu_matrix := dset (t, r) (fromkeys ms) (menu_matrix s)\<rparr>)"
proof (cases "is_valid_role t r s \<and> length ms \<le> MAX_MENUS_PER_ROLE")
  case False
  then show ?thesis
    using err [of "UnknownRole r"] err [of MenuLimitPerRole]
    by (cases "is_valid_role t r s") (auto simp: set_role_menus_def)
next
  case True
  let ?known = "set (list_known_menus t s) \<union> default_menus"
  show ?thesis
  proof (cases "check_menus ?known ms")
    case None
    then have "\<forall>m \<in> set ms. valid_id m \<and> m \<in> ?known" by (simp only: check_menus_None)
    with True None show ?thesis
      by (intro ok) (simp_all add: set_role_menus_def list_known_menus_def)
  next
    case (Some e)
    with True show ?thesis
      by (intro err [of e]) (simp add: set_role_menus_def list_known_menus_def)
  qed
qed

lemma add_known_menus_cases:
  obtains (err) e where "add_known_menus t ms s = (Inl e, s)"
  | (ok) out where "extend_menus (list_known_menus t s) ms = Inr out"
      "length out \<le> MAX_MENUS_PER_TENANT"
      "add_known_menus t ms s = (Inr out, s\<lparr>known_menus := dset t out (known_menus s)\<rparr>)"
proof (cases "length ms > MAX_MENUS_PER_TENANT")
  case True
  then show ?thesis by (intro err) (simp add: add_known_menus_def)
next
  case False
  show ?thesis
  proof (cases "extend_menus (list_known_menus t s) ms")
    case (Inl e)
    with False show ?thesis
      by (intro err [of e]) (simp add: add_known_menus_def list_known_menus_def)
  next
    case (Inr out)
    show ?thesis
    proof (cases "length out > MAX_MENUS_PER_TENANT")
      case True
      with False Inr show ?thesis
        by (intro err) (simp add: add_known_menus_def list_known_menus_def)
    next
      case ok': False
      with False Inr show ?thesis
        by (intro ok [of out]) (simp_all add: add_known_menus_def list_known_menus_def)
    qed
  qed
qed

lemma extend_menus_ok:
  assumes "extend_menus cur ms = Inr out"
  shows "set out = set cur \<union> set ms" "\<forall>m \<in> set ms. valid_id m" "distinct cur \<Longrightarrow> distinct out"
    "prefix cur out"
proof -
  have "set out = set cur \<union> set ms \<and> (\<forall>m \<in> set ms. valid_id m) \<and>
      (distinct cur \<longrightarrow> distinct out) \<and> prefix cur out"
    using assms
  proof (induction ms arbitrary: cur)
    case Nil
    then show ?case by simp
  next
    case (Cons m ms)
    define cur' where "cur' = (if m \<in> set cur then cur else cur @ [m])"
    have v: "valid_id m" and e: "extend_menus cur' ms = Inr out"
      using Cons.prems by (auto simp: cur'_def split: if_splits)
    have "prefix cur cur'" by (simp add: cur'_def)
    with Cons.IH [OF e] v show ?case
      by (auto simp: cur'_def split: if_splits dest: append_prefixD)
  qed
  then show "set out = set cur \<union> set ms" "\<forall>m \<in> set ms. valid_id m"
    "distinct cur \<Longrightarrow> distinct out" "prefix cur out" by auto
qed

section \<open>Steps of the role tables\<close>

inductive rbac_step :: "store \<Rightarrow> store \<Rightarrow> bool" where
  create_custom_role: "rbac_step s (snd (create_custom_role t r d w n s))"
| update_custom_role: "rbac_step s (snd (update_custom_role t r dn wo n s))"
| delete_custom_role: "rbac_step s (snd (delete_custom_role t r s))"
| set_role_menus: "rbac_step s (snd (set_role_menus t r ms s))"
| reset_role_menus: "rbac_step s (snd (reset_role_menus t r s))"
| add_known_menus: "rbac_step s (snd (add_known_menus t ms s))"

lemma rbac_step_erase:
  assumes "rbac_step s s'"
  shows "s'\<lparr>custom_roles := [], menu_matrix := [], known_menus := []\<rparr>
    = s\<lparr>custom_roles := [], menu_matrix := [], known_menus := []\<rparr>"
  using assms by (cases rule: rbac_step.cases; simp add: rbac_store_defs Let_def split: option.splits sum.splits)

lemma rbac_step_frame:
  assumes "rbac_step s s'"
  shows
    "tenants s' = tenants s" "users s' = users s" "members s' = members s"
    "api_keys s' = api_keys s" "key_hash_index s' = key_hash_index s"
    "app_secrets s' = app_secrets s" "app_credentials s' = app_credentials s"
    "quotas s' = quotas s" "audit s' = audit s" "revoked_jtis s' = revoked_jtis s"
    "refresh_tokens s' = refresh_tokens s" "issued_jtis s' = issued_jtis s"
    "seq_audit s' = seq_audit s" "usage s' = usage s" "idps s' = idps s" "mfa s' = mfa s"
    "lease_log s' = lease_log s" "departments s' = departments s"
    "audit_tail_hash s' = audit_tail_hash s" "plan_templates s' = plan_templates s"
    "idempotency s' = idempotency s" "events s' = events s" "event_seq s' = event_seq s"
    "invites s' = invites s" "sso_tickets s' = sso_tickets s" "join_requests s' = join_requests s"
  using rbac_step_erase [OF assms] by (cases s; cases s'; simp)+

end
