(* ===== verification/Store_Users.thy ===== *)
theory Store_Users
  imports Store_Rbac
begin

text \<open>
  Accounts of \<open>InMemoryStore\<close>: password hashing and checking, users with their e-mail
  verification and password-reset tokens, memberships, one-time SSO tickets and MFA
  factors. The argon2 package and \<open>hashlib.scrypt\<close> are the parameter \<open>kdf\<close>.
\<close>

section \<open>Passwords\<close>

text \<open>
  \<open>PasswordHasher.verify\<close> returns, or raises one of the two errors the code catches. The third
  error argon2 documents, a plain \<open>VerificationError\<close> for a failure of the computation itself
  such as an exhausted memory, is not caught there and ends the request; it has no result here.
\<close>

datatype argon_result = ArgonOk | ArgonMismatch | ArgonInvalidHash

record kdf =
  argon2_hash :: "string \<Rightarrow> string \<Rightarrow> string"
  argon2_verify :: "string \<Rightarrow> string \<Rightarrow> argon_result"
  argon2_needs_rehash :: "string \<Rightarrow> bool"
  scrypt_raw :: "string \<Rightarrow> string \<Rightarrow> string"

definition LEGACY_SALT :: string where "LEGACY_SALT = ''fusion-identity''"

text \<open>\<open>hash_password\<close> with the salt it was given or drew.\<close>

definition hash_password :: "kdf \<Rightarrow> string \<Rightarrow> string \<Rightarrow> string \<times> string \<times> string" where
  "hash_password K password salt = (argon2_hash K password salt, salt, ''argon2id'')"

definition scrypt_legacy :: "kdf \<Rightarrow> string \<Rightarrow> string \<Rightarrow> string" where
  "scrypt_legacy K password salt = scrypt_raw K password salt"

definition verify_password ::
  "kdf \<Rightarrow> string \<Rightarrow> string \<Rightarrow> string \<Rightarrow> string \<Rightarrow> string \<Rightarrow> bool \<times> bool" where
  "verify_password K password password_hash_v password_hash salt algo =
    (if algo = ''argon2id'' \<and> password_hash_v \<noteq> [] then
       (case argon2_verify K password_hash_v password of
          ArgonOk \<Rightarrow> (True, argon2_needs_rehash K password_hash_v)
        | ArgonMismatch \<Rightarrow> (False, False)
        | ArgonInvalidHash \<Rightarrow> (False, False))
     else if algo = ''scrypt'' \<or> (algo = ''legacy'' \<and> password_hash \<noteq> []) then
       (let candidate = scrypt_legacy K password (if salt = [] then LEGACY_SALT else salt);
            ok = (candidate = password_hash)
        in (ok, ok))
     else if password_hash \<noteq> [] then
       (let candidate = scrypt_legacy K password LEGACY_SALT;
            ok = (candidate = password_hash)
        in (ok, ok))
     else (False, False))"

text \<open>The documented contract of the argon2 package.\<close>

definition argon2_sound :: "kdf \<Rightarrow> bool" where
  "argon2_sound K \<longleftrightarrow>
    (\<forall>p salt q. argon2_verify K (argon2_hash K p salt) q = (if q = p then ArgonOk else ArgonMismatch))
    \<and> (\<forall>p salt. argon2_hash K p salt \<noteq> [])"

section \<open>Users\<close>

definition create_user ::
  "kdf \<Rightarrow> string \<Rightarrow> string \<Rightarrow> string \<Rightarrow> string option \<Rightarrow> bool \<Rightarrow> bool \<Rightarrow> string option \<Rightarrow> string
     \<Rightarrow> time \<Rightarrow> store \<Rightarrow> (conflict, user_rec, store) outcome" where
  "create_user K user_id username password email must_change email_verified display_name rnd_salt now s =
    (if dget (users s) user_id \<noteq> None then raise (UserExists user_id) s
     else
       let (pw_hash, salt, algo) = hash_password K password rnd_salt;
           u = \<lparr>u_user_id = user_id, u_username = username, u_email = email,
                u_display_name = display_name, u_password_hash = [], u_password_hash_v = pw_hash,
                u_salt = salt, u_password_algo = algo, u_status = ''active'',
                u_failed_attempts = 0, u_locked_until = None,
                u_must_change_password = must_change, u_last_login_at = None,
                u_email_verified = email_verified, u_email_verify_token_hash = None,
                u_email_verify_expires = None, u_password_reset_token_hash = None,
                u_password_reset_expires = None, u_created_at = now\<rparr>
       in ret u (s\<lparr>users := dset user_id u (users s)\<rparr>))"

definition get_user_by_username :: "string \<Rightarrow> store \<Rightarrow> user_rec option" where
  "get_user_by_username username s = List.find (\<lambda>u. u_username u = username) (dvals (users s))"

definition get_user_by_email :: "string \<Rightarrow> store \<Rightarrow> user_rec option" where
  "get_user_by_email email s =
    List.find (\<lambda>u. case u_email u of None \<Rightarrow> False
                   | Some e \<Rightarrow> e \<noteq> [] \<and> py_lower e = py_lower email) (dvals (users s))"

definition get_user :: "string \<Rightarrow> store \<Rightarrow> user_rec option" where
  "get_user user_id s = dget (users s) user_id"

definition get_user_status :: "string \<Rightarrow> store \<Rightarrow> string option" where
  "get_user_status user_id s = map_option u_status (dget (users s) user_id)"

record user_update =
  uu_password_hash :: "string option"
  uu_password_hash_v :: "string option"
  uu_salt :: "string option"
  uu_password_algo :: "string option"
  uu_status :: "string option"
  uu_failed_attempts :: "int option"
  uu_locked_until :: "time option"
  uu_must_change_password :: "bool option"
  uu_last_login_at :: "time option"
  uu_display_name :: "string option"
  uu_email :: "string option"

definition no_user_update :: user_update where
  "no_user_update = \<lparr>uu_password_hash = None, uu_password_hash_v = None, uu_salt = None,
     uu_password_algo = None, uu_status = None, uu_failed_attempts = None,
     uu_locked_until = None, uu_must_change_password = None, uu_last_login_at = None,
     uu_display_name = None, uu_email = None\<rparr>"

text \<open>
  The loop skips a field given as \<open>None\<close>: a stored value cannot be cleared this way.
\<close>

definition apply_user_update :: "user_update \<Rightarrow> user_rec \<Rightarrow> user_rec" where
  "apply_user_update f u =
    u\<lparr>u_password_hash := upd_opt (uu_password_hash f) (u_password_hash u),
      u_password_hash_v := upd_opt (uu_password_hash_v f) (u_password_hash_v u),
      u_salt := upd_opt (uu_salt f) (u_salt u),
      u_password_algo := upd_opt (uu_password_algo f) (u_password_algo u),
      u_status := upd_opt (uu_status f) (u_status u),
      u_failed_attempts := upd_opt (uu_failed_attempts f) (u_failed_attempts u),
      u_locked_until := (case uu_locked_until f of None \<Rightarrow> u_locked_until u | Some x \<Rightarrow> Some x),
      u_must_change_password := upd_opt (uu_must_change_password f) (u_must_change_password u),
      u_last_login_at := (case uu_last_login_at f of None \<Rightarrow> u_last_login_at u | Some x \<Rightarrow> Some x),
      u_display_name := (case uu_display_name f of None \<Rightarrow> u_display_name u | Some x \<Rightarrow> Some x),
      u_email := (case uu_email f of None \<Rightarrow> u_email u | Some x \<Rightarrow> Some x)\<rparr>"

definition update_user :: "string \<Rightarrow> user_update \<Rightarrow> store \<Rightarrow> user_rec option \<times> store" where
  "update_user user_id fs s =
    (case dget (users s) user_id of
       None \<Rightarrow> (None, s)
     | Some u \<Rightarrow>
         let u' = apply_user_update fs u
         in (Some u', s\<lparr>users := dset user_id u' (users s)\<rparr>))"

section \<open>E-mail verification and password reset tokens\<close>

definition set_email_verify_token :: "string \<Rightarrow> string \<Rightarrow> time \<Rightarrow> store \<Rightarrow> bool \<times> store" where
  "set_email_verify_token user_id token_hash expires_at s =
    (case dget (users s) user_id of
       None \<Rightarrow> (False, s)
     | Some u \<Rightarrow> (True, s\<lparr>users := dset user_id
         (u\<lparr>u_email_verify_token_hash := Some token_hash,
            u_email_verify_expires := Some expires_at\<rparr>) (users s)\<rparr>))"

definition expired_at :: "time option \<Rightarrow> time \<Rightarrow> bool" where
  "expired_at expires now \<longleftrightarrow> (case expires of None \<Rightarrow> False | Some e \<Rightarrow> e < now)"

definition verify_email_token :: "time \<Rightarrow> string \<Rightarrow> store \<Rightarrow> string option \<times> store" where
  "verify_email_token now token_hash s =
    (let P = (\<lambda>u. u_email_verify_token_hash u = Some token_hash)
     in case List.find P (dvals (users s)) of
          None \<Rightarrow> (None, s)
        | Some u \<Rightarrow>
            if expired_at (u_email_verify_expires u) now then (None, s)
            else (Some (u_user_id u),
                  s\<lparr>users := dmap_first P
                      (\<lambda>u. u\<lparr>u_email_verified := True, u_email_verify_token_hash := None,
                             u_email_verify_expires := None\<rparr>) (users s)\<rparr>))"

definition set_password_reset_token :: "string \<Rightarrow> string \<Rightarrow> time \<Rightarrow> store \<Rightarrow> bool \<times> store" where
  "set_password_reset_token user_id token_hash expires_at s =
    (case dget (users s) user_id of
       None \<Rightarrow> (False, s)
     | Some u \<Rightarrow> (True, s\<lparr>users := dset user_id
         (u\<lparr>u_password_reset_token_hash := Some token_hash,
            u_password_reset_expires := Some expires_at\<rparr>) (users s)\<rparr>))"

definition consume_password_reset_token :: "time \<Rightarrow> string \<Rightarrow> store \<Rightarrow> string option \<times> store" where
  "consume_password_reset_token now token_hash s =
    (let P = (\<lambda>u. u_password_reset_token_hash u = Some token_hash)
     in case List.find P (dvals (users s)) of
          None \<Rightarrow> (None, s)
        | Some u \<Rightarrow>
            if expired_at (u_password_reset_expires u) now then (None, s)
            else (Some (u_user_id u),
                  s\<lparr>users := dmap_first P
                      (\<lambda>u. u\<lparr>u_password_reset_token_hash := None,
                             u_password_reset_expires := None\<rparr>) (users s)\<rparr>))"

section \<open>Memberships\<close>

definition add_member ::
  "string \<Rightarrow> string \<Rightarrow> string \<Rightarrow> string option \<Rightarrow> time \<Rightarrow> store \<Rightarrow> (conflict, member_rec, store) outcome"
  where
  "add_member tid user_id role added_by now s =
    (if \<not> is_valid_role tid role s then raise (UnknownRole role) s
     else
       let m = \<lparr>m_tenant_id = tid, m_user_id = user_id, m_role = role, m_added_by = added_by,
                m_added_at = now, m_joined_at = now\<rparr>
       in ret m (s\<lparr>members := dset (tid, user_id) m (members s)\<rparr>))"

definition get_member :: "string \<Rightarrow> string \<Rightarrow> store \<Rightarrow> member_rec option" where
  "get_member tid user_id s = dget (members s) (tid, user_id)"

definition get_member_role :: "string \<Rightarrow> string \<Rightarrow> store \<Rightarrow> string option" where
  "get_member_role tid user_id s = map_option m_role (dget (members s) (tid, user_id))"

definition memberships_for_user :: "string \<Rightarrow> store \<Rightarrow> (string \<times> string \<times> string) list" where
  "memberships_for_user user_id s =
    map (\<lambda>((t, u), m). (t, user_id, m_role m)) (filter (\<lambda>((t, u), m). u = user_id) (members s))"

definition update_member_role ::
  "string \<Rightarrow> string \<Rightarrow> string \<Rightarrow> store \<Rightarrow> (conflict, member_rec option, store) outcome" where
  "update_member_role tid user_id role s =
    (if \<not> is_valid_role tid role s then raise (UnknownRole role) s
     else case dget (members s) (tid, user_id) of
       None \<Rightarrow> ret None s
     | Some m \<Rightarrow>
         let m' = m\<lparr>m_role := role\<rparr>
         in ret (Some m') (s\<lparr>members := dset (tid, user_id) m' (members s)\<rparr>))"

definition list_members :: "string \<Rightarrow> store \<Rightarrow> member_rec list" where
  "list_members tid s = map snd (filter (\<lambda>((t, u), m). t = tid) (members s))"

definition remove_member :: "string \<Rightarrow> string \<Rightarrow> store \<Rightarrow> bool \<times> store" where
  "remove_member tid user_id s =
    (dget (members s) (tid, user_id) \<noteq> None,
     s\<lparr>members := dpop (tid, user_id) (members s)\<rparr>)"

text \<open>
  The aggregate of \<open>get_member_summary\<close>: a member whose user record is missing counts as
  active, and a status outside the counters is only logged. The statuses and the total
  share one dict in the source, so the status \<open>total\<close> bumps the total once more, and the
  status \<open>by_role\<close> would add one to the nested dict, a \<open>TypeError\<close>: the result is then
  \<open>None\<close>.
\<close>

record member_summary =
  ms_total :: nat
  ms_active :: nat
  ms_disabled :: nat
  ms_locked :: nat
  ms_by_role :: "(string, nat) dict"

definition bump :: "string \<Rightarrow> (string, nat) dict \<Rightarrow> (string, nat) dict" where
  "bump k d = dset k (upd_opt (dget d k) 0 + 1) d"

definition member_status :: "string \<Rightarrow> store \<Rightarrow> string" where
  "member_status user_id s =
    (case dget (users s) user_id of None \<Rightarrow> ''active'' | Some u \<Rightarrow> u_status u)"

definition summary_step :: "string \<Rightarrow> string \<Rightarrow> member_summary \<Rightarrow> member_summary" where
  "summary_step status role ms =
    (let ms1 = ms\<lparr>ms_total := ms_total ms + 1\<rparr>;
         ms2 = (if status = ''active'' then ms1\<lparr>ms_active := ms_active ms1 + 1\<rparr>
                else if status = ''disabled'' then ms1\<lparr>ms_disabled := ms_disabled ms1 + 1\<rparr>
                else if status = ''locked'' then ms1\<lparr>ms_locked := ms_locked ms1 + 1\<rparr>
                else if status = ''total'' then ms1\<lparr>ms_total := ms_total ms1 + 1\<rparr>
                else ms1)
     in ms2\<lparr>ms_by_role := bump role (ms_by_role ms2)\<rparr>)"

fun summarise ::
  "store \<Rightarrow> ((string \<times> string) \<times> member_rec) list \<Rightarrow> member_summary \<Rightarrow> member_summary option" where
  "summarise s [] ms = Some ms"
| "summarise s (((t, user_id), m) # rows) ms =
     (if member_status user_id s = ''by_role'' then None
      else summarise s rows (summary_step (member_status user_id s) (m_role m) ms))"

definition get_member_summary :: "string \<Rightarrow> store \<Rightarrow> member_summary option" where
  "get_member_summary tid s =
    summarise s (filter (\<lambda>((t, u), m). t = tid) (members s))
      \<lparr>ms_total = 0, ms_active = 0, ms_disabled = 0, ms_locked = 0, ms_by_role = []\<rparr>"

section \<open>SSO tickets\<close>

definition create_sso_ticket :: "string \<Rightarrow> string \<Rightarrow> string \<Rightarrow> time \<Rightarrow> time \<Rightarrow> store \<Rightarrow> store" where
  "create_sso_ticket ticket_hash user_id tid expires_at now s =
    s\<lparr>sso_tickets := dset ticket_hash
        \<lparr>tk_ticket_hash = ticket_hash, tk_user_id = user_id, tk_tenant_id = tid,
         tk_expires_at = expires_at, tk_used_at = None, tk_created_at = now\<rparr> (sso_tickets s)\<rparr>"

definition consume_sso_ticket :: "time \<Rightarrow> string \<Rightarrow> store \<Rightarrow> ticket_rec option \<times> store" where
  "consume_sso_ticket now ticket_hash s =
    (case dget (sso_tickets s) ticket_hash of
       None \<Rightarrow> (None, s)
     | Some rec \<Rightarrow>
         if tk_used_at rec \<noteq> None \<or> tk_expires_at rec \<le> now then (None, s)
         else
           let rec' = rec\<lparr>tk_used_at := Some now\<rparr>
           in (Some rec', s\<lparr>sso_tickets := dset ticket_hash rec' (sso_tickets s)\<rparr>))"

section \<open>MFA factors\<close>

definition upsert_mfa ::
  "string \<Rightarrow> string \<Rightarrow> string \<Rightarrow> bool \<Rightarrow> time \<Rightarrow> store \<Rightarrow> mfa_rec \<times> store" where
  "upsert_mfa user_id method secret_enc enabled now s =
    (let rec = \<lparr>f_user_id = user_id, f_method = method, f_secret_enc = secret_enc,
                f_enrolled_at = (case dget (mfa s) (user_id, method) of
                                   Some old \<Rightarrow> f_enrolled_at old | None \<Rightarrow> now),
                f_enabled = enabled\<rparr>
     in (rec, s\<lparr>mfa := dset (user_id, method) rec (mfa s)\<rparr>))"

definition get_mfa :: "string \<Rightarrow> string \<Rightarrow> store \<Rightarrow> mfa_rec option" where
  "get_mfa user_id method s = dget (mfa s) (user_id, method)"

definition list_mfa :: "string \<Rightarrow> store \<Rightarrow> mfa_rec list" where
  "list_mfa user_id s = filter (\<lambda>r. f_user_id r = user_id) (dvals (mfa s))"

definition list_all_mfa :: "store \<Rightarrow> mfa_rec list" where
  "list_all_mfa s = filter (\<lambda>r. f_secret_enc r \<noteq> []) (dvals (mfa s))"

definition delete_mfa :: "string \<Rightarrow> string \<Rightarrow> store \<Rightarrow> bool \<times> store" where
  "delete_mfa user_id method s =
    (if dget (mfa s) (user_id, method) = None then (False, s)
     else (True, s\<lparr>mfa := dpop (user_id, method) (mfa s)\<rparr>))"

lemmas user_store_defs = create_user_def update_user_def set_email_verify_token_def
  verify_email_token_def set_password_reset_token_def consume_password_reset_token_def
  add_member_def update_member_role_def remove_member_def create_sso_ticket_def
  consume_sso_ticket_def upsert_mfa_def delete_mfa_def

section \<open>Steps of the account tables\<close>

inductive user_step :: "kdf \<Rightarrow> store \<Rightarrow> store \<Rightarrow> bool" for K where
  create_user: "user_step K s (snd (create_user K u nm pw e mc ev dn r n s))"
| update_user: "user_step K s (snd (update_user u f s))"
| set_email_verify_token: "user_step K s (snd (set_email_verify_token u h x s))"
| verify_email_token: "user_step K s (snd (verify_email_token n h s))"
| set_password_reset_token: "user_step K s (snd (set_password_reset_token u h x s))"
| consume_password_reset_token: "user_step K s (snd (consume_password_reset_token n h s))"
| add_member: "user_step K s (snd (add_member t u ro b n s))"
| update_member_role: "user_step K s (snd (update_member_role t u ro s))"
| remove_member: "user_step K s (snd (remove_member t u s))"
| create_sso_ticket: "user_step K s (create_sso_ticket h u t x n s)"
| consume_sso_ticket: "user_step K s (snd (consume_sso_ticket n h s))"
| upsert_mfa: "user_step K s (snd (upsert_mfa u me se en n s))"
| delete_mfa: "user_step K s (snd (delete_mfa u me s))"

lemma user_step_erase:
  assumes "user_step K s s'"
  shows "s'\<lparr>users := [], members := [], sso_tickets := [], mfa := []\<rparr>
    = s\<lparr>users := [], members := [], sso_tickets := [], mfa := []\<rparr>"
  using assms by (cases rule: user_step.cases; simp add: user_store_defs Let_def split: option.splits prod.splits)

lemma user_step_frame:
  assumes "user_step K s s'"
  shows
    "tenants s' = tenants s" "api_keys s' = api_keys s" "key_hash_index s' = key_hash_index s"
    "app_secrets s' = app_secrets s" "app_credentials s' = app_credentials s"
    "quotas s' = quotas s" "audit s' = audit s" "revoked_jtis s' = revoked_jtis s"
    "refresh_tokens s' = refresh_tokens s" "issued_jtis s' = issued_jtis s"
    "seq_audit s' = seq_audit s" "usage s' = usage s" "idps s' = idps s"
    "lease_log s' = lease_log s" "departments s' = departments s"
    "custom_roles s' = custom_roles s" "menu_matrix s' = menu_matrix s"
    "known_menus s' = known_menus s" "audit_tail_hash s' = audit_tail_hash s"
    "plan_templates s' = plan_templates s" "idempotency s' = idempotency s" "events s' = events s"
    "event_seq s' = event_seq s" "invites s' = invites s" "join_requests s' = join_requests s"
  using user_step_erase [OF assms] by (cases s; cases s'; simp)+

end
