(* ===== verification/Store_Secrets.thy ===== *)
theory Store_Secrets
  imports Store_Types "HOL-Library.Multiset"
begin

text \<open>
  Machine credentials of \<open>InMemoryStore\<close>: tenant API keys found by the hash of the raw
  key, versioned application secrets with a grace window, and externally issued
  application credentials.
\<close>

section \<open>API keys\<close>

text \<open>\<open>raw_rnd\<close> and \<open>id_rnd\<close> are the draws of \<open>secrets.token_urlsafe(24)\<close> and \<open>token_hex(6)\<close>.\<close>

definition create_api_key ::
  "string \<Rightarrow> string option \<Rightarrow> string list \<Rightarrow> string \<Rightarrow> string \<Rightarrow> time \<Rightarrow> store
     \<Rightarrow> (string \<times> api_key_rec) \<times> store" where
  "create_api_key tid user_id scopes raw_rnd id_rnd now s =
    (let raw = ''fmu_'' @ raw_rnd;
         key_id = ''key_'' @ id_rnd;
         key_hash = sha256_hash raw;
         rec = \<lparr>k_key_id = key_id, k_tenant_id = tid, k_user_id = user_id, k_key_hash = key_hash,
                k_prefix = take 8 raw @ ''****'', k_scopes = scopes, k_created_at = now,
                k_revoked_at = None\<rparr>
     in ((raw, rec), s\<lparr>api_keys := dset key_id rec (api_keys s),
                       key_hash_index := dset key_hash key_id (key_hash_index s)\<rparr>))"

definition get_api_key_by_hash :: "string \<Rightarrow> store \<Rightarrow> api_key_rec option" where
  "get_api_key_by_hash key_hash s =
    (case dget (key_hash_index s) key_hash of
       None \<Rightarrow> None
     | Some key_id \<Rightarrow>
         if key_id = [] then None
         else case dget (api_keys s) key_id of
           None \<Rightarrow> None
         | Some k \<Rightarrow> if truthy_time (k_revoked_at k) then None else Some k)"

definition list_api_keys :: "string \<Rightarrow> store \<Rightarrow> api_key_rec list" where
  "list_api_keys tid s =
    filter (\<lambda>k. k_tenant_id k = tid \<and> \<not> truthy_time (k_revoked_at k)) (dvals (api_keys s))"

definition revoke_api_key :: "string \<Rightarrow> time \<Rightarrow> store \<Rightarrow> bool \<times> store" where
  "revoke_api_key key_id now s =
    (case dget (api_keys s) key_id of
       None \<Rightarrow> (False, s)
     | Some k \<Rightarrow>
         (True, s\<lparr>api_keys := dset key_id (k\<lparr>k_revoked_at := Some now\<rparr>) (api_keys s),
                  key_hash_index := dpop (k_key_hash k) (key_hash_index s)\<rparr>))"

section \<open>Application secrets\<close>

definition is_current :: "string \<Rightarrow> app_secret_rec \<Rightarrow> bool" where
  "is_current app_id r \<longleftrightarrow> a_app_id r = app_id \<and> a_status r = ''current''"

definition app_versions :: "string \<Rightarrow> store \<Rightarrow> int list" where
  "app_versions app_id s = map a_version (filter (\<lambda>r. a_app_id r = app_id) (dvals (app_secrets s)))"

definition next_version :: "string \<Rightarrow> store \<Rightarrow> int" where
  "next_version app_id s =
    (let versions = app_versions app_id s
     in if versions = [] then 1 else foldr max (tl versions) (hd versions) + 1)"

definition issue_app_secret ::
  "string \<Rightarrow> int \<Rightarrow> string \<Rightarrow> string \<Rightarrow> time \<Rightarrow> store
     \<Rightarrow> (string \<times> app_secret_rec \<times> app_secret_rec option) \<times> store" where
  "issue_app_secret app_id grace_seconds raw_rnd id_rnd now s =
    (let version = next_version app_id s;
         demote = (\<lambda>r. r\<lparr>a_status := ''grace'', a_grace_until := Some (now + of_int grace_seconds)\<rparr>);
         prev_current = map_option demote (List.find (is_current app_id) (dvals (app_secrets s)));
         demoted = dmap_first (is_current app_id) demote (app_secrets s);
         raw = ''fms_'' @ raw_rnd;
         secret_id = ''sec_'' @ id_rnd;
         rec = \<lparr>a_secret_id = secret_id, a_app_id = app_id, a_version = version,
                a_secret_hash = sha256_hash raw, a_prefix = take 8 raw @ ''****'',
                a_status = ''current'', a_grace_until = None, a_created_at = now\<rparr>
     in ((raw, rec, prev_current), s\<lparr>app_secrets := dset secret_id rec demoted\<rparr>))"

definition get_current_app_secret :: "string \<Rightarrow> store \<Rightarrow> app_secret_rec option" where
  "get_current_app_secret app_id s = List.find (is_current app_id) (dvals (app_secrets s))"

definition has_app_secrets :: "string \<Rightarrow> store \<Rightarrow> bool" where
  "has_app_secrets app_id s \<longleftrightarrow> list_ex (\<lambda>r. a_app_id r = app_id) (dvals (app_secrets s))"

text \<open>The listed item: the hash dropped, a grace window in the past shown as expired.\<close>

record app_secret_item =
  as_secret_id :: string
  as_app_id :: string
  as_version :: int
  as_prefix :: string
  as_status :: string
  as_grace_until :: "time option"
  as_created_at :: time

definition strip_secret :: "app_secret_rec \<Rightarrow> app_secret_item" where
  "strip_secret r = \<lparr>as_secret_id = a_secret_id r, as_app_id = a_app_id r, as_version = a_version r,
     as_prefix = a_prefix r, as_status = a_status r, as_grace_until = a_grace_until r,
     as_created_at = a_created_at r\<rparr>"

definition listed_secret :: "time \<Rightarrow> app_secret_rec \<Rightarrow> app_secret_item" where
  "listed_secret now r =
    (let item = strip_secret r
     in if as_status item = ''grace'' \<and>
           (case as_grace_until item of None \<Rightarrow> False | Some g \<Rightarrow> g < now)
        then item\<lparr>as_status := ''expired''\<rparr> else item)"

text \<open>\<open>sort(key, reverse=True)\<close> keeps equal elements in order: a stable descending sort.\<close>

definition sort_desc :: "('a \<Rightarrow> 'b::linorder) \<Rightarrow> 'a list \<Rightarrow> 'a list" where
  "sort_desc f xs = rev (sort_key f (rev xs))"

definition list_app_secrets :: "string \<Rightarrow> time \<Rightarrow> store \<Rightarrow> app_secret_item list" where
  "list_app_secrets app_id now s =
    sort_desc as_version
      (map (listed_secret now) (filter (\<lambda>r. a_app_id r = app_id) (dvals (app_secrets s))))"

text \<open>The key \<open>(app_id, version)\<close>: a stable sort by version, then one by app.\<close>

definition list_all_app_secrets :: "time \<Rightarrow> store \<Rightarrow> app_secret_item list" where
  "list_all_app_secrets now s =
    sort_desc as_app_id (sort_desc as_version (map (listed_secret now) (dvals (app_secrets s))))"

definition revoke_app_secret_version ::
  "string \<Rightarrow> int \<Rightarrow> store \<Rightarrow> app_secret_item option \<times> store" where
  "revoke_app_secret_version app_id version s =
    (let P = (\<lambda>r. a_app_id r = app_id \<and> a_version r = version);
         f = (\<lambda>r. r\<lparr>a_status := ''revoked'', a_grace_until := None\<rparr>)
     in case List.find P (dvals (app_secrets s)) of
          None \<Rightarrow> (None, s)
        | Some r \<Rightarrow> (Some (strip_secret (f r)), s\<lparr>app_secrets := dmap_first P f (app_secrets s)\<rparr>))"

section \<open>Application credentials\<close>

definition put_app_credential ::
  "string \<Rightarrow> string \<Rightarrow> string \<Rightarrow> time \<Rightarrow> store \<Rightarrow> app_credential_rec \<times> store" where
  "put_app_credential app_id name secret_enc now s =
    (let rec = (case dget (app_credentials s) (app_id, name) of
                  None \<Rightarrow> \<lparr>c_app_id = app_id, c_name = name, c_secret_enc = secret_enc,
                           c_created_at = now, c_updated_at = now, c_fetch_count = 0,
                           c_last_fetched_at = None\<rparr>
                | Some old \<Rightarrow> old\<lparr>c_secret_enc := secret_enc, c_updated_at := now\<rparr>)
     in (rec, s\<lparr>app_credentials := dset (app_id, name) rec (app_credentials s)\<rparr>))"

definition get_app_credential ::
  "string \<Rightarrow> string \<Rightarrow> time \<Rightarrow> store \<Rightarrow> app_credential_rec option \<times> store" where
  "get_app_credential app_id name now s =
    (case dget (app_credentials s) (app_id, name) of
       None \<Rightarrow> (None, s)
     | Some r \<Rightarrow>
         let r' = r\<lparr>c_fetch_count := c_fetch_count r + 1, c_last_fetched_at := Some now\<rparr>
         in (Some r', s\<lparr>app_credentials := dset (app_id, name) r' (app_credentials s)\<rparr>))"

lemmas secret_store_defs = create_api_key_def revoke_api_key_def issue_app_secret_def
  revoke_app_secret_version_def put_app_credential_def get_app_credential_def

section \<open>Facts\<close>

lemma foldr_max_ge: "x \<in> set (y # ys) \<Longrightarrow> x \<le> foldr max ys (y :: int)"
  by (induction ys arbitrary: x) (auto simp: le_max_iff_disj)

text \<open>The version issued next is above every version the app has.\<close>

lemma next_version_above: "v \<in> set (app_versions app_id s) \<Longrightarrow> v < next_version app_id s"
proof -
  assume v: "v \<in> set (app_versions app_id s)"
  then obtain w ws where ws: "app_versions app_id s = w # ws"
    by (cases "app_versions app_id s") auto
  with v foldr_max_ge [of v w ws] show ?thesis
    by (simp add: next_version_def)
qed

lemma mset_sort_desc [simp]: "mset (sort_desc f xs) = mset xs"
  by (simp add: sort_desc_def)

lemma set_sort_desc [simp]: "set (sort_desc f xs) = set xs"
  by (simp add: sort_desc_def)

lemma sorted_sort_desc: "sorted_wrt (\<lambda>a b. f b \<le> f a) (sort_desc f xs)"
proof -
  have "sorted (map f (sort_key f (rev xs)))" by simp
  then have "sorted_wrt (\<lambda>a b. f a \<le> f b) (sort_key f (rev xs))"
    by (simp add: sorted_wrt_map)
  then show ?thesis by (simp add: sort_desc_def sorted_wrt_rev)
qed

section \<open>Steps of the credential tables\<close>

text \<open>The id drawn for an API key is one no key has yet.\<close>

inductive secret_step :: "store \<Rightarrow> store \<Rightarrow> bool" where
  create_api_key: "dget (api_keys s) (''key_'' @ i) = None \<Longrightarrow>
     secret_step s (snd (create_api_key t u sc r i n s))"
| revoke_api_key: "secret_step s (snd (revoke_api_key k n s))"
| issue_app_secret: "secret_step s (snd (issue_app_secret a g r i n s))"
| revoke_app_secret_version: "secret_step s (snd (revoke_app_secret_version a v s))"
| put_app_credential: "secret_step s (snd (put_app_credential a m e n s))"
| get_app_credential: "secret_step s (snd (get_app_credential a m n s))"

lemma secret_step_erase:
  assumes "secret_step s s'"
  shows "s'\<lparr>api_keys := [], key_hash_index := [], app_secrets := [], app_credentials := []\<rparr>
    = s\<lparr>api_keys := [], key_hash_index := [], app_secrets := [], app_credentials := []\<rparr>"
  using assms by (cases rule: secret_step.cases; simp add: secret_store_defs Let_def split: option.splits)

lemma secret_step_frame:
  assumes "secret_step s s'"
  shows
    "tenants s' = tenants s" "users s' = users s" "members s' = members s" "quotas s' = quotas s"
    "audit s' = audit s" "revoked_jtis s' = revoked_jtis s" "refresh_tokens s' = refresh_tokens s"
    "issued_jtis s' = issued_jtis s" "seq_audit s' = seq_audit s" "usage s' = usage s"
    "idps s' = idps s" "mfa s' = mfa s" "lease_log s' = lease_log s"
    "departments s' = departments s" "custom_roles s' = custom_roles s"
    "menu_matrix s' = menu_matrix s" "known_menus s' = known_menus s"
    "audit_tail_hash s' = audit_tail_hash s" "plan_templates s' = plan_templates s"
    "idempotency s' = idempotency s" "events s' = events s" "event_seq s' = event_seq s"
    "invites s' = invites s" "sso_tickets s' = sso_tickets s" "join_requests s' = join_requests s"
  using secret_step_erase [OF assms] by (cases s; cases s'; simp)+

end
