(* ===== verification/Store_Join.thy ===== *)
theory Store_Join
  imports Store_Rbac
begin

text \<open>
  The join plane of \<open>InMemoryStore\<close>: invitations and join requests.
\<close>

section \<open>Invitations\<close>

definition create_invite ::
  "string \<Rightarrow> string \<Rightarrow> string \<Rightarrow> string \<Rightarrow> time \<Rightarrow> string option \<Rightarrow> string option \<Rightarrow> time \<Rightarrow> store
     \<Rightarrow> (conflict, invite_rec, store) outcome" where
  "create_invite invite_id tid token_hash role expires_at email created_by now s =
    (if \<not> is_valid_role tid role s then raise (UnknownRoleForTenant role tid) s
     else
       let rec = \<lparr>in_invite_id = invite_id, in_tenant_id = tid, in_token_hash = token_hash,
                  in_role = role, in_email = email, in_created_by = created_by,
                  in_expires_at = expires_at, in_used_at = None, in_used_by = None,
                  in_created_at = now\<rparr>
       in ret rec (s\<lparr>invites := dset invite_id rec (invites s)\<rparr>))"

definition get_invite_by_hash :: "string \<Rightarrow> store \<Rightarrow> invite_rec option" where
  "get_invite_by_hash token_hash s =
    List.find (\<lambda>r. in_token_hash r = token_hash) (dvals (invites s))"

definition list_invites :: "string \<Rightarrow> store \<Rightarrow> invite_rec list" where
  "list_invites tid s = filter (\<lambda>r. in_tenant_id r = tid) (dvals (invites s))"

definition mark_invite_used :: "string \<Rightarrow> string \<Rightarrow> time \<Rightarrow> store \<Rightarrow> bool \<times> store" where
  "mark_invite_used invite_id user_id now s =
    (case dget (invites s) invite_id of
       None \<Rightarrow> (False, s)
     | Some rec \<Rightarrow>
         if in_used_at rec \<noteq> None then (False, s)
         else (True, s\<lparr>invites := dset invite_id
                 (rec\<lparr>in_used_at := Some now, in_used_by := Some user_id\<rparr>) (invites s)\<rparr>))"

section \<open>Join requests\<close>

definition pending_for :: "string \<Rightarrow> string \<Rightarrow> join_request_rec \<Rightarrow> bool" where
  "pending_for tid user_id r \<longleftrightarrow>
     jr_tenant_id r = tid \<and> jr_user_id r = user_id \<and> jr_status r = ''pending''"

definition create_join_request ::
  "string \<Rightarrow> string \<Rightarrow> string \<Rightarrow> time \<Rightarrow> store \<Rightarrow> (conflict, join_request_rec, store) outcome" where
  "create_join_request request_id tid user_id now s =
    (if list_ex (pending_for tid user_id) (dvals (join_requests s))
     then raise JoinRequestAlreadyPending s
     else
       let rec = \<lparr>jr_request_id = request_id, jr_tenant_id = tid, jr_user_id = user_id,
                  jr_status = ''pending'', jr_decided_by = None, jr_decided_at = None,
                  jr_created_at = now\<rparr>
       in ret rec (s\<lparr>join_requests := dset request_id rec (join_requests s)\<rparr>))"

definition get_join_request :: "string \<Rightarrow> store \<Rightarrow> join_request_rec option" where
  "get_join_request request_id s = dget (join_requests s) request_id"

definition list_join_requests :: "string \<Rightarrow> string option \<Rightarrow> store \<Rightarrow> join_request_rec list" where
  "list_join_requests tid status s =
    filter (\<lambda>r. jr_tenant_id r = tid \<and> (status = None \<or> status = Some (jr_status r)))
      (dvals (join_requests s))"

definition decide_join_request ::
  "string \<Rightarrow> string \<Rightarrow> string \<Rightarrow> time \<Rightarrow> store \<Rightarrow> (conflict, join_request_rec option, store) outcome" where
  "decide_join_request request_id status decided_by now s =
    (if status \<notin> {''approved'', ''rejected'', ''cancelled''} then raise (InvalidDecision status) s
     else case dget (join_requests s) request_id of
       None \<Rightarrow> ret None s
     | Some r \<Rightarrow>
         if jr_status r \<noteq> ''pending'' then raise (JoinRequestDecided (jr_status r)) s
         else
           let r' = r\<lparr>jr_status := status, jr_decided_by := Some decided_by,
                      jr_decided_at := Some now\<rparr>
           in ret (Some r') (s\<lparr>join_requests := dset request_id r' (join_requests s)\<rparr>))"

lemmas join_store_defs = create_invite_def mark_invite_used_def create_join_request_def
  decide_join_request_def

section \<open>Facts\<close>

text \<open>A decision is refused, finds nothing, or moves a pending request to the given status.\<close>

lemma decide_join_request_cases:
  obtains (err) e where "decide_join_request q st by_user now s = (Inl e, s)"
  | (missing) "dget (join_requests s) q = None" "decide_join_request q st by_user now s = (Inr None, s)"
  | (decided) r r' where "dget (join_requests s) q = Some r" "jr_status r = ''pending''"
      "st \<in> {''approved'', ''rejected'', ''cancelled''}"
      "r' = r\<lparr>jr_status := st, jr_decided_by := Some by_user, jr_decided_at := Some now\<rparr>"
      "decide_join_request q st by_user now s =
        (Inr (Some r'), s\<lparr>join_requests := dset q r' (join_requests s)\<rparr>)"
proof (cases "st \<in> {''approved'', ''rejected'', ''cancelled''}")
  case False
  then show ?thesis by (intro err) (simp add: decide_join_request_def)
next
  case True
  show ?thesis
  proof (cases "dget (join_requests s) q")
    case None
    with True show ?thesis by (intro missing) (simp_all add: decide_join_request_def)
  next
    case (Some r)
    show ?thesis
    proof (cases "jr_status r = ''pending''")
      case pending: True
      with True Some show ?thesis by (intro decided) (simp_all add: decide_join_request_def Let_def)
    next
      case False
      with True Some show ?thesis by (intro err) (simp add: decide_join_request_def)
    qed
  qed
qed

section \<open>Steps of the join plane\<close>

inductive join_step :: "store \<Rightarrow> store \<Rightarrow> bool" where
  create_invite: "join_step s (snd (create_invite i t h r x e b n s))"
| mark_invite_used: "join_step s (snd (mark_invite_used i u n s))"
| create_join_request: "join_step s (snd (create_join_request q t u n s))"
| decide_join_request: "join_step s (snd (decide_join_request q st b' n s))"

lemma join_step_erase:
  assumes "join_step s s'"
  shows "s'\<lparr>invites := [], join_requests := []\<rparr>
    = s\<lparr>invites := [], join_requests := []\<rparr>"
  using assms by (cases rule: join_step.cases; simp add: join_store_defs Let_def split: option.splits)

lemma join_step_frame:
  assumes "join_step s s'"
  shows
    "tenants s' = tenants s" "users s' = users s" "members s' = members s"
    "api_keys s' = api_keys s" "key_hash_index s' = key_hash_index s"
    "app_secrets s' = app_secrets s" "app_credentials s' = app_credentials s"
    "quotas s' = quotas s" "audit s' = audit s" "revoked_jtis s' = revoked_jtis s"
    "refresh_tokens s' = refresh_tokens s" "issued_jtis s' = issued_jtis s"
    "seq_audit s' = seq_audit s" "usage s' = usage s" "idps s' = idps s" "mfa s' = mfa s"
    "lease_log s' = lease_log s" "departments s' = departments s"
    "custom_roles s' = custom_roles s" "menu_matrix s' = menu_matrix s"
    "known_menus s' = known_menus s" "audit_tail_hash s' = audit_tail_hash s"
    "plan_templates s' = plan_templates s" "idempotency s' = idempotency s" "events s' = events s"
    "event_seq s' = event_seq s" "sso_tickets s' = sso_tickets s"
  using join_step_erase [OF assms] by (cases s; cases s'; simp)+

end
