(* ===== verification/Store_Tokens.thy ===== *)
theory Store_Tokens
  imports Store_Types
begin

text \<open>
  The token ledgers of \<open>InMemoryStore\<close>: revoked access-token ids, refresh tokens with
  their rotation families, and the owners of issued access tokens.
\<close>

section \<open>Revocation ledger\<close>

text \<open>\<open>expires_at or (_now() + 86400)\<close>: a missing or zero expiry becomes one day.\<close>

definition revoke_jti ::
  "string \<Rightarrow> string \<Rightarrow> string option \<Rightarrow> string \<Rightarrow> time option \<Rightarrow> time \<Rightarrow> store \<Rightarrow> store" where
  "revoke_jti jti tid user_id reason expires_at now s =
    s\<lparr>revoked_jtis := dset jti
        \<lparr>r_jti = jti, r_tenant_id = tid, r_user_id = user_id, r_reason = reason,
         r_expires_at = (if truthy_time expires_at then upd_opt expires_at 0 else now + 86400),
         r_revoked_at = now\<rparr> (revoked_jtis s)\<rparr>"

text \<open>The lookup sweeps expired entries first.\<close>

definition sweep_revoked :: "time \<Rightarrow> store \<Rightarrow> store" where
  "sweep_revoked now s =
    s\<lparr>revoked_jtis := filter (\<lambda>(j, r). \<not> r_expires_at r < now) (revoked_jtis s)\<rparr>"

definition is_jti_revoked :: "string \<Rightarrow> time \<Rightarrow> store \<Rightarrow> bool \<times> store" where
  "is_jti_revoked jti now s =
    (let s' = sweep_revoked now s in (dget (revoked_jtis s') jti \<noteq> None, s'))"

section \<open>Refresh tokens\<close>

definition insert_refresh_token ::
  "string \<Rightarrow> string \<Rightarrow> string \<Rightarrow> string \<Rightarrow> time \<Rightarrow> string option \<Rightarrow> string \<Rightarrow> time \<Rightarrow> store
     \<Rightarrow> refresh_rec \<times> store" where
  "insert_refresh_token jti family_id tid user_id expires_at replaced_by status now s =
    (let rec = \<lparr>rt_jti = jti, rt_family_id = family_id, rt_tenant_id = tid, rt_user_id = user_id,
                rt_status = status, rt_issued_at = now, rt_expires_at = expires_at,
                rt_replaced_by = replaced_by\<rparr>
     in (rec, s\<lparr>refresh_tokens := dset jti rec (refresh_tokens s)\<rparr>))"

definition get_refresh_token :: "string \<Rightarrow> store \<Rightarrow> refresh_rec option" where
  "get_refresh_token jti s = dget (refresh_tokens s) jti"

text \<open>Compare-and-set: only an active token rotates.\<close>

definition rotate_refresh_token :: "string \<Rightarrow> string \<Rightarrow> store \<Rightarrow> bool \<times> store" where
  "rotate_refresh_token old_jti new_jti s =
    (case dget (refresh_tokens s) old_jti of
       None \<Rightarrow> (False, s)
     | Some r \<Rightarrow>
         if rt_status r \<noteq> ''active'' then (False, s)
         else (True, s\<lparr>refresh_tokens := dset old_jti
                 (r\<lparr>rt_status := ''rotated'', rt_replaced_by := Some new_jti\<rparr>) (refresh_tokens s)\<rparr>))"

text \<open>The loop that revokes the refresh records satisfying a test and counts them.\<close>

definition revoke_where :: "(refresh_rec \<Rightarrow> bool) \<Rightarrow> store \<Rightarrow> nat \<times> store" where
  "revoke_where P s =
    (length (filter (\<lambda>r. P r \<and> rt_status r \<noteq> ''revoked'') (dvals (refresh_tokens s))),
     s\<lparr>refresh_tokens := dmap (\<lambda>r. if P r \<and> rt_status r \<noteq> ''revoked''
                                    then r\<lparr>rt_status := ''revoked''\<rparr> else r) (refresh_tokens s)\<rparr>)"

definition revoke_refresh_family :: "string \<Rightarrow> store \<Rightarrow> nat \<times> store" where
  "revoke_refresh_family family_id s = revoke_where (\<lambda>r. rt_family_id r = family_id) s"

definition revoke_user_sessions :: "string \<Rightarrow> store \<Rightarrow> nat \<times> store" where
  "revoke_user_sessions user_id s = revoke_where (\<lambda>r. rt_user_id r = user_id) s"

section \<open>Issued access tokens\<close>

definition sweep_issued_jtis :: "time \<Rightarrow> store \<Rightarrow> store" where
  "sweep_issued_jtis now s =
    s\<lparr>issued_jtis := filter (\<lambda>(j, t, u, e). \<not> e < now) (issued_jtis s)\<rparr>"

definition record_issued_jti :: "string \<Rightarrow> string \<Rightarrow> string \<Rightarrow> time \<Rightarrow> store \<Rightarrow> store" where
  "record_issued_jti jti tid user_id now s =
    (let s' = sweep_issued_jtis now s
     in s'\<lparr>issued_jtis := dset jti (tid, user_id, now + ISSUED_JTI_DEFAULT_TTL) (issued_jtis s')\<rparr>)"

text \<open>Ownership is looked up in the revocation ledger, then among the unexpired issued
  tokens, then among the refresh tokens.\<close>

definition refresh_owner :: "string \<Rightarrow> store \<Rightarrow> (string \<times> string option) option" where
  "refresh_owner jti s =
    map_option (\<lambda>r. (rt_tenant_id r, Some (rt_user_id r)))
      (List.find (\<lambda>r. rt_jti r = jti) (dvals (refresh_tokens s)))"

definition issued_owner :: "string \<Rightarrow> time \<Rightarrow> store \<Rightarrow> (string \<times> string option) option" where
  "issued_owner jti now s =
    (case dget (issued_jtis s) jti of
       Some (tid, uid, e) \<Rightarrow> if e \<ge> now then Some (tid, Some uid) else refresh_owner jti s
     | None \<Rightarrow> refresh_owner jti s)"

definition get_jti_owner :: "string \<Rightarrow> time \<Rightarrow> store \<Rightarrow> (string \<times> string option) option" where
  "get_jti_owner jti now s =
    (case dget (revoked_jtis s) jti of
       Some rec \<Rightarrow>
         if r_tenant_id rec \<noteq> [] then Some (r_tenant_id rec, r_user_id rec)
         else issued_owner jti now s
     | None \<Rightarrow> issued_owner jti now s)"

text \<open>The loop of \<open>revoke_user_issued_jtis\<close> over a snapshot of the issued tokens.\<close>

fun revoke_issued_loop ::
  "string \<Rightarrow> string option \<Rightarrow> string \<Rightarrow> time \<Rightarrow> (string \<times> string \<times> string \<times> time) list \<Rightarrow> nat \<Rightarrow> store
     \<Rightarrow> nat \<times> store" where
  "revoke_issued_loop user_id tenant_id reason now [] count s = (count, s)"
| "revoke_issued_loop user_id tenant_id reason now ((jti, tid, uid, e) # rest) count s =
     (if uid \<noteq> user_id \<or> (tenant_id \<noteq> None \<and> tenant_id \<noteq> Some tid) \<or> e \<le> now
         \<or> dget (revoked_jtis s) jti \<noteq> None
      then revoke_issued_loop user_id tenant_id reason now rest count s
      else revoke_issued_loop user_id tenant_id reason now rest (count + 1)
             (revoke_jti jti tid (Some uid) reason (Some e) now s))"

definition revoke_user_issued_jtis ::
  "string \<Rightarrow> string option \<Rightarrow> string \<Rightarrow> time \<Rightarrow> store \<Rightarrow> nat \<times> store" where
  "revoke_user_issued_jtis user_id tenant_id reason now s =
    revoke_issued_loop user_id tenant_id reason now (issued_jtis s) 0 s"

lemmas token_store_defs = revoke_jti_def sweep_revoked_def is_jti_revoked_def
  insert_refresh_token_def rotate_refresh_token_def revoke_where_def
  revoke_refresh_family_def revoke_user_sessions_def sweep_issued_jtis_def
  record_issued_jti_def revoke_user_issued_jtis_def

section \<open>Facts\<close>

lemma dget_filter_val:
  "dict_wf d \<Longrightarrow> dget (filter (\<lambda>(k, v). P v) d) k =
    (case dget d k of None \<Rightarrow> None | Some v \<Rightarrow> if P v then Some v else None)"
  by (induction d) (auto split: option.splits simp: map_of_eq_None_iff dest: map_of_SomeD)

text \<open>An id counts as revoked until its ledger entry expires.\<close>

lemma is_jti_revoked_iff:
  assumes "dict_wf (revoked_jtis s)"
  shows "fst (is_jti_revoked jti now s) \<longleftrightarrow>
    (\<exists>r. dget (revoked_jtis s) jti = Some r \<and> now \<le> r_expires_at r)"
  using dget_filter_val [OF assms, of "\<lambda>r. \<not> r_expires_at r < now" jti]
  by (auto simp: is_jti_revoked_def sweep_revoked_def Let_def split: option.splits if_splits)

lemma revoke_where_status:
  "dget (refresh_tokens (snd (revoke_where P s))) j =
    map_option (\<lambda>r. if P r then r\<lparr>rt_status := ''revoked''\<rparr> else r) (dget (refresh_tokens s) j)"
  by (auto simp: revoke_where_def dget_dmap option.map_comp comp_def intro!: map_option_cong)

text \<open>Rotation succeeds once: the second attempt on the same token is refused.\<close>

lemma rotate_twice:
  "fst (rotate_refresh_token j n s) \<Longrightarrow> \<not> fst (rotate_refresh_token j n' (snd (rotate_refresh_token j n s)))"
  by (auto simp: rotate_refresh_token_def dget_dset split: option.splits if_splits)

lemma revoke_issued_loop_frame:
  "revoke_issued_loop u t reason now xs c s = (c', s') \<Longrightarrow>
     s' = s\<lparr>revoked_jtis := revoked_jtis s'\<rparr>"
proof (induction u t reason now xs c s arbitrary: c' s' rule: revoke_issued_loop.induct)
  case (1 u t reason now c s)
  then show ?case by simp
next
  case (2 u t reason now jti tid uid e rest c s)
  show ?case
  proof (cases "uid \<noteq> u \<or> (t \<noteq> None \<and> t \<noteq> Some tid) \<or> e \<le> now \<or> dget (revoked_jtis s) jti \<noteq> None")
    case True
    from "2.IH"(1) [OF True] "2.prems" show ?thesis
      by (simp only: revoke_issued_loop.simps if_P [OF True])
  next
    case False
    let ?s1 = "revoke_jti jti tid (Some uid) reason (Some e) now s"
    have "s' = ?s1\<lparr>revoked_jtis := revoked_jtis s'\<rparr>"
      using "2.IH"(2) [OF False] "2.prems"
      by (simp only: revoke_issued_loop.simps if_not_P [OF False])
    moreover have "?s1\<lparr>revoked_jtis := revoked_jtis s'\<rparr> = s\<lparr>revoked_jtis := revoked_jtis s'\<rparr>"
      by (simp add: revoke_jti_def)
    ultimately show ?thesis by simp
  qed
qed

text \<open>Entries already in the ledger are never touched by the loop.\<close>

lemma dget_revoke_jti:
  "dget (revoked_jtis (revoke_jti jti tid uid reason e now s)) j =
    (if j = jti then Some \<lparr>r_jti = jti, r_tenant_id = tid, r_user_id = uid, r_reason = reason,
         r_expires_at = (if truthy_time e then upd_opt e 0 else now + 86400), r_revoked_at = now\<rparr>
     else dget (revoked_jtis s) j)"
  by (simp add: revoke_jti_def dget_dset)

lemma revoke_issued_loop_keeps:
  "dget (revoked_jtis s) j = Some r \<Longrightarrow>
     dget (revoked_jtis (snd (revoke_issued_loop u t reason now xs c s))) j = Some r"
proof (induction u t reason now xs c s rule: revoke_issued_loop.induct)
  case (1 u t reason now c s)
  then show ?case by simp
next
  case (2 u t reason now jti tid uid e rest c s)
  show ?case
  proof (cases "uid \<noteq> u \<or> (t \<noteq> None \<and> t \<noteq> Some tid) \<or> e \<le> now \<or> dget (revoked_jtis s) jti \<noteq> None")
    case True
    from "2.IH"(1) [OF True "2.prems"] show ?thesis
      by (simp only: revoke_issued_loop.simps if_P [OF True])
  next
    case False
    with "2.prems" have "j \<noteq> jti" by auto
    then have "dget (revoked_jtis (revoke_jti jti tid (Some uid) reason (Some e) now s)) j = Some r"
      using "2.prems" by (simp add: dget_revoke_jti)
    from "2.IH"(2) [OF False this] show ?thesis
      by (simp only: revoke_issued_loop.simps if_not_P [OF False])
  qed
qed

text \<open>Every unexpired issued token of the user ends up in the ledger, either with the
  expiry of the token or by the entry that was there.\<close>

lemma revoke_issued_loop_hits:
  assumes "(j, tid, u, e) \<in> set xs" "t = None \<or> t = Some tid" "now < e"
  shows "dget (revoked_jtis (snd (revoke_issued_loop u t reason now xs c s))) j \<noteq> None"
  using assms
proof (induction u t reason now xs c s rule: revoke_issued_loop.induct)
  case (1 u t reason now c s)
  then show ?case by simp
next
  case (2 u t reason now jti tid' uid e' rest c s)
  let ?skip = "uid \<noteq> u \<or> (t \<noteq> None \<and> t \<noteq> Some tid') \<or> e' \<le> now \<or> dget (revoked_jtis s) jti \<noteq> None"
  let ?s1 = "revoke_jti jti tid' (Some uid) reason (Some e') now s"
  let ?l = "revoke_issued_loop u t reason now ((jti, tid', uid, e') # rest) c s"
  have skip: "?l = revoke_issued_loop u t reason now rest c s" if "?skip"
    using that by (simp only: revoke_issued_loop.simps if_P)
  have hit: "?l = revoke_issued_loop u t reason now rest (c + 1) ?s1" if "\<not> ?skip"
    using that by (simp only: revoke_issued_loop.simps if_False)
  consider (in_rest) "(j, tid, u, e) \<in> set rest" | (here) "j = jti" "tid = tid'" "u = uid" "e = e'"
    using "2.prems"(1) by auto
  then show ?case
  proof cases
    case in_rest
    show ?thesis
    proof (cases ?skip)
      case True
      then show ?thesis using skip "2.IH"(1) [OF True in_rest "2.prems"(2,3)] by simp
    next
      case False
      then show ?thesis using hit "2.IH"(2) [OF False in_rest "2.prems"(2,3)] by simp
    qed
  next
    case here
    show ?thesis
    proof (cases "dget (revoked_jtis s) jti")
      case None
      then have ns: "\<not> ?skip" using "2.prems" here by auto
      obtain r where "dget (revoked_jtis ?s1) jti = Some r" by (simp add: dget_revoke_jti)
      from revoke_issued_loop_keeps [OF this] show ?thesis using hit [OF ns] here by simp
    next
      case (Some r)
      from revoke_issued_loop_keeps [OF this, of u t reason now "(jti, tid', uid, e') # rest" c]
      show ?thesis unfolding here(1) by blast
    qed
  qed
qed

section \<open>Steps of the token ledgers\<close>

text \<open>A refresh token enters with one of the three statuses.\<close>

inductive token_step :: "store \<Rightarrow> store \<Rightarrow> bool" where
  revoke_jti: "token_step s (revoke_jti j t u r e n s)"
| is_jti_revoked: "token_step s (snd (is_jti_revoked j n s))"
| insert_refresh_token: "st \<in> {''active'', ''rotated'', ''revoked''} \<Longrightarrow>
     token_step s (snd (insert_refresh_token j f t v x rb st n s))"
| rotate_refresh_token: "token_step s (snd (rotate_refresh_token j j' s))"
| revoke_refresh_family: "token_step s (snd (revoke_refresh_family f s))"
| revoke_user_sessions: "token_step s (snd (revoke_user_sessions v s))"
| record_issued_jti: "token_step s (record_issued_jti j t v n s)"
| revoke_user_issued_jtis: "token_step s (snd (revoke_user_issued_jtis v u r n s))"

lemma revoke_user_issued_frame:
  "snd (revoke_user_issued_jtis v u r n s) =
    s\<lparr>revoked_jtis := revoked_jtis (snd (revoke_user_issued_jtis v u r n s))\<rparr>"
proof -
  obtain c' s' where "revoke_issued_loop v u r n (issued_jtis s) 0 s = (c', s')"
    by (cases "revoke_issued_loop v u r n (issued_jtis s) 0 s")
  with revoke_issued_loop_frame [OF this] show ?thesis
    by (simp add: revoke_user_issued_jtis_def)
qed

lemma token_step_erase:
  assumes "token_step s s'"
  shows "s'\<lparr>revoked_jtis := [], refresh_tokens := [], issued_jtis := []\<rparr>
    = s\<lparr>revoked_jtis := [], refresh_tokens := [], issued_jtis := []\<rparr>"
  using assms
proof (cases rule: token_step.cases)
  case (revoke_user_issued_jtis v u r n)
  show ?thesis
    unfolding revoke_user_issued_jtis by (subst revoke_user_issued_frame) simp
qed (simp_all add: token_store_defs Let_def split: option.splits)

lemma token_step_frame:
  assumes "token_step s s'"
  shows
    "tenants s' = tenants s" "users s' = users s" "members s' = members s"
    "api_keys s' = api_keys s" "key_hash_index s' = key_hash_index s"
    "app_secrets s' = app_secrets s" "app_credentials s' = app_credentials s"
    "quotas s' = quotas s" "audit s' = audit s" "seq_audit s' = seq_audit s" "usage s' = usage s"
    "idps s' = idps s" "mfa s' = mfa s" "lease_log s' = lease_log s"
    "departments s' = departments s" "custom_roles s' = custom_roles s"
    "menu_matrix s' = menu_matrix s" "known_menus s' = known_menus s"
    "audit_tail_hash s' = audit_tail_hash s" "plan_templates s' = plan_templates s"
    "idempotency s' = idempotency s" "events s' = events s" "event_seq s' = event_seq s"
    "invites s' = invites s" "sso_tickets s' = sso_tickets s" "join_requests s' = join_requests s"
  using token_step_erase [OF assms] by (cases s; cases s'; simp)+

end
