(* ===== verification/Store_Logs.thy ===== *)
theory Store_Logs
  imports Store_Types
begin

text \<open>
  The append-only parts of \<open>InMemoryStore\<close>: the hash-chained audit log, the lifecycle
  event outbox, usage records and the lease log, each capped by evicting its oldest
  entries; and the counters of \<open>stats\<close>.
\<close>

section \<open>Capped appends\<close>

definition push_audit :: "audit_rec \<Rightarrow> store \<Rightarrow> store" where
  "push_audit r s = s\<lparr>audit := capped_append AUDIT_CAP (audit s) r\<rparr>"

definition push_event :: "event_rec \<Rightarrow> store \<Rightarrow> store" where
  "push_event r s = s\<lparr>events := capped_append AUDIT_CAP (events s) r\<rparr>"

definition push_usage :: "usage_rec \<Rightarrow> store \<Rightarrow> store" where
  "push_usage r s = s\<lparr>usage := capped_append USAGE_CAP (usage s) r\<rparr>"

definition push_lease :: "lease_rec \<Rightarrow> store \<Rightarrow> store" where
  "push_lease r s = s\<lparr>lease_log := capped_append LEASE_LOG_CAP (lease_log s) r\<rparr>"

interpretation audit_log: capped_log audit push_audit AUDIT_CAP
  by unfold_locales (simp add: push_audit_def)

interpretation event_log: capped_log events push_event AUDIT_CAP
  by unfold_locales (simp add: push_event_def)

interpretation usage_log: capped_log usage push_usage USAGE_CAP
  by unfold_locales (simp add: push_usage_def)

interpretation leases: capped_log lease_log push_lease LEASE_LOG_CAP
  by unfold_locales (simp add: push_lease_def)

section \<open>Audit\<close>

text \<open>\<open>round(x, 6)\<close>: to the nearest multiple of a millionth, ties to even.\<close>

definition round_half_even :: "real \<Rightarrow> int" where
  "round_half_even x =
    (let f = \<lfloor>x\<rfloor>; d = x - of_int f
     in if d < 1 / 2 then f else if d > 1 / 2 then f + 1 else if even f then f else f + 1)"

definition round6 :: "real \<Rightarrow> real" where
  "round6 x = of_int (round_half_even (x * 10 ^ 6)) / 10 ^ 6"

definition fields_json :: "audit_fields \<Rightarrow> json" where
  "fields_json f = JObj
    [(''tenant_id'', JStr (af_tenant_id f)), (''user_id'', jopt (af_user_id f)),
     (''jti'', jopt (af_jti f)), (''role'', jopt (af_role f)),
     (''action'', JStr (af_action f)), (''resource'', jopt (af_resource f)),
     (''detail'', af_detail f), (''ts'', JFloat (af_ts f))]"

definition chain_payload :: "(real \<Rightarrow> string) \<Rightarrow> string \<Rightarrow> audit_fields \<Rightarrow> string" where
  "chain_payload frepr prev_hash f = prev_hash @ dumps frepr (fields_json f)"

definition chain_hash :: "(real \<Rightarrow> string) \<Rightarrow> string \<Rightarrow> audit_fields \<Rightarrow> string" where
  "chain_hash frepr prev_hash f = sha256_hash (chain_payload frepr prev_hash f)"

definition append_audit ::
  "(real \<Rightarrow> string) \<Rightarrow> string \<Rightarrow> string option \<Rightarrow> string option \<Rightarrow> string option \<Rightarrow> string
     \<Rightarrow> string option \<Rightarrow> json \<Rightarrow> time \<Rightarrow> store \<Rightarrow> audit_rec \<times> store" where
  "append_audit frepr tid user_id jti role action resource detail now s =
    (let seq = seq_audit s + 1;
         ts = round6 now;
         prev_hash = upd_opt (dget (audit_tail_hash s) tid) ''genesis'';
         f = \<lparr>af_tenant_id = tid, af_user_id = user_id, af_jti = jti, af_role = role,
              af_action = action, af_resource = resource, af_detail = detail, af_ts = ts\<rparr>;
         chain = chain_hash frepr prev_hash f;
         rec = \<lparr>au_id = seq, au_seq = seq, au_fields = f, au_chain_hash = chain,
                au_prev_hash = prev_hash\<rparr>
     in (rec, (push_audit rec s)\<lparr>seq_audit := seq,
                 audit_tail_hash := dset tid chain (audit_tail_hash s)\<rparr>))"

abbreviation au_tenant :: "audit_rec \<Rightarrow> string" where
  "au_tenant a \<equiv> af_tenant_id (au_fields a)"

definition list_audit ::
  "string \<Rightarrow> int \<Rightarrow> time option \<Rightarrow> time option \<Rightarrow> int option \<Rightarrow> store \<Rightarrow> audit_rec list" where
  "list_audit tid limit since until cursor s =
    (let rows = filter (\<lambda>a. au_tenant a = tid
           \<and> (case since of None \<Rightarrow> True | Some x \<Rightarrow> \<not> af_ts (au_fields a) < x)
           \<and> (case until of None \<Rightarrow> True | Some x \<Rightarrow> \<not> af_ts (au_fields a) > x)
           \<and> (case cursor of None \<Rightarrow> True | Some c \<Rightarrow> \<not> au_id a \<ge> c)) (audit s)
     in slice_upto limit (rev (sort_key au_id (rev rows))))"

fun chain_check :: "(real \<Rightarrow> string) \<Rightarrow> string \<Rightarrow> audit_rec list \<Rightarrow> int option" where
  "chain_check frepr prev [] = None"
| "chain_check frepr prev (a # rows) =
     (if chain_hash frepr prev (au_fields a) \<noteq> au_chain_hash a then Some (au_id a)
      else chain_check frepr (au_chain_hash a) rows)"

text \<open>The verdict: \<open>None\<close> for a valid chain, else the id where it breaks.\<close>

definition verify_audit_chain :: "(real \<Rightarrow> string) \<Rightarrow> string \<Rightarrow> store \<Rightarrow> int option" where
  "verify_audit_chain frepr tid s =
    chain_check frepr ''genesis'' (sort_key au_id (filter (\<lambda>a. au_tenant a = tid) (audit s)))"

section \<open>Events\<close>

definition append_event ::
  "string \<Rightarrow> string \<Rightarrow> json \<Rightarrow> string \<Rightarrow> time \<Rightarrow> store \<Rightarrow> event_rec \<times> store" where
  "append_event event_type tid payload rnd now s =
    (let seq = event_seq s + 1;
         rec = \<lparr>e_event_id = ''evt_'' @ rnd, e_seq = seq, e_event_type = event_type,
                e_tenant_id = tid, e_payload = payload, e_status = ''pending'', e_attempts = 0,
                e_created_at = now, e_updated_at = now\<rparr>
     in (rec, (push_event rec s)\<lparr>event_seq := seq\<rparr>))"

definition list_events :: "int \<Rightarrow> int \<Rightarrow> store \<Rightarrow> event_rec list" where
  "list_events cursor limit s = slice_upto limit (filter (\<lambda>e. e_seq e > cursor) (events s))"

definition pending_events :: "int \<Rightarrow> store \<Rightarrow> event_rec list" where
  "pending_events limit s = slice_upto limit (filter (\<lambda>e. e_status e = ''pending'') (events s))"

definition mark_event :: "string \<Rightarrow> string \<Rightarrow> int option \<Rightarrow> time \<Rightarrow> store \<Rightarrow> bool \<times> store" where
  "mark_event event_id status attempts now s =
    (list_ex (\<lambda>e. e_event_id e = event_id) (events s),
     s\<lparr>events := map_first (\<lambda>e. e_event_id e = event_id)
         (\<lambda>e. e\<lparr>e_status := status, e_attempts := upd_opt attempts (e_attempts e),
                e_updated_at := now\<rparr>) (events s)\<rparr>)"

section \<open>Usage\<close>

definition record_usage ::
  "string \<Rightarrow> string option \<Rightarrow> string \<Rightarrow> int \<Rightarrow> string \<Rightarrow> string option \<Rightarrow> time \<Rightarrow> store
     \<Rightarrow> usage_rec \<times> store" where
  "record_usage tid user_id metric value source model now s =
    (let rec = \<lparr>us_tenant_id = tid, us_user_id = user_id, us_metric = metric, us_value = value,
                us_source = source, us_model = model, us_ts = now\<rparr>
     in (rec, push_usage rec s))"

text \<open>\<open>agg[k] = agg.get(k, 0) + v\<close>.\<close>

definition tally :: "'k \<Rightarrow> int \<Rightarrow> ('k, int) dict \<Rightarrow> ('k, int) dict" where
  "tally k v agg = dset k (upd_opt (dget agg k) 0 + v) agg"

definition in_window :: "time option \<Rightarrow> time option \<Rightarrow> time \<Rightarrow> bool" where
  "in_window since until ts \<longleftrightarrow>
     (case since of None \<Rightarrow> True | Some x \<Rightarrow> \<not> ts < x) \<and>
     (case until of None \<Rightarrow> True | Some x \<Rightarrow> \<not> ts > x)"

definition aggregate_usage ::
  "string \<Rightarrow> time option \<Rightarrow> time option \<Rightarrow> string option \<Rightarrow> store \<Rightarrow> (string \<times> int) list" where
  "aggregate_usage tid since until metric s =
    sort_key fst (fold (\<lambda>u agg.
        if us_tenant_id u \<noteq> tid then agg
        else if \<not> in_window since until (us_ts u) then agg
        else if metric \<noteq> None \<and> metric \<noteq> Some (us_metric u) then agg
        else tally (us_metric u) (us_value u) agg) (usage s) [])"

record usage_totals =
  ut_events :: nat
  ut_totals :: "(string, int) dict"
  ut_by_source :: "(string, int) dict"
  ut_by_model :: "(string, int) dict"

definition usage_step :: "usage_rec \<Rightarrow> usage_totals \<Rightarrow> usage_totals" where
  "usage_step u acc =
    \<lparr>ut_events = ut_events acc + 1,
     ut_totals = tally (us_metric u) (us_value u) (ut_totals acc),
     ut_by_source = tally (if us_source u = [] then ''unknown'' else us_source u) (us_value u)
                      (ut_by_source acc),
     ut_by_model = tally (if truthy_str (us_model u) then upd_opt (us_model u) []
                          else ''unspecified'') (us_value u) (ut_by_model acc)\<rparr>"

definition usage_summary :: "string \<Rightarrow> time option \<Rightarrow> time option \<Rightarrow> store \<Rightarrow> usage_totals" where
  "usage_summary tid since until s =
    fold (\<lambda>u acc.
        if us_tenant_id u \<noteq> tid then acc
        else if \<not> in_window since until (us_ts u) then acc
        else usage_step u acc) (usage s)
      \<lparr>ut_events = 0, ut_totals = [], ut_by_source = [], ut_by_model = []\<rparr>"

section \<open>Lease log\<close>

definition log_lease ::
  "string \<Rightarrow> string \<Rightarrow> string \<Rightarrow> string option \<Rightarrow> time \<Rightarrow> store \<Rightarrow> store" where
  "log_lease tid lease_id action reason now s =
    push_lease \<lparr>l_tenant_id = tid, l_lease_id = lease_id, l_action = action, l_reason = reason,
                l_created_at = now\<rparr> s"

definition list_lease_log :: "string \<Rightarrow> int \<Rightarrow> store \<Rightarrow> lease_rec list" where
  "list_lease_log tid limit s =
    rev (slice_from (- limit) (filter (\<lambda>r. l_tenant_id r = tid) (lease_log s)))"

section \<open>Counters\<close>

record store_stats =
  st_tenants :: nat
  st_users :: nat
  st_members :: nat
  st_api_keys :: nat
  st_audit_records :: nat
  st_revoked_jtis :: nat
  st_refresh_tokens :: nat
  st_idps :: nat
  st_mfa :: nat
  st_legacy_scrypt_users :: nat

definition stats :: "store \<Rightarrow> store_stats" where
  "stats s =
    \<lparr>st_tenants = length (filter (\<lambda>t. t_status t \<noteq> ''deleted'') (dvals (tenants s))),
     st_users = length (users s),
     st_members = length (members s),
     st_api_keys = length (filter (\<lambda>k. \<not> truthy_time (k_revoked_at k)) (dvals (api_keys s))),
     st_audit_records = length (audit s),
     st_revoked_jtis = length (revoked_jtis s),
     st_refresh_tokens = length (filter (\<lambda>r. rt_status r = ''active'') (dvals (refresh_tokens s))),
     st_idps = length (idps s),
     st_mfa = length (mfa s),
     st_legacy_scrypt_users = length (filter (\<lambda>u. u_password_algo u = ''scrypt'') (dvals (users s)))\<rparr>"

lemmas log_store_defs = push_audit_def push_event_def push_usage_def push_lease_def
  append_audit_def append_event_def mark_event_def record_usage_def log_lease_def

section \<open>Steps of the logs\<close>

inductive log_step :: "(real \<Rightarrow> string) \<Rightarrow> store \<Rightarrow> store \<Rightarrow> bool" for fr where
  append_audit: "log_step fr s (snd (append_audit fr t u j r a rs d n s))"
| append_event: "log_step fr s (snd (append_event ty t d rd n s))"
| mark_event: "log_step fr s (snd (mark_event e st tries n s))"
| record_usage: "log_step fr s (snd (record_usage t u m v so mo n s))"
| log_lease: "log_step fr s (log_lease t l a rs n s)"

lemma log_step_erase:
  assumes "log_step fr s s'"
  shows "s'\<lparr>audit := [], seq_audit := 0, audit_tail_hash := [], events := [], event_seq := 0, usage := [], lease_log := []\<rparr>
    = s\<lparr>audit := [], seq_audit := 0, audit_tail_hash := [], events := [], event_seq := 0, usage := [], lease_log := []\<rparr>"
  using assms by (cases rule: log_step.cases; simp add: log_store_defs Let_def)

lemma log_step_frame:
  assumes "log_step fr s s'"
  shows
    "tenants s' = tenants s" "users s' = users s" "members s' = members s"
    "api_keys s' = api_keys s" "key_hash_index s' = key_hash_index s"
    "app_secrets s' = app_secrets s" "app_credentials s' = app_credentials s"
    "quotas s' = quotas s" "revoked_jtis s' = revoked_jtis s"
    "refresh_tokens s' = refresh_tokens s" "issued_jtis s' = issued_jtis s" "idps s' = idps s"
    "mfa s' = mfa s" "departments s' = departments s" "custom_roles s' = custom_roles s"
    "menu_matrix s' = menu_matrix s" "known_menus s' = known_menus s"
    "plan_templates s' = plan_templates s" "idempotency s' = idempotency s"
    "invites s' = invites s" "sso_tickets s' = sso_tickets s" "join_requests s' = join_requests s"
  using log_step_erase [OF assms] by (cases s; cases s'; simp)+

end
