(* ===== verification/Store_Invariant.thy ===== *)
theory Store_Invariant
  imports Store_Tenants Store_Users Store_Secrets Store_Join Store_Tokens Store_Logs
begin

text \<open>
  The in-memory store as a state machine: a step is one call of an operation of
  \<open>InMemoryStore\<close> that changes state, and \<open>reachable\<close> collects the stores that runs from
  the empty store arrive at. The integrity invariant of the store is proved component by
  component and holds in every reachable store.
\<close>

section \<open>Steps\<close>

inductive store_step :: "kdf \<Rightarrow> (real \<Rightarrow> string) \<Rightarrow> store \<Rightarrow> store \<Rightarrow> bool" for K fr where
  tenant: "tenant_step s s' \<Longrightarrow> store_step K fr s s'"
| delete_tenant: "store_step K fr s (snd (delete_tenant t n s))"
| user: "user_step K s s' \<Longrightarrow> store_step K fr s s'"
| rbac: "rbac_step s s' \<Longrightarrow> store_step K fr s s'"
| secret: "secret_step s s' \<Longrightarrow> store_step K fr s s'"
| join: "join_step s s' \<Longrightarrow> store_step K fr s s'"
| token: "token_step s s' \<Longrightarrow> store_step K fr s s'"
| log: "log_step fr s s' \<Longrightarrow> store_step K fr s s'"

inductive reachable :: "kdf \<Rightarrow> (real \<Rightarrow> string) \<Rightarrow> store \<Rightarrow> bool" for K fr where
  init: "reachable K fr empty_store"
| step: "reachable K fr s \<Longrightarrow> store_step K fr s s' \<Longrightarrow> reachable K fr s'"

section \<open>Dictionaries stay dictionaries\<close>

definition dicts_wf :: "store \<Rightarrow> bool" where
  "dicts_wf s \<longleftrightarrow>
     dict_wf (tenants s) \<and> dict_wf (quotas s) \<and> dict_wf (users s) \<and> dict_wf (members s) \<and>
     dict_wf (api_keys s) \<and> dict_wf (key_hash_index s) \<and> dict_wf (app_secrets s) \<and>
     dict_wf (revoked_jtis s) \<and> dict_wf (refresh_tokens s) \<and> dict_wf (issued_jtis s) \<and>
     dict_wf (custom_roles s) \<and> dict_wf (menu_matrix s) \<and> dict_wf (known_menus s) \<and>
     dict_wf (sso_tickets s) \<and> dict_wf (invites s) \<and> dict_wf (join_requests s)"

lemma dict_wf_filter [simp]: "dict_wf d \<Longrightarrow> dict_wf (filter P d)"
  by (induction d) auto

lemma dict_wf_revoke_issued_loop:
  "dict_wf (revoked_jtis s) \<Longrightarrow>
     dict_wf (revoked_jtis (snd (revoke_issued_loop u t r n xs c s)))"
  by (induction u t r n xs c s rule: revoke_issued_loop.induct)
    (auto simp: revoke_jti_def distinct_update)

lemma dicts_wf_step:
  assumes "store_step K fr s s'" "dicts_wf s"
  shows "dicts_wf s'"
  using assms(1)
proof (cases rule: store_step.cases)
  case tenant
  from tenant have "dict_wf (tenants s') \<and> dict_wf (quotas s')"
    using assms(2) by (cases rule: tenant_step.cases)
      (auto simp: dicts_wf_def tenant_store_defs Let_def distinct_update split: option.splits)
  with assms(2) show ?thesis by (simp add: dicts_wf_def tenant_step_frame [OF tenant])
next
  case (delete_tenant t n)
  with assms(2) show ?thesis
    by (auto simp: dicts_wf_def delete_tenant_def distinct_update distinct_delete
        split: option.splits)
next
  case user
  from user have "dict_wf (users s') \<and> dict_wf (members s') \<and> dict_wf (sso_tickets s')"
    using assms(2) by (cases rule: user_step.cases)
      (auto simp: dicts_wf_def user_store_defs Let_def distinct_update distinct_delete
        split: option.splits prod.splits)
  with assms(2) show ?thesis by (simp add: dicts_wf_def user_step_frame [OF user])
next
  case rbac
  from rbac have "dict_wf (custom_roles s') \<and> dict_wf (menu_matrix s') \<and> dict_wf (known_menus s')"
    using assms(2) by (cases rule: rbac_step.cases)
      (auto simp: dicts_wf_def rbac_store_defs Let_def distinct_update distinct_delete
        split: option.splits sum.splits)
  with assms(2) show ?thesis by (simp add: dicts_wf_def rbac_step_frame [OF rbac])
next
  case secret
  from secret have "dict_wf (api_keys s') \<and> dict_wf (key_hash_index s') \<and> dict_wf (app_secrets s')"
    using assms(2) by (cases rule: secret_step.cases)
      (auto simp: dicts_wf_def secret_store_defs Let_def distinct_update distinct_delete
        split: option.splits)
  with assms(2) show ?thesis by (simp add: dicts_wf_def secret_step_frame [OF secret])
next
  case join
  from join have "dict_wf (invites s') \<and> dict_wf (join_requests s')"
    using assms(2) by (cases rule: join_step.cases)
      (auto simp: dicts_wf_def join_store_defs Let_def distinct_update split: option.splits)
  with assms(2) show ?thesis by (simp add: dicts_wf_def join_step_frame [OF join])
next
  case token
  from token have "dict_wf (revoked_jtis s') \<and> dict_wf (refresh_tokens s') \<and> dict_wf (issued_jtis s')"
  proof (cases rule: token_step.cases)
    case (revoke_user_issued_jtis v u r n)
    have "dict_wf (revoked_jtis s')"
      using assms(2) dict_wf_revoke_issued_loop
      by (simp add: revoke_user_issued_jtis revoke_user_issued_jtis_def dicts_wf_def)
    moreover have "refresh_tokens s' = refresh_tokens s" "issued_jtis s' = issued_jtis s"
      unfolding revoke_user_issued_jtis by (subst revoke_user_issued_frame, simp)+
    ultimately show ?thesis using assms(2) by (simp add: dicts_wf_def)
  qed (use assms(2) in \<open>auto simp: dicts_wf_def token_store_defs Let_def distinct_update
        split: option.splits\<close>)
  with assms(2) show ?thesis by (simp add: dicts_wf_def token_step_frame [OF token])
next
  case log
  with assms(2) show ?thesis by (simp add: dicts_wf_def log_step_frame [OF log])
qed

section \<open>Roles and menus\<close>

text \<open>
  Every membership names a role that resolves in its tenant; custom roles and menus respect
  their bounds, and the menus assigned to a role are registered ones.
\<close>

definition member_roles_ok :: "store \<Rightarrow> bool" where
  "member_roles_ok s \<longleftrightarrow>
     (\<forall>t u m. dget (members s) (t, u) = Some m \<longrightarrow> is_valid_role t (m_role m) s)"

definition custom_roles_ok :: "store \<Rightarrow> bool" where
  "custom_roles_ok s \<longleftrightarrow>
     (\<forall>t r c. dget (custom_roles s) (t, r) = Some c \<longrightarrow>
        \<not> builtin_role r \<and> valid_id r \<and> cr_role_id c = r \<and> cr_tenant_id c = t \<and>
        valid_write_classes (cr_write_classes c)) \<and>
     (\<forall>t. length (tenant_custom_roles t s) \<le> MAX_CUSTOM_ROLES_PER_TENANT)"

definition menus_ok :: "store \<Rightarrow> bool" where
  "menus_ok s \<longleftrightarrow>
     (\<forall>t r ms. dget (menu_matrix s) (t, r) = Some ms \<longrightarrow>
        is_valid_role t r s \<and> distinct ms \<and> length ms \<le> MAX_MENUS_PER_ROLE \<and>
        set ms \<subseteq> set (list_known_menus t s) \<union> default_menus) \<and>
     (\<forall>t ms. dget (known_menus s) t = Some ms \<longrightarrow>
        distinct ms \<and> length ms \<le> MAX_MENUS_PER_TENANT \<and> (\<forall>m \<in> set ms. valid_id m))"

lemma is_valid_role_cong: "custom_roles s' = custom_roles s \<Longrightarrow> is_valid_role t r s' = is_valid_role t r s"
  by (simp add: is_valid_role_def)

lemma length_filter_dset:
  "length (filter P (dkeys (dset k v d))) \<le>
     (if dget d k = None \<and> P k then Suc (length (filter P (dkeys d))) else length (filter P (dkeys d)))"
  by (induction d) auto

lemma length_filter_dpop: "length (filter P (dkeys (dpop k d))) \<le> length (filter P (dkeys d))"
  by (induction d) auto

lemma length_filter_conj: "length (filter (\<lambda>x. Q x \<and> P x) xs) \<le> length (filter P xs)"
  by (induction xs) auto

lemma tenant_custom_roles_dset:
  assumes "custom_roles s' = dset (t, r) c (custom_roles s)"
  shows "length (tenant_custom_roles t' s') \<le>
    (if dget (custom_roles s) (t, r) = None \<and> t = t' then Suc (length (tenant_custom_roles t' s))
     else length (tenant_custom_roles t' s))"
  using length_filter_dset [of "\<lambda>(t, rid). t = t'" "(t, r)" c "custom_roles s"]
  unfolding tenant_custom_roles_def assms by simp

lemma tenant_custom_roles_dpop:
  assumes "custom_roles s' = dpop (t, r) (custom_roles s)"
  shows "length (tenant_custom_roles t' s') \<le> length (tenant_custom_roles t' s)"
  using length_filter_dpop [of "\<lambda>(t, rid). t = t'" "(t, r)" "custom_roles s"]
  unfolding tenant_custom_roles_def assms by simp

lemma member_roles_ok_delete_tenant:
  assumes "member_roles_ok s"
  shows "member_roles_ok (snd (delete_tenant t n s))"
  using assms
  by (auto simp: member_roles_ok_def delete_tenant_def is_valid_role_def dget_dpop_if
      split: option.splits if_splits)

lemma member_roles_ok_user:
  assumes "user_step K s s'" "member_roles_ok s"
  shows "member_roles_ok s'"
  using assms
  by (cases rule: user_step.cases)
    (auto simp: member_roles_ok_def user_store_defs is_valid_role_def Let_def dget_dset dget_dpop
      split: option.splits prod.splits if_splits)

lemma no_member_has_role:
  assumes "filter (\<lambda>((t, u), m). t = tid \<and> m_role m = r) ms = []" "dget ms (tid, u) = Some m"
  shows "m_role m \<noteq> r"
  using assms by (auto simp: filter_empty_conv dest: map_of_SomeD)

lemma member_roles_ok_rbac:
  assumes "rbac_step s s'" "member_roles_ok s"
  shows "member_roles_ok s'"
  using assms(1)
proof (cases rule: rbac_step.cases)
  case (delete_custom_role t r)
  with assms(2) show ?thesis
    by (auto simp: member_roles_ok_def delete_custom_role_def is_valid_role_def Let_def dget_dpop
        dest: no_member_has_role split: if_splits)
qed (use assms(2) in \<open>auto simp: member_roles_ok_def rbac_store_defs is_valid_role_def Let_def dget_dset
      split: option.splits if_splits sum.splits\<close>)

lemma member_roles_ok_step:
  assumes "store_step K fr s s'" "member_roles_ok s"
  shows "member_roles_ok s'"
  using assms(1)
proof (cases rule: store_step.cases)
  case tenant
  with assms(2) show ?thesis
    by (simp add: member_roles_ok_def is_valid_role_def tenant_step_frame [OF tenant])
next
  case (delete_tenant t n)
  with assms(2) show ?thesis by (simp add: member_roles_ok_delete_tenant)
next
  case user
  with assms(2) show ?thesis by (blast intro: member_roles_ok_user)
next
  case rbac
  with assms(2) show ?thesis by (blast intro: member_roles_ok_rbac)
next
  case secret
  with assms(2) show ?thesis
    by (simp add: member_roles_ok_def is_valid_role_def secret_step_frame [OF secret])
next
  case join
  with assms(2) show ?thesis
    by (simp add: member_roles_ok_def is_valid_role_def join_step_frame [OF join])
next
  case token
  with assms(2) show ?thesis
    by (simp add: member_roles_ok_def is_valid_role_def token_step_frame [OF token])
next
  case log
  with assms(2) show ?thesis
    by (simp add: member_roles_ok_def is_valid_role_def log_step_frame [OF log])
qed

lemma custom_roles_ok_rbac:
  assumes "rbac_step s s'" "custom_roles_ok s"
  shows "custom_roles_ok s'"
  using assms(1)
proof (cases rule: rbac_step.cases)
  case (create_custom_role t r d w n)
  show ?thesis
  proof (cases "fst (create_custom_role t r d w n s)")
    case (Inl e)
    with create_custom_role assms(2) show ?thesis
      by (auto simp: create_custom_role_def Let_def split: if_splits)
  next
    case (Inr c)
    then have s': "custom_roles s' = dset (t, r) c (custom_roles s)"
      and guards: "valid_id r" "\<not> builtin_role r" "valid_write_classes w"
        "length (tenant_custom_roles t s) < MAX_CUSTOM_ROLES_PER_TENANT"
      and c: "cr_role_id c = r" "cr_tenant_id c = t" "cr_write_classes c = w"
      using create_custom_role by (auto simp: create_custom_role_def Let_def split: if_splits)
    have "length (tenant_custom_roles t' s') \<le> MAX_CUSTOM_ROLES_PER_TENANT" for t'
      using tenant_custom_roles_dset [OF s', of t'] guards(4) assms(2)
      by (cases "t = t'") (auto simp: custom_roles_ok_def split: if_splits intro: order_trans)
    with s' guards c assms(2) show ?thesis
      by (auto simp: custom_roles_ok_def dget_dset split: if_splits)
  qed
next
  case (update_custom_role t r dn wo n)
  show ?thesis
  proof (cases "custom_roles s' = custom_roles s")
    case True
    with assms(2) show ?thesis by (simp add: custom_roles_ok_def tenant_custom_roles_def)
  next
    case False
    then obtain old c where s': "custom_roles s' = dset (t, r) c (custom_roles s)"
      and old: "dget (custom_roles s) (t, r) = Some old"
      and c: "cr_role_id c = cr_role_id old" "cr_tenant_id c = cr_tenant_id old"
        "cr_write_classes c = cr_write_classes old \<or> valid_write_classes (cr_write_classes c)"
      using update_custom_role
      by (auto simp: update_custom_role_def Let_def split: if_splits option.splits)
    have "length (tenant_custom_roles t' s') \<le> MAX_CUSTOM_ROLES_PER_TENANT" for t'
      using tenant_custom_roles_dset [OF s', of t'] old assms(2)
      by (auto simp: custom_roles_ok_def intro: order_trans)
    with s' old c assms(2) show ?thesis
      by (auto simp: custom_roles_ok_def dget_dset split: if_splits)
  qed
next
  case (delete_custom_role t r)
  then consider "custom_roles s' = custom_roles s"
    | (del) "custom_roles s' = dpop (t, r) (custom_roles s)"
    by (auto simp: delete_custom_role_def Let_def split: if_splits)
  then show ?thesis
  proof cases
    case 1
    with assms(2) show ?thesis by (simp add: custom_roles_ok_def tenant_custom_roles_def)
  next
    case del
    have "length (tenant_custom_roles t' s') \<le> MAX_CUSTOM_ROLES_PER_TENANT" for t'
      using tenant_custom_roles_dpop [OF del, of t'] assms(2)
      by (auto simp: custom_roles_ok_def intro: order_trans)
    with del assms(2) show ?thesis by (auto simp: custom_roles_ok_def dget_dpop split: if_splits)
  qed
qed (use assms(2) in \<open>auto simp: custom_roles_ok_def tenant_custom_roles_def rbac_store_defs Let_def
      split: option.splits if_splits sum.splits\<close>)

lemma custom_roles_ok_delete_tenant:
  assumes "custom_roles_ok s"
  shows "custom_roles_ok (snd (delete_tenant t n s))"
proof (cases "dget (tenants s) t")
  case None
  with assms show ?thesis by (simp add: delete_tenant_def)
next
  case (Some x)
  let ?s' = "snd (delete_tenant t n s)"
  have s': "custom_roles ?s' = dpop_if (\<lambda>(u, r). u = t) (custom_roles s)"
    using Some by (simp add: delete_tenant_def)
  have "length (tenant_custom_roles t' ?s') \<le> length (tenant_custom_roles t' s)" for t'
    unfolding tenant_custom_roles_def s' dkeys_dpop_if filter_filter
    by (rule length_filter_conj)
  moreover have "length (tenant_custom_roles t' s) \<le> MAX_CUSTOM_ROLES_PER_TENANT" for t'
    using assms by (simp add: custom_roles_ok_def)
  ultimately have "length (tenant_custom_roles t' ?s') \<le> MAX_CUSTOM_ROLES_PER_TENANT" for t'
    by (rule order_trans)
  with assms s' show ?thesis
    by (auto simp: custom_roles_ok_def dget_dpop_if split: if_splits)
qed

lemma custom_roles_ok_step:
  assumes "store_step K fr s s'" "custom_roles_ok s"
  shows "custom_roles_ok s'"
  using assms(1)
proof (cases rule: store_step.cases)
  case (delete_tenant t n)
  with assms(2) show ?thesis by (simp add: custom_roles_ok_delete_tenant)
next
  case rbac
  with assms(2) show ?thesis by (blast intro: custom_roles_ok_rbac)
next
  case tenant
  with assms(2) show ?thesis by (simp add: custom_roles_ok_def tenant_custom_roles_def tenant_step_frame [OF tenant])
next
  case user
  with assms(2) show ?thesis by (simp add: custom_roles_ok_def tenant_custom_roles_def user_step_frame [OF user])
next
  case secret
  with assms(2) show ?thesis by (simp add: custom_roles_ok_def tenant_custom_roles_def secret_step_frame [OF secret])
next
  case join
  with assms(2) show ?thesis by (simp add: custom_roles_ok_def tenant_custom_roles_def join_step_frame [OF join])
next
  case token
  with assms(2) show ?thesis by (simp add: custom_roles_ok_def tenant_custom_roles_def token_step_frame [OF token])
next
  case log
  with assms(2) show ?thesis by (simp add: custom_roles_ok_def tenant_custom_roles_def log_step_frame [OF log])
qed

lemma menus_okI:
  assumes "\<And>t r ms. dget (menu_matrix s) (t, r) = Some ms \<Longrightarrow> is_valid_role t r s"
    and "\<And>t r ms. dget (menu_matrix s) (t, r) = Some ms \<Longrightarrow> distinct ms \<and> length ms \<le> MAX_MENUS_PER_ROLE"
    and "\<And>t r ms. dget (menu_matrix s) (t, r) = Some ms \<Longrightarrow>
      set ms \<subseteq> set (list_known_menus t s) \<union> default_menus"
    and "\<And>t ms. dget (known_menus s) t = Some ms \<Longrightarrow>
      distinct ms \<and> length ms \<le> MAX_MENUS_PER_TENANT \<and> (\<forall>m \<in> set ms. valid_id m)"
  shows "menus_ok s"
  unfolding menus_ok_def using assms by blast

lemma menus_okD:
  assumes "menus_ok s"
  shows "dget (menu_matrix s) (t, r) = Some ms \<Longrightarrow> is_valid_role t r s"
    and "dget (menu_matrix s) (t, r) = Some ms \<Longrightarrow> distinct ms \<and> length ms \<le> MAX_MENUS_PER_ROLE"
    and "dget (menu_matrix s) (t, r) = Some ms \<Longrightarrow>
      set ms \<subseteq> set (list_known_menus t s) \<union> default_menus"
    and "dget (known_menus s) t = Some ks \<Longrightarrow>
      distinct ks \<and> length ks \<le> MAX_MENUS_PER_TENANT \<and> (\<forall>m \<in> set ks. valid_id m)"
  using assms unfolding menus_ok_def by blast+

lemma menus_ok_set_role_menus:
  assumes "menus_ok s"
  shows "menus_ok (snd (set_role_menus t r ms s))"
proof (cases rule: set_role_menus_cases [of t r ms s])
  case (err e)
  with assms show ?thesis by simp
next
  case ok
  note v = ok(1) and len = ok(2) and chk = ok(3)
  have s': "snd (set_role_menus t r ms s) = s\<lparr>menu_matrix := dset (t, r) (fromkeys ms) (menu_matrix s)\<rparr>"
    using ok(4) by simp
  have new: "distinct (fromkeys ms)" "length (fromkeys ms) \<le> MAX_MENUS_PER_ROLE"
    "set (fromkeys ms) \<subseteq> set (list_known_menus t s) \<union> default_menus"
    using len length_fromkeys [of ms] chk by auto
  show ?thesis
    unfolding s'
  proof (rule menus_okI)
    fix t' r' ms' assume m: "dget (menu_matrix (s\<lparr>menu_matrix := dset (t, r) (fromkeys ms) (menu_matrix s)\<rparr>)) (t', r') = Some ms'"
    have "is_valid_role t' r' s \<and> distinct ms' \<and> length ms' \<le> MAX_MENUS_PER_ROLE \<and>
        set ms' \<subseteq> set (list_known_menus t' s) \<union> default_menus"
    proof (cases "(t', r') = (t, r)")
      case True
      with m have "ms' = fromkeys ms" by (simp add: dget_dset)
      with True v new show ?thesis by simp
    next
      case False
      have "dget (dset (t, r) (fromkeys ms) (menu_matrix s)) (t', r') = Some ms'"
        using m by simp
      with False have "dget (menu_matrix s) (t', r') = Some ms'"
        by (metis dget_dset)
      then show ?thesis using menus_okD(1-3) [OF assms] by blast
    qed
    then show "is_valid_role t' r' (s\<lparr>menu_matrix := dset (t, r) (fromkeys ms) (menu_matrix s)\<rparr>)"
      and "distinct ms' \<and> length ms' \<le> MAX_MENUS_PER_ROLE"
      and "set ms' \<subseteq> set (list_known_menus t' (s\<lparr>menu_matrix := dset (t, r) (fromkeys ms) (menu_matrix s)\<rparr>)) \<union> default_menus"
      by (simp_all add: is_valid_role_def list_known_menus_def)
  next
    fix t' ms' assume "dget (known_menus (s\<lparr>menu_matrix := dset (t, r) (fromkeys ms) (menu_matrix s)\<rparr>)) t' = Some ms'"
    then show "distinct ms' \<and> length ms' \<le> MAX_MENUS_PER_TENANT \<and> (\<forall>m \<in> set ms'. valid_id m)"
      using menus_okD(4) [OF assms, of t' ms'] by simp
  qed
qed

lemma list_known_menus_ok:
  assumes "menus_ok s"
  shows "distinct (list_known_menus t s)" "\<forall>m \<in> set (list_known_menus t s). valid_id m"
proof -
  have "distinct (list_known_menus t s) \<and> (\<forall>m \<in> set (list_known_menus t s). valid_id m)"
  proof (cases "dget (known_menus s) t")
    case None
    then show ?thesis by (simp add: list_known_menus_def)
  next
    case (Some ks)
    then show ?thesis using menus_okD(4) [OF assms Some] by (simp add: list_known_menus_def)
  qed
  then show "distinct (list_known_menus t s)" "\<forall>m \<in> set (list_known_menus t s). valid_id m"
    by blast+
qed

lemma menus_ok_add_known_menus:
  assumes "menus_ok s"
  shows "menus_ok (snd (add_known_menus t ms s))"
proof (cases rule: add_known_menus_cases [of t ms s])
  case (err e)
  with assms show ?thesis by simp
next
  case (ok out)
  define s' where "s' = s\<lparr>known_menus := dset t out (known_menus s)\<rparr>"
  note e = extend_menus_ok [OF ok(1)] and old = list_known_menus_ok [OF assms, of t]
  have new: "distinct out" "\<forall>m \<in> set out. valid_id m"
    using e(1-3) old by blast+
  have f: "menu_matrix s' = menu_matrix s" "custom_roles s' = custom_roles s"
    "known_menus s' = dset t out (known_menus s)"
    by (simp_all add: s'_def)
  have sub: "set (list_known_menus u s) \<subseteq> set (list_known_menus u s')" for u
  proof (cases "u = t")
    case True
    then have "list_known_menus u s' = out" by (simp add: list_known_menus_def f dget_dset)
    with True e(1) show ?thesis by blast
  next
    case False
    then have "list_known_menus u s' = list_known_menus u s"
      by (simp add: list_known_menus_def f dget_dset)
    then show ?thesis by simp
  qed
  have "menus_ok s'"
  proof (rule menus_okI)
    fix u r ns assume "dget (menu_matrix s') (u, r) = Some ns"
    then have m: "dget (menu_matrix s) (u, r) = Some ns" by (simp only: f)
    from menus_okD(1) [OF assms m] show "is_valid_role u r s'"
      by (simp only: is_valid_role_def f)
    from menus_okD(2) [OF assms m] show "distinct ns \<and> length ns \<le> MAX_MENUS_PER_ROLE" .
    from menus_okD(3) [OF assms m] sub [of u]
    show "set ns \<subseteq> set (list_known_menus u s') \<union> default_menus" by blast
  next
    fix u ns assume n: "dget (known_menus s') u = Some ns"
    show "distinct ns \<and> length ns \<le> MAX_MENUS_PER_TENANT \<and> (\<forall>m \<in> set ns. valid_id m)"
    proof (cases "u = t")
      case True
      with n have "ns = out" by (simp add: f dget_dset)
      with new ok(2) show ?thesis by blast
    next
      case False
      with n have "dget (known_menus s) u = Some ns" by (simp add: f dget_dset)
      then show ?thesis by (rule menus_okD(4) [OF assms])
    qed
  qed
  then show ?thesis by (simp add: ok(3) s'_def)
qed

lemma menus_ok_custom_roles_change:
  assumes "menus_ok s" "menu_matrix s' = menu_matrix s" "known_menus s' = known_menus s"
    "\<And>k. dget (custom_roles s) k \<noteq> None \<Longrightarrow> dget (custom_roles s') k \<noteq> None"
  shows "menus_ok s'"
proof (rule menus_okI)
  fix t r ms assume "dget (menu_matrix s') (t, r) = Some ms"
  then have m: "dget (menu_matrix s) (t, r) = Some ms" by (simp add: assms(2))
  show "is_valid_role t r s'"
    using menus_okD(1) [OF assms(1) m] assms(4) unfolding is_valid_role_def by blast
  show "distinct ms \<and> length ms \<le> MAX_MENUS_PER_ROLE"
    using menus_okD(2) [OF assms(1) m] .
  show "set ms \<subseteq> set (list_known_menus t s') \<union> default_menus"
    using menus_okD(3) [OF assms(1) m] by (simp add: list_known_menus_def assms(3))
next
  fix t ms assume "dget (known_menus s') t = Some ms"
  then show "distinct ms \<and> length ms \<le> MAX_MENUS_PER_TENANT \<and> (\<forall>m \<in> set ms. valid_id m)"
    using menus_okD(4) [OF assms(1), of t ms] by (simp add: assms(3))
qed

lemma menus_ok_drop:
  assumes "menus_ok s" "known_menus s' = known_menus s"
    "\<And>k. dget (menu_matrix s') k = (if P k then None else dget (menu_matrix s) k)"
    "\<And>k. dget (custom_roles s') k = (if Q k then None else dget (custom_roles s) k)"
    "\<And>k. Q k \<Longrightarrow> P k"
  shows "menus_ok s'"
proof (rule menus_okI)
  fix t r ms assume "dget (menu_matrix s') (t, r) = Some ms"
  then have P: "\<not> P (t, r)" and m: "dget (menu_matrix s) (t, r) = Some ms"
    by (auto simp: assms(3) split: if_splits)
  from P assms(5) have "\<not> Q (t, r)" by blast
  with menus_okD(1) [OF assms(1) m] show "is_valid_role t r s'"
    by (simp add: is_valid_role_def assms(4))
  from menus_okD(2) [OF assms(1) m] show "distinct ms \<and> length ms \<le> MAX_MENUS_PER_ROLE" .
  from menus_okD(3) [OF assms(1) m] show "set ms \<subseteq> set (list_known_menus t s') \<union> default_menus"
    by (simp add: list_known_menus_def assms(2))
next
  fix t ms assume "dget (known_menus s') t = Some ms"
  then show "distinct ms \<and> length ms \<le> MAX_MENUS_PER_TENANT \<and> (\<forall>m \<in> set ms. valid_id m)"
    using menus_okD(4) [OF assms(1), of t ms] by (simp add: assms(2))
qed

lemma menus_ok_rbac:
  assumes "rbac_step s s'" "menus_ok s"
  shows "menus_ok s'"
  using assms(1)
proof (cases rule: rbac_step.cases)
  case (create_custom_role t r d w n)
  show ?thesis
    by (rule menus_ok_custom_roles_change [OF assms(2)])
      (simp_all add: create_custom_role create_custom_role_def Let_def dget_dset)
next
  case (update_custom_role t r dn wo n)
  show ?thesis
    by (rule menus_ok_custom_roles_change [OF assms(2)])
      (simp_all add: update_custom_role update_custom_role_def Let_def dget_dset split: option.split)
next
  case (delete_custom_role t r)
  let ?gone = "\<lambda>k. k = (t, r) \<and> fst (delete_custom_role t r s) = Inr True"
  show ?thesis
    by (rule menus_ok_drop [OF assms(2), where P = ?gone and Q = ?gone])
      (simp_all add: delete_custom_role delete_custom_role_def Let_def dget_dpop)
next
  case (set_role_menus t r ms)
  show ?thesis unfolding set_role_menus by (rule menus_ok_set_role_menus [OF assms(2)])
next
  case (reset_role_menus t r)
  show ?thesis
    by (rule menus_ok_drop [OF assms(2), where Q = "\<lambda>k. False"
          and P = "\<lambda>k. k = (t, r) \<and> is_valid_role t r s"])
      (simp_all add: reset_role_menus reset_role_menus_def dget_dpop)
next
  case (add_known_menus t ms)
  show ?thesis unfolding add_known_menus by (rule menus_ok_add_known_menus [OF assms(2)])
qed

lemma menus_ok_delete_tenant:
  assumes "menus_ok s"
  shows "menus_ok (snd (delete_tenant t n s))"
proof (cases "dget (tenants s) t")
  case None
  with assms show ?thesis by (simp add: delete_tenant_def)
next
  case (Some x)
  let ?s' = "snd (delete_tenant t n s)"
  have f: "custom_roles ?s' = dpop_if (\<lambda>(u, r). u = t) (custom_roles s)"
    "menu_matrix ?s' = dpop_if (\<lambda>(u, r). u = t) (menu_matrix s)"
    "known_menus ?s' = dpop t (known_menus s)"
    using Some by (simp_all add: delete_tenant_def)
  show ?thesis
  proof (rule menus_okI)
    fix u r ms assume "dget (menu_matrix ?s') (u, r) = Some ms"
    then have u: "u \<noteq> t" and m: "dget (menu_matrix s) (u, r) = Some ms"
      by (auto simp: f dget_dpop_if split: if_splits)
    show "is_valid_role u r ?s'"
      using menus_okD(1) [OF assms m] u by (simp add: is_valid_role_def f dget_dpop_if)
    show "distinct ms \<and> length ms \<le> MAX_MENUS_PER_ROLE"
      using menus_okD(2) [OF assms m] .
    show "set ms \<subseteq> set (list_known_menus u ?s') \<union> default_menus"
      using menus_okD(3) [OF assms m] u by (simp add: list_known_menus_def f dget_dpop)
  next
    fix u ms assume "dget (known_menus ?s') u = Some ms"
    then show "distinct ms \<and> length ms \<le> MAX_MENUS_PER_TENANT \<and> (\<forall>m \<in> set ms. valid_id m)"
      using menus_okD(4) [OF assms, of u ms] by (auto simp: f dget_dpop split: if_splits)
  qed
qed

lemma menus_ok_cong:
  assumes "custom_roles s' = custom_roles s" "menu_matrix s' = menu_matrix s"
    "known_menus s' = known_menus s" "menus_ok s"
  shows "menus_ok s'"
  using assms(4) unfolding menus_ok_def is_valid_role_def list_known_menus_def assms(1-3) .

lemma menus_ok_step:
  assumes "store_step K fr s s'" "menus_ok s"
  shows "menus_ok s'"
  using assms(1)
proof (cases rule: store_step.cases)
  case (delete_tenant t n)
  with assms(2) show ?thesis by (simp add: menus_ok_delete_tenant)
next
  case rbac
  with assms(2) show ?thesis by (blast intro: menus_ok_rbac)
next
  case tenant
  show ?thesis by (rule menus_ok_cong [OF _ _ _ assms(2)]) (simp_all add: tenant_step_frame [OF tenant])
next
  case user
  show ?thesis by (rule menus_ok_cong [OF _ _ _ assms(2)]) (simp_all add: user_step_frame [OF user])
next
  case secret
  show ?thesis by (rule menus_ok_cong [OF _ _ _ assms(2)]) (simp_all add: secret_step_frame [OF secret])
next
  case join
  show ?thesis by (rule menus_ok_cong [OF _ _ _ assms(2)]) (simp_all add: join_step_frame [OF join])
next
  case token
  show ?thesis by (rule menus_ok_cong [OF _ _ _ assms(2)]) (simp_all add: token_step_frame [OF token])
next
  case log
  show ?thesis by (rule menus_ok_cong [OF _ _ _ assms(2)]) (simp_all add: log_step_frame [OF log])
qed

end
