(* ===== verification/Store_Audit.thy ===== *)
theory Store_Audit
  imports Store_Invariant
begin

text \<open>
  The logs of the store: bounds, strictly increasing sequence numbers, and the hash chain
  of the audit log. A tenant's audit rows form a chain from some starting hash to the
  recorded tail; as long as nothing was evicted the chain starts at \<open>genesis\<close> and
  \<open>verify_audit_chain\<close> accepts it.
\<close>

section \<open>Chains\<close>

text \<open>The link structure of a list of rows, and the hash the next row will link to.\<close>

fun chain_from :: "(real \<Rightarrow> string) \<Rightarrow> string \<Rightarrow> audit_rec list \<Rightarrow> bool" where
  "chain_from fr p [] = True"
| "chain_from fr p (a # rows) =
     (au_prev_hash a = p \<and> au_chain_hash a = chain_hash fr p (au_fields a) \<and>
      chain_from fr (au_chain_hash a) rows)"

fun chain_end :: "string \<Rightarrow> audit_rec list \<Rightarrow> string" where
  "chain_end p [] = p"
| "chain_end p (a # rows) = chain_end (au_chain_hash a) rows"

lemma chain_from_append:
  "chain_from fr p (xs @ ys) \<longleftrightarrow> chain_from fr p xs \<and> chain_from fr (chain_end p xs) ys"
  by (induction xs arbitrary: p) auto

lemma chain_end_append: "chain_end p (xs @ ys) = chain_end (chain_end p xs) ys"
  by (induction xs arbitrary: p) auto

lemma chain_check_chain: "chain_from fr p rows \<Longrightarrow> chain_check fr p rows = None"
  by (induction rows arbitrary: p) auto

text \<open>A check that passes pins every chain hash to the payloads before it.\<close>

lemma chain_check_None:
  "chain_check fr p (a # rows) = None \<longleftrightarrow>
     au_chain_hash a = chain_hash fr p (au_fields a) \<and> chain_check fr (au_chain_hash a) rows = None"
  by auto

lemma chain_check_append:
  "chain_check fr p (xs @ ys) = None \<longleftrightarrow>
     chain_check fr p xs = None \<and> chain_check fr (chain_end p xs) ys = None"
  by (induction xs arbitrary: p) auto

section \<open>The log invariant\<close>

definition tenant_rows :: "string \<Rightarrow> store \<Rightarrow> audit_rec list" where
  "tenant_rows t s = filter (\<lambda>a. au_tenant a = t) (audit s)"

definition tail_hash :: "string \<Rightarrow> store \<Rightarrow> string" where
  "tail_hash t s = upd_opt (dget (audit_tail_hash s) t) ''genesis''"

definition chains_ok :: "(real \<Rightarrow> string) \<Rightarrow> store \<Rightarrow> bool" where
  "chains_ok fr s \<longleftrightarrow>
     (\<forall>t. \<exists>p. chain_from fr p (tenant_rows t s) \<and> chain_end p (tenant_rows t s) = tail_hash t s \<and>
        (seq_audit s \<le> int AUDIT_CAP \<longrightarrow> p = ''genesis''))"

definition seqs_ok :: "store \<Rightarrow> bool" where
  "seqs_ok s \<longleftrightarrow>
     sorted_wrt (<) (map au_id (audit s)) \<and> (\<forall>a \<in> set (audit s). 0 < au_id a \<and> au_id a \<le> seq_audit s) \<and>
     0 \<le> seq_audit s \<and> length (audit s) = min AUDIT_CAP (nat (seq_audit s)) \<and>
     sorted_wrt (<) (map e_seq (events s)) \<and> (\<forall>e \<in> set (events s). 0 < e_seq e \<and> e_seq e \<le> event_seq s) \<and>
     0 \<le> event_seq s \<and> length (events s) = min AUDIT_CAP (nat (event_seq s)) \<and>
     length (usage s) \<le> USAGE_CAP \<and> length (lease_log s) \<le> LEASE_LOG_CAP"

lemma sorted_wrt_capped_append:
  assumes "sorted_wrt (<) (map f xs)" "\<forall>x \<in> set xs. f x < f y"
  shows "sorted_wrt (<) (map f (capped_append cap xs y))"
proof -
  have "sorted_wrt (<) (map f (xs @ [y]))"
    using assms by (simp add: sorted_wrt_append)
  then show ?thesis
    unfolding capped_append_lastn lastn_def drop_map [symmetric] by (rule sorted_wrt_drop)
qed

lemma set_capped_append: "set (capped_append cap xs x) \<subseteq> insert x (set xs)"
  using set_lastn_subset [of cap "xs @ [x]"] by (auto simp: capped_append_lastn)

lemma seqs_ok_log:
  assumes "log_step fr s s'" "seqs_ok s"
  shows "seqs_ok s'"
  using assms(1)
proof (cases rule: log_step.cases)
  case (append_audit t u j r a rs d n)
  define x where "x = fst (append_audit fr t u j r a rs d n s)"
  have x: "audit s' = capped_append AUDIT_CAP (audit s) x" "au_id x = seq_audit s + 1"
    "seq_audit s' = seq_audit s + 1" "events s' = events s" "event_seq s' = event_seq s"
    "usage s' = usage s" "lease_log s' = lease_log s"
    by (simp_all add: x_def append_audit append_audit_def push_audit_def Let_def)
  have "sorted_wrt (<) (map au_id (audit s'))"
    unfolding x using assms(2) x(2) by (intro sorted_wrt_capped_append) (auto simp: seqs_ok_def)
  moreover have "\<forall>a \<in> set (audit s'). 0 < au_id a \<and> au_id a \<le> seq_audit s'"
    using set_capped_append [of AUDIT_CAP "audit s" x] assms(2) x(2) by (force simp: x seqs_ok_def)
  ultimately show ?thesis
    using assms(2) by (simp add: seqs_ok_def x length_capped_append nat_add_distrib)
next
  case (append_event ty t d rd n)
  define x where "x = fst (append_event ty t d rd n s)"
  have x: "events s' = capped_append AUDIT_CAP (events s) x" "e_seq x = event_seq s + 1"
    "event_seq s' = event_seq s + 1" "audit s' = audit s" "seq_audit s' = seq_audit s"
    "usage s' = usage s" "lease_log s' = lease_log s"
    by (simp_all add: x_def append_event append_event_def push_event_def Let_def)
  have "sorted_wrt (<) (map e_seq (events s'))"
    unfolding x using assms(2) x(2) by (intro sorted_wrt_capped_append) (auto simp: seqs_ok_def)
  moreover have "\<forall>a \<in> set (events s'). 0 < e_seq a \<and> e_seq a \<le> event_seq s'"
    using set_capped_append [of AUDIT_CAP "events s" x] assms(2) x(2) by (force simp: x seqs_ok_def)
  ultimately show ?thesis
    using assms(2) by (simp add: seqs_ok_def x length_capped_append nat_add_distrib)
next
  case (mark_event e st tries n)
  define f where "f = (\<lambda>e :: event_rec. e\<lparr>e_status := st, e_attempts := upd_opt tries (e_attempts e),
                e_updated_at := n\<rparr>)"
  have ev: "events s' = map_first (\<lambda>x. e_event_id x = e) f (events s)"
    by (simp add: mark_event mark_event_def f_def)
  have m: "map e_seq (events s') = map e_seq (events s)"
    unfolding ev by (rule map_map_first) (simp add: f_def)
  then have img: "e_seq ` set (events s') = e_seq ` set (events s)"
    using list.set_map [of e_seq "events s'"] list.set_map [of e_seq "events s"] by simp
  have "\<forall>i \<in> e_seq ` set (events s). 0 < i \<and> i \<le> event_seq s"
    using assms(2) by (simp add: seqs_ok_def)
  then have "\<forall>x \<in> set (events s'). 0 < e_seq x \<and> e_seq x \<le> event_seq s"
    unfolding img [symmetric] by simp
  moreover have "length (events s') = length (events s)" by (simp add: ev)
  ultimately show ?thesis
    using assms(2) m by (simp add: seqs_ok_def mark_event mark_event_def)
next
  case (record_usage t u m v so mo n)
  with assms(2) show ?thesis
    by (simp add: seqs_ok_def record_usage_def push_usage_def Let_def length_capped_append)
next
  case (log_lease t l a rs n)
  with assms(2) show ?thesis
    by (simp add: seqs_ok_def log_lease_def push_lease_def length_capped_append)
qed

text \<open>Evicting from the front of the log leaves a suffix of each tenant's rows.\<close>

lemma filter_lastn_suffix: "\<exists>zs. filter P xs = zs @ filter P (lastn n xs)"
  by (metis append_take_drop_id filter_append lastn_def)

lemma chain_ok_push:
  assumes old: "chain_from fr p (filter P xs)" "chain_end p (filter P xs) = e"
    and new: "P x \<Longrightarrow> au_prev_hash x = e \<and> au_chain_hash x = chain_hash fr e (au_fields x)"
  shows "\<exists>q. chain_from fr q (filter P (capped_append cap xs x)) \<and>
      chain_end q (filter P (capped_append cap xs x)) = (if P x then au_chain_hash x else e) \<and>
      (length xs < cap \<longrightarrow> q = p)"
proof -
  have all: "chain_from fr p (filter P (xs @ [x]))"
    "chain_end p (filter P (xs @ [x])) = (if P x then au_chain_hash x else e)"
    using old new by (simp_all add: chain_from_append chain_end_append)
  obtain zs where zs: "filter P (xs @ [x]) = zs @ filter P (capped_append cap xs x)"
    using filter_lastn_suffix [of P "xs @ [x]" cap] by (auto simp: capped_append_lastn)
  show ?thesis
  proof (cases "length xs < cap")
    case True
    with all show ?thesis by (auto simp: capped_append_below)
  next
    case False
    with all show ?thesis
      unfolding zs chain_from_append chain_end_append by blast
  qed
qed

lemma chains_ok_append:
  assumes "chains_ok fr s" "seqs_ok s"
  shows "chains_ok fr (snd (append_audit fr t u j r a rs d n s))"
  unfolding chains_ok_def
proof
  fix t'
  let ?s' = "snd (append_audit fr t u j r a rs d n s)"
  define x where "x = fst (append_audit fr t u j r a rs d n s)"
  have x: "audit ?s' = capped_append AUDIT_CAP (audit s) x" "au_tenant x = t"
    "au_prev_hash x = tail_hash t s" "au_chain_hash x = chain_hash fr (tail_hash t s) (au_fields x)"
    "seq_audit ?s' = seq_audit s + 1"
    "audit_tail_hash ?s' = dset t (au_chain_hash x) (audit_tail_hash s)"
    by (simp_all add: x_def append_audit_def push_audit_def tail_hash_def Let_def)
  have tl: "tail_hash t' ?s' = (if t = t' then au_chain_hash x else tail_hash t' s)"
    by (simp add: tail_hash_def x(6) dget_dset)
  obtain p where p: "chain_from fr p (tenant_rows t' s)" "chain_end p (tenant_rows t' s) = tail_hash t' s"
    "seq_audit s \<le> int AUDIT_CAP \<longrightarrow> p = ''genesis''"
    using assms(1) unfolding chains_ok_def by blast
  have new: "au_tenant x = t' \<Longrightarrow> au_prev_hash x = tail_hash t' s \<and>
      au_chain_hash x = chain_hash fr (tail_hash t' s) (au_fields x)"
    using x(2-4) by simp
  obtain q where q: "chain_from fr q (tenant_rows t' ?s')"
    "chain_end q (tenant_rows t' ?s') = (if au_tenant x = t' then au_chain_hash x else tail_hash t' s)"
    "length (audit s) < AUDIT_CAP \<longrightarrow> q = p"
    using chain_ok_push [OF p(1,2) [unfolded tenant_rows_def] new] unfolding tenant_rows_def x(1) by blast
  moreover have "q = ''genesis''" if "seq_audit ?s' \<le> int AUDIT_CAP"
    using q(3) p(3) that x(5) assms(2) by (auto simp: seqs_ok_def)
  ultimately show "\<exists>p. chain_from fr p (tenant_rows t' ?s') \<and>
      chain_end p (tenant_rows t' ?s') = tail_hash t' ?s' \<and>
      (seq_audit ?s' \<le> int AUDIT_CAP \<longrightarrow> p = ''genesis'')"
    unfolding tl x(2) by blast
qed

lemma chains_ok_cong:
  "audit s' = audit s \<Longrightarrow> seq_audit s' = seq_audit s \<Longrightarrow> audit_tail_hash s' = audit_tail_hash s \<Longrightarrow>
     chains_ok fr s \<Longrightarrow> chains_ok fr s'"
  by (simp add: chains_ok_def tenant_rows_def tail_hash_def)

lemma chains_ok_log:
  assumes "log_step fr s s'" "chains_ok fr s" "seqs_ok s"
  shows "chains_ok fr s'"
  using assms(1)
proof (cases rule: log_step.cases)
  case (append_audit t u j r a rs d n)
  show ?thesis unfolding append_audit by (rule chains_ok_append [OF assms(2,3)])
qed (rule chains_ok_cong [OF _ _ _ assms(2)]; simp add: log_store_defs Let_def)+

section \<open>Verification of the chain\<close>

text \<open>The rows of a tenant are already sorted by id when the verifier sorts them.\<close>

lemma tenant_rows_sorted:
  assumes "seqs_ok s"
  shows "sort_key au_id (tenant_rows t s) = tenant_rows t s"
proof -
  have "sorted (map au_id (audit s))"
    using assms strict_sorted_imp_sorted by (auto simp: seqs_ok_def)
  then have "sorted (map au_id (tenant_rows t s))"
    unfolding tenant_rows_def by (rule sorted_filter)
  then show ?thesis by (intro properties_for_sort_key) simp_all
qed

end
