(* ===== verification/Store_Integrity.thy ===== *)
theory Store_Integrity
  imports Store_Audit
begin

text \<open>
  The remaining parts of the store invariant: the API-key index, application secrets, join
  requests, refresh tokens, tenants and the logs. \<open>store_inv\<close> collects all parts and holds
  in every reachable store.
\<close>

section \<open>API keys\<close>

text \<open>The hash index leads only to live keys with that hash.\<close>

definition keys_ok :: "store \<Rightarrow> bool" where
  "keys_ok s \<longleftrightarrow>
     (\<forall>h kid. dget (key_hash_index s) h = Some kid \<longrightarrow>
        (\<exists>k. dget (api_keys s) kid = Some k \<and> k_key_hash k = h \<and> k_revoked_at k = None)) \<and>
     (\<forall>kid k. dget (api_keys s) kid = Some k \<longrightarrow> k_key_id k = kid \<and> kid \<noteq> [])"

lemma keys_ok_cong:
  "api_keys s' = api_keys s \<Longrightarrow> key_hash_index s' = key_hash_index s \<Longrightarrow> keys_ok s \<Longrightarrow> keys_ok s'"
  by (simp add: keys_ok_def)

lemma keys_okD:
  assumes "keys_ok s" "dget (key_hash_index s) h = Some kid"
  obtains k where "dget (api_keys s) kid = Some k" "k_key_hash k = h" "k_revoked_at k = None"
  using assms unfolding keys_ok_def by blast

lemma keys_ok_secret:
  assumes "secret_step s s'" "keys_ok s"
  shows "keys_ok s'"
  using assms(1)
proof (cases rule: secret_step.cases)
  case (create_api_key i t u sc r n)
  with assms(2) show ?thesis
    by (auto simp: keys_ok_def create_api_key_def Let_def dget_dset split: if_splits) fastforce
next
  case (revoke_api_key k n)
  with assms(2) show ?thesis
    by (auto simp: keys_ok_def revoke_api_key_def dget_dset dget_dpop split: if_splits option.splits)
      fastforce
qed (use assms(2) in \<open>simp_all add: keys_ok_def secret_store_defs Let_def split: option.split\<close>)

lemma keys_ok_delete_tenant:
  assumes "keys_ok s" "dicts_wf s"
  shows "keys_ok (snd (delete_tenant t n s))"
proof (cases "dget (tenants s) t")
  case None
  with assms show ?thesis by (simp add: delete_tenant_def)
next
  case (Some x)
  let ?s' = "snd (delete_tenant t n s)"
  let ?f = "\<lambda>k. if key_of_tenant t k then k\<lparr>k_revoked_at := Some n\<rparr> else k"
  have f: "\<And>kid. dget (api_keys ?s') kid = map_option ?f (dget (api_keys s) kid)"
    "\<And>h. dget (key_hash_index ?s') h =
       (if h \<in> k_key_hash ` {k \<in> set (dvals (api_keys s)). key_of_tenant t k} then None
        else dget (key_hash_index s) h)"
    using Some by (auto simp: delete_tenant_def dget_dmap dget_dpop_all)
  have "\<exists>k. dget (api_keys ?s') kid = Some k \<and> k_key_hash k = h \<and> k_revoked_at k = None"
    if "dget (key_hash_index ?s') h = Some kid" for h kid
  proof -
    from that have h: "h \<notin> k_key_hash ` {k \<in> set (dvals (api_keys s)). key_of_tenant t k}"
      and "dget (key_hash_index s) h = Some kid" by (auto simp: f split: if_splits)
    then obtain k where k: "dget (api_keys s) kid = Some k" "k_key_hash k = h" "k_revoked_at k = None"
      using keys_okD [OF assms(1)] by metis
    with h dget_in_dvals [OF k(1)] have "\<not> key_of_tenant t k" by blast
    with k show ?thesis by (simp add: f)
  qed
  moreover have "k_key_id k = kid \<and> kid \<noteq> []" if "dget (api_keys ?s') kid = Some k" for kid k
    using that assms(1) by (auto simp: f keys_ok_def)
  ultimately show ?thesis unfolding keys_ok_def by blast
qed

section \<open>Application secrets\<close>

text \<open>An app has at most one current secret, and no two secrets share a version.\<close>

definition secrets_ok :: "store \<Rightarrow> bool" where
  "secrets_ok s \<longleftrightarrow>
     (\<forall>i j a b. dget (app_secrets s) i = Some a \<longrightarrow> dget (app_secrets s) j = Some b \<longrightarrow>
        a_app_id a = a_app_id b \<longrightarrow>
        (a_status a = ''current'' \<and> a_status b = ''current'') \<or> a_version a = a_version b \<longrightarrow> i = j)"

lemma secrets_okI:
  assumes "\<And>i j a b. dget (app_secrets s) i = Some a \<Longrightarrow> dget (app_secrets s) j = Some b \<Longrightarrow>
      a_app_id a = a_app_id b \<Longrightarrow>
      (a_status a = ''current'' \<and> a_status b = ''current'') \<or> a_version a = a_version b \<Longrightarrow> i = j"
  shows "secrets_ok s"
  using assms unfolding secrets_ok_def by blast

lemma secrets_okD:
  assumes "secrets_ok s" "dget (app_secrets s) i = Some a" "dget (app_secrets s) j = Some b"
    "a_app_id a = a_app_id b"
    "(a_status a = ''current'' \<and> a_status b = ''current'') \<or> a_version a = a_version b"
  shows "i = j"
  using assms unfolding secrets_ok_def by blast

lemma secrets_ok_cong: "app_secrets s' = app_secrets s \<Longrightarrow> secrets_ok s \<Longrightarrow> secrets_ok s'"
  unfolding secrets_ok_def by (simp only:)

text \<open>Demoting one record, without touching its app and version, keeps the invariant.\<close>

lemma secrets_ok_demote:
  assumes "secrets_ok s" "dget (app_secrets s) k = Some v"
    "app_secrets s' = dset k w (app_secrets s)"
    "a_app_id w = a_app_id v" "a_version w = a_version v" "a_status w \<noteq> ''current''"
  shows "secrets_ok s'"
proof (rule secrets_okI)
  fix i j a b
  assume a: "dget (app_secrets s') i = Some a" and b: "dget (app_secrets s') j = Some b"
    and app: "a_app_id a = a_app_id b"
    and clash: "(a_status a = ''current'' \<and> a_status b = ''current'') \<or> a_version a = a_version b"
  have old: "\<exists>c. dget (app_secrets s) l = Some c \<and> a_app_id c = a_app_id d \<and>
      a_version c = a_version d \<and> (a_status d = ''current'' \<longrightarrow> a_status c = ''current'')"
    if "dget (app_secrets s') l = Some d" for l d
    using that assms(2-6) by (cases "l = k") (auto simp: dget_dset)
  from old [OF a] old [OF b] app clash show "i = j"
    using secrets_okD [OF assms(1), of i _ j] by metis
qed

lemma app_versions_mem:
  assumes "dget (app_secrets s) m = Some x" "a_app_id x = a"
  shows "a_version x \<in> set (app_versions a s)"
proof -
  have "x \<in> set (filter (\<lambda>r. a_app_id r = a) (dvals (app_secrets s)))"
    using dget_in_dvals [OF assms(1)] assms(2) by (simp only: set_filter mem_Collect_eq)
  then show ?thesis unfolding app_versions_def set_map by (rule imageI)
qed

text \<open>A record with a fresh version joins an app that has no current secret.\<close>

lemma secrets_ok_add:
  assumes "secrets_ok s1" "app_secrets s' = dset i c (app_secrets s1)"
    and nocur: "\<And>k v. dget (app_secrets s1) k = Some v \<Longrightarrow> \<not> is_current (a_app_id c) v"
    and vers: "\<And>k v. dget (app_secrets s1) k = Some v \<Longrightarrow> a_app_id v = a_app_id c \<Longrightarrow>
      a_version v < a_version c"
  shows "secrets_ok s'"
proof -
  have old: "dget (app_secrets s1) k = Some x" if "dget (app_secrets s') k = Some x" "k \<noteq> i" for k x
    using that by (simp add: assms(2) dget_dset)
  have new: "x = c" if "dget (app_secrets s') i = Some x" for x
    using that by (simp add: assms(2) dget_dset)
  have apart: "\<not> (a_status v = ''current'' \<and> a_status c = ''current'') \<and> a_version v \<noteq> a_version c"
    if "dget (app_secrets s1) k = Some v" "a_app_id v = a_app_id c" for k v
    using nocur [OF that(1)] vers [OF that] that(2) by (simp add: is_current_def)
  show ?thesis
  proof (rule secrets_okI)
    fix k l x y
    assume x: "dget (app_secrets s') k = Some x" and y: "dget (app_secrets s') l = Some y"
      and app: "a_app_id x = a_app_id y"
      and clash: "(a_status x = ''current'' \<and> a_status y = ''current'') \<or> a_version x = a_version y"
    consider "k = i" "l = i" | "k = i" "l \<noteq> i" | "k \<noteq> i" "l = i" | "k \<noteq> i" "l \<noteq> i" by blast
    then show "k = l"
    proof cases
      case 2
      with x y have "x = c" "dget (app_secrets s1) l = Some y" using old new by blast+
      with apart [of l y] app clash show ?thesis by metis
    next
      case 3
      with x y have "y = c" "dget (app_secrets s1) k = Some x" using old new by blast+
      with apart [of k x] app clash show ?thesis by metis
    next
      case 4
      with x y have "dget (app_secrets s1) k = Some x" "dget (app_secrets s1) l = Some y"
        using old by blast+
      then show ?thesis using secrets_okD [OF assms(1)] app clash by blast
    qed blast
  qed
qed

text \<open>Demoting the current secret of an app, if any, leaves it without one.\<close>

lemma secrets_ok_demote_current:
  assumes "secrets_ok s" "dicts_wf s" "app_secrets s1 = dmap_first (is_current a) f (app_secrets s)"
    and f: "\<And>v. a_app_id (f v) = a_app_id v" "\<And>v. a_version (f v) = a_version v"
      "\<And>v. a_status (f v) \<noteq> ''current''"
  shows "secrets_ok s1" and "dget (app_secrets s1) l = Some w \<Longrightarrow> \<not> is_current a w"
    and "dget (app_secrets s1) l = Some w \<Longrightarrow> a_app_id w = a \<Longrightarrow> a_version w < next_version a s"
proof -
  have wf: "dict_wf (app_secrets s)" using assms(2) by (simp add: dicts_wf_def)
  note above = next_version_above [OF app_versions_mem]
  have "secrets_ok s1 \<and> (\<forall>l w. dget (app_secrets s1) l = Some w \<longrightarrow>
      \<not> is_current a w \<and> (a_app_id w = a \<longrightarrow> a_version w < next_version a s))"
  proof (cases "List.find (is_current a) (dvals (app_secrets s))")
    case None
    then have none: "\<not> is_current a v" if "dget (app_secrets s) k = Some v" for k v
      using dget_in_dvals [OF that] by (auto simp: find_None_iff)
    have eq: "app_secrets s1 = app_secrets s"
      unfolding assms(3) by (rule find_none_dmap_first [OF None])
    show ?thesis unfolding eq using secrets_ok_cong [OF eq assms(1)] none above by blast
  next
    case (Some v)
    obtain k where k: "dget (app_secrets s) k = Some v" "is_current a v"
      "dmap_first (is_current a) f (app_secrets s) = dset k (f v) (app_secrets s)"
      using dmap_first_dset [OF wf Some] .
    have s1: "app_secrets s1 = dset k (f v) (app_secrets s)" unfolding assms(3) by (rule k(3))
    have "\<not> is_current a w \<and> (a_app_id w = a \<longrightarrow> a_version w < next_version a s)"
      if w: "dget (app_secrets s1) l = Some w" for l w
    proof (cases "l = k")
      case True
      with w have "w = f v" by (simp add: s1 dget_dset)
      then show ?thesis using above [OF k(1), of a] f by (simp add: is_current_def)
    next
      case False
      with w have w': "dget (app_secrets s) l = Some w" by (simp add: s1 dget_dset)
      moreover have "\<not> is_current a w"
        using secrets_okD [OF assms(1) k(1) w'] k(2) False unfolding is_current_def by metis
      ultimately show ?thesis using above [OF w'] by blast
    qed
    then show ?thesis using secrets_ok_demote [OF assms(1) k(1) s1 f] by blast
  qed
  then show "secrets_ok s1" and "dget (app_secrets s1) l = Some w \<Longrightarrow> \<not> is_current a w"
    and "dget (app_secrets s1) l = Some w \<Longrightarrow> a_app_id w = a \<Longrightarrow> a_version w < next_version a s"
    by blast+
qed

lemma secrets_ok_issue:
  assumes "secrets_ok s" "dicts_wf s"
  shows "secrets_ok (snd (issue_app_secret a g r i n s))"
proof -
  define f :: "app_secret_rec \<Rightarrow> app_secret_rec"
    where "f = (\<lambda>r. r\<lparr>a_status := ''grace'', a_grace_until := Some (n + of_int g)\<rparr>)"
  define s1 where "s1 = s\<lparr>app_secrets := dmap_first (is_current a) f (app_secrets s)\<rparr>"
  have s1: "app_secrets s1 = dmap_first (is_current a) f (app_secrets s)" by (simp add: s1_def)
  note d = secrets_ok_demote_current [OF assms s1]
  obtain c where c: "app_secrets (snd (issue_app_secret a g r i n s)) = dset (''sec_'' @ i) c (app_secrets s1)"
      "a_app_id c = a" "a_version c = next_version a s"
    by (simp add: issue_app_secret_def Let_def s1 f_def)
  have f: "\<And>v. a_app_id (f v) = a_app_id v" "\<And>v. a_version (f v) = a_version v"
    "\<And>v. a_status (f v) \<noteq> ''current''"
    by (simp_all add: f_def)
  show ?thesis
    by (rule secrets_ok_add [OF d(1) [OF f] c(1)], unfold c(2,3)) (erule d(2,3) [OF f], assumption?)+
qed

lemma secrets_ok_revoke:
  assumes "secrets_ok s" "dicts_wf s"
  shows "secrets_ok (snd (revoke_app_secret_version a v s))"
proof (cases "List.find (\<lambda>r. a_app_id r = a \<and> a_version r = v) (dvals (app_secrets s))")
  case None
  then have "snd (revoke_app_secret_version a v s) = s"
    unfolding revoke_app_secret_version_def Let_def by (simp only: option.case snd_conv)
  with assms(1) show ?thesis by (simp only:)
next
  case (Some w)
  define f :: "app_secret_rec \<Rightarrow> app_secret_rec"
    where "f = (\<lambda>r. r\<lparr>a_status := ''revoked'', a_grace_until := None\<rparr>)"
  have wf: "dict_wf (app_secrets s)" using assms(2) by (simp only: dicts_wf_def)
  obtain k where k: "dget (app_secrets s) k = Some w"
    "dmap_first (\<lambda>r. a_app_id r = a \<and> a_version r = v) f (app_secrets s) = dset k (f w) (app_secrets s)"
    using dmap_first_dset [OF wf Some] .
  have "snd (revoke_app_secret_version a v s) =
      s\<lparr>app_secrets := dmap_first (\<lambda>r. a_app_id r = a \<and> a_version r = v) f (app_secrets s)\<rparr>"
    unfolding revoke_app_secret_version_def Let_def f_def Some by (simp only: option.case snd_conv)
  then have "app_secrets (snd (revoke_app_secret_version a v s)) = dset k (f w) (app_secrets s)"
    by (simp add: k(2))
  then show ?thesis by (rule secrets_ok_demote [OF assms(1) k(1)]) (simp_all add: f_def)
qed

lemma secrets_ok_secret:
  assumes "secret_step s s'" "secrets_ok s" "dicts_wf s"
  shows "secrets_ok s'"
  using assms(1)
proof (cases rule: secret_step.cases)
  case (issue_app_secret a g r i n)
  with assms(2,3) show ?thesis by (simp add: secrets_ok_issue)
next
  case (revoke_app_secret_version a v)
  with assms(2,3) show ?thesis by (simp add: secrets_ok_revoke)
qed (rule secrets_ok_cong [OF _ assms(2)], simp add: secret_store_defs Let_def split: option.split)+

section \<open>Join requests\<close>

text \<open>A user has at most one pending request per tenant; a request is pending or decided.\<close>

definition joins_ok :: "store \<Rightarrow> bool" where
  "joins_ok s \<longleftrightarrow>
     (\<forall>q p a b. dget (join_requests s) q = Some a \<longrightarrow> dget (join_requests s) p = Some b \<longrightarrow>
        jr_tenant_id a = jr_tenant_id b \<longrightarrow> jr_user_id a = jr_user_id b \<longrightarrow>
        jr_status a = ''pending'' \<longrightarrow> jr_status b = ''pending'' \<longrightarrow> q = p) \<and>
     (\<forall>q a. dget (join_requests s) q = Some a \<longrightarrow>
        jr_status a \<in> {''pending'', ''approved'', ''rejected'', ''cancelled''} \<and>
        (jr_status a = ''pending'' \<longleftrightarrow> jr_decided_at a = None))"

lemma joins_okI:
  assumes "\<And>q p a b. dget (join_requests s) q = Some a \<Longrightarrow> dget (join_requests s) p = Some b \<Longrightarrow>
      jr_tenant_id a = jr_tenant_id b \<Longrightarrow> jr_user_id a = jr_user_id b \<Longrightarrow>
      jr_status a = ''pending'' \<Longrightarrow> jr_status b = ''pending'' \<Longrightarrow> q = p"
    and "\<And>q a. dget (join_requests s) q = Some a \<Longrightarrow>
      jr_status a \<in> {''pending'', ''approved'', ''rejected'', ''cancelled''} \<and>
      (jr_status a = ''pending'' \<longleftrightarrow> jr_decided_at a = None)"
  shows "joins_ok s"
  using assms unfolding joins_ok_def by blast

lemma joins_okD:
  assumes "joins_ok s"
  shows "dget (join_requests s) q = Some a \<Longrightarrow> dget (join_requests s) p = Some b \<Longrightarrow>
      jr_tenant_id a = jr_tenant_id b \<Longrightarrow> jr_user_id a = jr_user_id b \<Longrightarrow>
      jr_status a = ''pending'' \<Longrightarrow> jr_status b = ''pending'' \<Longrightarrow> q = p"
    and "dget (join_requests s) q = Some a \<Longrightarrow>
      jr_status a \<in> {''pending'', ''approved'', ''rejected'', ''cancelled''} \<and>
      (jr_status a = ''pending'' \<longleftrightarrow> jr_decided_at a = None)"
  using assms unfolding joins_ok_def by blast+

lemma joins_ok_cong: "join_requests s' = join_requests s \<Longrightarrow> joins_ok s \<Longrightarrow> joins_ok s'"
  unfolding joins_ok_def by (simp only:)

text \<open>
  Writing one request keeps the invariant when the new record is consistent and, if it is
  pending, no other request of the same user and tenant is.
\<close>

lemma joins_ok_write:
  assumes "joins_ok s" "join_requests s' = dset i c (join_requests s)"
    and c: "jr_status c \<in> {''pending'', ''approved'', ''rejected'', ''cancelled''}"
      "jr_status c = ''pending'' \<longleftrightarrow> jr_decided_at c = None"
    and only: "\<And>k v. jr_status c = ''pending'' \<Longrightarrow> dget (join_requests s) k = Some v \<Longrightarrow>
      \<not> pending_for (jr_tenant_id c) (jr_user_id c) v"
  shows "joins_ok s'"
proof (rule joins_okI)
  fix q a assume "dget (join_requests s') q = Some a"
  then have "a = c \<or> dget (join_requests s) q = Some a"
    by (cases "q = i") (simp_all add: assms(2) dget_dset)
  then show "jr_status a \<in> {''pending'', ''approved'', ''rejected'', ''cancelled''} \<and>
      (jr_status a = ''pending'' \<longleftrightarrow> jr_decided_at a = None)"
    using c joins_okD(2) [OF assms(1), of q a] by metis
next
  fix q p a b
  assume a: "dget (join_requests s') q = Some a" and b: "dget (join_requests s') p = Some b"
    and same: "jr_tenant_id a = jr_tenant_id b" "jr_user_id a = jr_user_id b"
    and pend: "jr_status a = ''pending''" "jr_status b = ''pending''"
  have split: "k = i \<and> v = c \<or> k \<noteq> i \<and> dget (join_requests s) k = Some v"
    if "dget (join_requests s') k = Some v" for k v
    using that by (cases "k = i") (simp_all add: assms(2) dget_dset)
  show "q = p"
    using split [OF a] split [OF b] same pend only joins_okD(1) [OF assms(1), of q a p b]
    unfolding pending_for_def by metis
qed

lemma joins_ok_join:
  assumes "join_step s s'" "joins_ok s" "dicts_wf s"
  shows "joins_ok s'"
  using assms(1)
proof (cases rule: join_step.cases)
  case (create_join_request q t u n)
  show ?thesis
  proof (cases "list_ex (pending_for t u) (dvals (join_requests s))")
    case True
    then have "join_requests s' = join_requests s"
      by (simp add: create_join_request create_join_request_def)
    then show ?thesis by (rule joins_ok_cong) (rule assms(2))
  next
    case False
    let ?c = "\<lparr>jr_request_id = q, jr_tenant_id = t, jr_user_id = u, jr_status = ''pending'',
      jr_decided_by = None, jr_decided_at = None, jr_created_at = n\<rparr>"
    have eq: "join_requests s' = dset q ?c (join_requests s)"
      using False by (simp add: create_join_request create_join_request_def Let_def)
    have "\<not> pending_for t u v" if "dget (join_requests s) k = Some v" for k v
      using False dget_in_dvals [OF that] by (auto simp: list_ex_iff)
    then show ?thesis by (intro joins_ok_write [OF assms(2) eq]) simp_all
  qed
next
  case (decide_join_request q st b n)
  show ?thesis
  proof (cases rule: decide_join_request_cases [of q st b n s])
    case (decided r r')
    have eq: "join_requests s' = dset q r' (join_requests s)"
      unfolding decide_join_request decided(5) by simp
    from decided(3) have "st \<noteq> ''pending''" by auto
    with decided(3,4) show ?thesis by (intro joins_ok_write [OF assms(2) eq]) simp_all
  qed (use assms(2) in \<open>simp_all add: decide_join_request\<close>)
qed (rule joins_ok_cong [OF _ assms(2)], simp add: join_store_defs Let_def split: option.split)+

section \<open>Refresh tokens\<close>

definition refresh_ok :: "store \<Rightarrow> bool" where
  "refresh_ok s \<longleftrightarrow>
     (\<forall>j r. dget (refresh_tokens s) j = Some r \<longrightarrow>
        rt_jti r = j \<and> rt_status r \<in> {''active'', ''rotated'', ''revoked''})"

lemma refresh_ok_cong: "refresh_tokens s' = refresh_tokens s \<Longrightarrow> refresh_ok s \<Longrightarrow> refresh_ok s'"
  by (simp add: refresh_ok_def)

lemma refresh_ok_token:
  assumes "token_step s s'" "refresh_ok s"
  shows "refresh_ok s'"
  using assms(1)
proof (cases rule: token_step.cases)
  case (revoke_user_issued_jtis v u r n)
  have "refresh_tokens s' = refresh_tokens s"
    unfolding revoke_user_issued_jtis by (subst revoke_user_issued_frame, simp)
  then show ?thesis by (rule refresh_ok_cong) (rule assms(2))
qed (use assms(2) in \<open>auto simp: refresh_ok_def token_store_defs Let_def dget_dset dget_dmap
       split: option.splits if_splits\<close>)

lemma refresh_ok_delete_tenant:
  "refresh_ok s \<Longrightarrow> refresh_ok (snd (delete_tenant t n s))"
  by (auto simp: refresh_ok_def delete_tenant_def dget_dmap split: option.splits)

section \<open>Tenants\<close>

text \<open>
  A tenant is filed under its id, has a quota and a known join policy, and carries no
  disabling time while it is active.
\<close>

definition tenants_ok :: "store \<Rightarrow> bool" where
  "tenants_ok s \<longleftrightarrow>
     (\<forall>t x. dget (tenants s) t = Some x \<longrightarrow>
        t_tenant_id x = t \<and> t_join_policy x \<in> set JOIN_POLICIES \<and>
        (t_status x = ''active'' \<longrightarrow> t_disabled_at x = None) \<and> dget (quotas s) t \<noteq> None)"

lemma tenants_ok_cong:
  "tenants s' = tenants s \<Longrightarrow> quotas s' = quotas s \<Longrightarrow> tenants_ok s \<Longrightarrow> tenants_ok s'"
  by (simp add: tenants_ok_def)

lemma tenants_ok_tenant:
  assumes "tenant_step s s'" "tenants_ok s"
  shows "tenants_ok s'"
  using assms(1)
proof (cases rule: tenant_step.cases)
  case (update_tenant t f n)
  with assms(2) show ?thesis
    by (auto simp: tenants_ok_def update_tenant_def Let_def dget_dset upd_opt_def
        split: option.splits if_splits)
qed (use assms(2) in \<open>auto simp: tenants_ok_def tenant_store_defs Let_def dget_dset
       split: option.splits if_splits\<close>)

lemma tenants_ok_delete_tenant:
  "tenants_ok s \<Longrightarrow> tenants_ok (snd (delete_tenant t n s))"
  by (auto simp: tenants_ok_def delete_tenant_def dget_dset split: option.splits if_splits)

section \<open>The store invariant\<close>

lemmas step_frames = tenant_step_frame user_step_frame rbac_step_frame secret_step_frame
  join_step_frame token_step_frame log_step_frame

lemma delete_tenant_frame:
  "app_secrets (snd (delete_tenant t n s)) = app_secrets s"
  "join_requests (snd (delete_tenant t n s)) = join_requests s"
  "quotas (snd (delete_tenant t n s)) = quotas s"
  "audit (snd (delete_tenant t n s)) = audit s"
  "seq_audit (snd (delete_tenant t n s)) = seq_audit s"
  "audit_tail_hash (snd (delete_tenant t n s)) = audit_tail_hash s"
  "events (snd (delete_tenant t n s)) = events s"
  "event_seq (snd (delete_tenant t n s)) = event_seq s"
  "usage (snd (delete_tenant t n s)) = usage s"
  "lease_log (snd (delete_tenant t n s)) = lease_log s"
  by (simp_all add: delete_tenant_def split: option.split)

lemma keys_ok_step:
  assumes "store_step K fr s s'" "keys_ok s" "dicts_wf s"
  shows "keys_ok s'"
  using assms(1)
proof (cases rule: store_step.cases)
  case (delete_tenant t n)
  with assms(2,3) show ?thesis by (simp add: keys_ok_delete_tenant)
next
  case secret
  then show ?thesis using assms(2) by (rule keys_ok_secret)
qed (rule keys_ok_cong [OF _ _ assms(2)]; erule step_frames)+

lemma secrets_ok_step:
  assumes "store_step K fr s s'" "secrets_ok s" "dicts_wf s"
  shows "secrets_ok s'"
  using assms(1)
proof (cases rule: store_step.cases)
  case (delete_tenant t n)
  show ?thesis unfolding delete_tenant
    by (rule secrets_ok_cong [OF delete_tenant_frame(1) assms(2)])
next
  case secret
  then show ?thesis using assms(2,3) by (rule secrets_ok_secret)
qed (rule secrets_ok_cong [OF _ assms(2)]; erule step_frames)+

lemma joins_ok_step:
  assumes "store_step K fr s s'" "joins_ok s" "dicts_wf s"
  shows "joins_ok s'"
  using assms(1)
proof (cases rule: store_step.cases)
  case (delete_tenant t n)
  show ?thesis unfolding delete_tenant
    by (rule joins_ok_cong [OF delete_tenant_frame(2) assms(2)])
next
  case join
  then show ?thesis using assms(2,3) by (rule joins_ok_join)
qed (rule joins_ok_cong [OF _ assms(2)]; erule step_frames)+

lemma refresh_ok_step:
  assumes "store_step K fr s s'" "refresh_ok s"
  shows "refresh_ok s'"
  using assms(1)
proof (cases rule: store_step.cases)
  case (delete_tenant t n)
  with assms(2) show ?thesis by (simp add: refresh_ok_delete_tenant)
next
  case token
  then show ?thesis using assms(2) by (rule refresh_ok_token)
qed (rule refresh_ok_cong [OF _ assms(2)]; erule step_frames)+

lemma tenants_ok_step:
  assumes "store_step K fr s s'" "tenants_ok s"
  shows "tenants_ok s'"
  using assms(1)
proof (cases rule: store_step.cases)
  case (delete_tenant t n)
  with assms(2) show ?thesis by (simp add: tenants_ok_delete_tenant)
next
  case tenant
  then show ?thesis using assms(2) by (rule tenants_ok_tenant)
qed (rule tenants_ok_cong [OF _ _ assms(2)]; erule step_frames)+

lemma seqs_ok_cong:
  "audit s' = audit s \<Longrightarrow> seq_audit s' = seq_audit s \<Longrightarrow> events s' = events s \<Longrightarrow>
     event_seq s' = event_seq s \<Longrightarrow> usage s' = usage s \<Longrightarrow> lease_log s' = lease_log s \<Longrightarrow>
     seqs_ok s \<Longrightarrow> seqs_ok s'"
  by (simp add: seqs_ok_def)

lemma logs_ok_step:
  assumes "store_step K fr s s'" "seqs_ok s" "chains_ok fr s"
  shows "seqs_ok s' \<and> chains_ok fr s'"
proof
  show "seqs_ok s'"
    using assms(1)
  proof (cases rule: store_step.cases)
    case (delete_tenant t n)
    show ?thesis unfolding delete_tenant
      by (rule seqs_ok_cong [OF _ _ _ _ _ _ assms(2)]) (rule delete_tenant_frame)+
  next
    case log
    then show ?thesis using assms(2) by (rule seqs_ok_log)
  qed (rule seqs_ok_cong [OF _ _ _ _ _ _ assms(2)]; erule step_frames)+
  show "chains_ok fr s'"
    using assms(1)
  proof (cases rule: store_step.cases)
    case (delete_tenant t n)
    show ?thesis unfolding delete_tenant
      by (rule chains_ok_cong [OF _ _ _ assms(3)]) (rule delete_tenant_frame)+
  next
    case log
    then show ?thesis using assms(3,2) by (rule chains_ok_log)
  qed (rule chains_ok_cong [OF _ _ _ assms(3)]; erule step_frames)+
qed

definition store_inv :: "(real \<Rightarrow> string) \<Rightarrow> store \<Rightarrow> bool" where
  "store_inv fr s \<longleftrightarrow> dicts_wf s \<and> tenants_ok s \<and> member_roles_ok s \<and> custom_roles_ok s \<and>
     menus_ok s \<and> keys_ok s \<and> secrets_ok s \<and> joins_ok s \<and> refresh_ok s \<and> seqs_ok s \<and>
     chains_ok fr s"

lemma store_inv_init: "store_inv fr empty_store"
  by (simp add: store_inv_def empty_store_def dicts_wf_def tenants_ok_def member_roles_ok_def
      custom_roles_ok_def tenant_custom_roles_def menus_ok_def keys_ok_def secrets_ok_def joins_ok_def
      refresh_ok_def seqs_ok_def chains_ok_def tenant_rows_def tail_hash_def)

lemma store_inv_step:
  assumes "store_step K fr s s'" "store_inv fr s"
  shows "store_inv fr s'"
  using assms dicts_wf_step [OF assms(1)] tenants_ok_step [OF assms(1)]
    member_roles_ok_step [OF assms(1)] custom_roles_ok_step [OF assms(1)] menus_ok_step [OF assms(1)]
    keys_ok_step [OF assms(1)] secrets_ok_step [OF assms(1)] joins_ok_step [OF assms(1)]
    refresh_ok_step [OF assms(1)] logs_ok_step [OF assms(1)]
  unfolding store_inv_def by blast

lemma reachable_inv: "reachable K fr s \<Longrightarrow> store_inv fr s"
  by (induction rule: reachable.induct) (blast intro: store_inv_init store_inv_step)+

lemma reachable_invD:
  assumes "reachable K fr s"
  shows "dicts_wf s" "tenants_ok s" "member_roles_ok s" "custom_roles_ok s" "menus_ok s"
    "keys_ok s" "secrets_ok s" "joins_ok s" "refresh_ok s" "seqs_ok s" "chains_ok fr s"
  using reachable_inv [OF assms] unfolding store_inv_def by blast+

end
