(* ===== verification/Store_Tickets.thy ===== *)
theory Store_Tickets
  imports Store_Integrity
begin

text \<open>
  Single-use material of the store as instances of the contract \<open>one_shot\<close>: SSO tickets,
  invitations, password-reset tokens, e-mail verification tokens and refresh-token
  rotation. Each instance gives that, over any sequence of attempts at any times, one token
  is redeemed at most once.
\<close>

section \<open>SSO tickets\<close>

definition ticket_live :: "time \<Rightarrow> string \<Rightarrow> store \<Rightarrow> bool" where
  "ticket_live now h s \<longleftrightarrow>
     (\<exists>r. dget (sso_tickets s) h = Some r \<and> tk_used_at r = None \<and> now < tk_expires_at r)"

lemma consume_sso_ticket_cases:
  obtains (refused) "\<not> ticket_live now h s" "consume_sso_ticket now h s = (None, s)"
  | (redeemed) r where "ticket_live now h s" "dget (sso_tickets s) h = Some r"
      "consume_sso_ticket now h s = (Some (r\<lparr>tk_used_at := Some now\<rparr>),
         s\<lparr>sso_tickets := dset h (r\<lparr>tk_used_at := Some now\<rparr>) (sso_tickets s)\<rparr>)"
proof (cases "ticket_live now h s")
  case True
  then obtain r where "dget (sso_tickets s) h = Some r" "tk_used_at r = None" "now < tk_expires_at r"
    by (auto simp: ticket_live_def)
  then show ?thesis using True by (intro redeemed) (simp_all add: consume_sso_ticket_def Let_def)
next
  case False
  then show ?thesis
    by (intro refused) (auto simp: ticket_live_def consume_sso_ticket_def split: option.split)
qed

lemma ticket_live_used:
  "ticket_live now' h' (s\<lparr>sso_tickets := dset h (r\<lparr>tk_used_at := Some now\<rparr>) (sso_tickets s)\<rparr>) \<longleftrightarrow>
     h' \<noteq> h \<and> ticket_live now' h' s"
  by (simp add: ticket_live_def dget_dset)

interpretation ticket: one_shot consume_sso_ticket ticket_live "\<lambda>s. True"
proof
  fix s :: store and now h
  show "fst (consume_sso_ticket now h s) \<noteq> None \<longleftrightarrow> ticket_live now h s"
    by (cases rule: consume_sso_ticket_cases [of now h s]) simp_all
  show "\<not> ticket_live now h s \<Longrightarrow> snd (consume_sso_ticket now h s) = s"
    by (cases rule: consume_sso_ticket_cases [of now h s]) simp_all
  show "ticket_live now h s \<Longrightarrow> \<not> ticket_live now' h (snd (consume_sso_ticket now h s))" for now'
    by (cases rule: consume_sso_ticket_cases [of now h s]) (simp_all add: ticket_live_used)
  show "h' \<noteq> h \<Longrightarrow> ticket_live now' h' (snd (consume_sso_ticket now h s)) = ticket_live now' h' s"
    for h' now'
    by (cases rule: consume_sso_ticket_cases [of now h s]) (simp_all add: ticket_live_used)
qed simp

section \<open>Invitations\<close>

definition redeem_invite :: "string \<Rightarrow> time \<Rightarrow> string \<Rightarrow> store \<Rightarrow> unit option \<times> store" where
  "redeem_invite u now i s =
    (case mark_invite_used i u now s of (ok, s') \<Rightarrow> (if ok then Some () else None, s'))"

definition invite_live :: "time \<Rightarrow> string \<Rightarrow> store \<Rightarrow> bool" where
  "invite_live now i s \<longleftrightarrow> (\<exists>r. dget (invites s) i = Some r \<and> in_used_at r = None)"

interpretation invite: one_shot "redeem_invite u" invite_live "\<lambda>s. True" for u
  by unfold_locales
    (auto simp: redeem_invite_def invite_live_def mark_invite_used_def dget_dset split: option.splits)

section \<open>Refresh-token rotation\<close>

text \<open>Each attempt draws its own id for the replacement.\<close>

definition rotate_once :: "string \<Rightarrow> string \<Rightarrow> store \<Rightarrow> unit option \<times> store" where
  "rotate_once new j s =
    (case rotate_refresh_token j new s of (ok, s') \<Rightarrow> (if ok then Some () else None, s'))"

definition refresh_live :: "string \<Rightarrow> store \<Rightarrow> bool" where
  "refresh_live j s \<longleftrightarrow> (\<exists>r. dget (refresh_tokens s) j = Some r \<and> rt_status r = ''active'')"

interpretation rotation: one_shot rotate_once "\<lambda>new. refresh_live" "\<lambda>s. True"
  by unfold_locales
    (auto simp: rotate_once_def refresh_live_def rotate_refresh_token_def dget_dset
      split: option.splits if_splits)

section \<open>Reset and verification tokens\<close>

text \<open>
  Both token kinds sit in the user record and are found by a scan over the users, so the
  contract needs that no two users carry the same token hash.
\<close>

definition token_unique :: "(user_rec \<Rightarrow> string option) \<Rightarrow> store \<Rightarrow> bool" where
  "token_unique tok s \<longleftrightarrow> dict_wf (users s) \<and>
     (\<forall>i j a b h. dget (users s) i = Some a \<longrightarrow> dget (users s) j = Some b \<longrightarrow>
        tok a = Some h \<longrightarrow> tok b = Some h \<longrightarrow> i = j)"

definition token_live ::
  "(user_rec \<Rightarrow> string option) \<Rightarrow> (user_rec \<Rightarrow> time option) \<Rightarrow> time \<Rightarrow> string \<Rightarrow> store \<Rightarrow> bool" where
  "token_live tok ex now h s \<longleftrightarrow>
     (\<exists>i u. dget (users s) i = Some u \<and> tok u = Some h \<and> \<not> expired_at (ex u) now)"

text \<open>Finding a token by its hash finds the user that carries it.\<close>

lemma find_token:
  assumes "token_unique tok s" "dget (users s) i = Some u" "tok u = Some h"
  shows "List.find (\<lambda>v. tok v = Some h) (dvals (users s)) = Some u"
proof -
  have "List.find (\<lambda>v. tok v = Some h) (dvals (users s)) \<noteq> None"
    using dget_in_dvals [OF assms(2)] assms(3) by (auto simp: find_None_iff)
  then obtain v where v: "List.find (\<lambda>v. tok v = Some h) (dvals (users s)) = Some v" by blast
  have wf: "dict_wf (users s)" using assms(1) by (simp add: token_unique_def)
  obtain k where k: "dget (users s) k = Some v" "tok v = Some h"
    using dmap_first_dset [OF wf v] by metis
  with assms have "k = i" unfolding token_unique_def by metis
  with k(1) assms(2) v show ?thesis by simp
qed

text \<open>
  A scan that clears the token of the user it finds meets the contract. \<open>consume\<close> stands
  for either operation; \<open>clear\<close> is the record update it makes.
\<close>

lemma scan_one_shot:
  assumes consume: "\<And>now h s. consume now h s =
      (case List.find (\<lambda>u. tok u = Some h) (dvals (users s)) of
         None \<Rightarrow> (None, s)
       | Some u \<Rightarrow> if expired_at (ex u) now then (None, s)
           else (Some (u_user_id u), s\<lparr>users := dmap_first (\<lambda>u. tok u = Some h) clear (users s)\<rparr>))"
    and clear: "\<And>u. tok (clear u) = None"
  shows "one_shot consume (token_live tok ex) (token_unique tok)"
proof -
  have live: "\<exists>i u. dget (users s) i = Some u \<and> tok u = Some h \<and> \<not> expired_at (ex u) now \<and>
      consume now h s = (Some (u_user_id u), s\<lparr>users := dset i (clear u) (users s)\<rparr>)"
    if uniq: "token_unique tok s" and lv: "token_live tok ex now h s" for now h s
  proof -
    obtain i u where u: "dget (users s) i = Some u" "tok u = Some h" "\<not> expired_at (ex u) now"
      using lv unfolding token_live_def by blast
    note f = find_token [OF uniq u(1,2)]
    have wf: "dict_wf (users s)" using uniq by (simp add: token_unique_def)
    obtain k where k: "dget (users s) k = Some u"
      "dmap_first (\<lambda>u. tok u = Some h) clear (users s) = dset k (clear u) (users s)"
      using dmap_first_dset [OF wf f] .
    have "k = i" using uniq k(1) u(1,2) unfolding token_unique_def by blast
    with k f u show ?thesis by (auto simp: consume)
  qed
  have dead: "consume now h s = (None, s)"
    if uniq: "token_unique tok s" and "\<not> token_live tok ex now h s" for now h s
  proof (cases "List.find (\<lambda>u. tok u = Some h) (dvals (users s))")
    case None
    then show ?thesis by (simp add: consume)
  next
    case (Some u)
    have wf: "dict_wf (users s)" using uniq by (simp add: token_unique_def)
    obtain k where "dget (users s) k = Some u" "tok u = Some h" using dmap_first_dset [OF wf Some] by metis
    with that(2) have "expired_at (ex u) now" unfolding token_live_def by blast
    with Some show ?thesis by (simp add: consume)
  qed
  have cleared: "token_live tok ex now' h' (s\<lparr>users := dset i (clear u) (users s)\<rparr>) \<longleftrightarrow>
      h' \<noteq> h \<and> token_live tok ex now' h' s"
    if "token_unique tok s" "dget (users s) i = Some u" "tok u = Some h" for s i u h now' h'
  proof
    assume "token_live tok ex now' h' (s\<lparr>users := dset i (clear u) (users s)\<rparr>)"
    then obtain j v where v: "dget (dset i (clear u) (users s)) j = Some v" "tok v = Some h'"
      "\<not> expired_at (ex v) now'" unfolding token_live_def by auto
    then have ji: "j \<noteq> i" using clear by (auto simp: dget_dset)
    with v(1) have j: "dget (users s) j = Some v" by (simp add: dget_dset)
    with ji that v(2) have "h' \<noteq> h" unfolding token_unique_def by metis
    with j v show "h' \<noteq> h \<and> token_live tok ex now' h' s" unfolding token_live_def by blast
  next
    assume r: "h' \<noteq> h \<and> token_live tok ex now' h' s"
    then obtain j v where v: "dget (users s) j = Some v" "tok v = Some h'" "\<not> expired_at (ex v) now'"
      unfolding token_live_def by blast
    with r that(2,3) have "j \<noteq> i" by auto
    with v have "dget (dset i (clear u) (users s)) j = Some v" by (simp add: dget_dset)
    with v(2,3) show "token_live tok ex now' h' (s\<lparr>users := dset i (clear u) (users s)\<rparr>)"
      unfolding token_live_def by auto
  qed
  have kept: "token_unique tok (s\<lparr>users := dset i (clear u) (users s)\<rparr>)"
    if "token_unique tok s" for s i u
  proof -
    have "k = l" if "dget (dset i (clear u) (users s)) k = Some a" "dget (dset i (clear u) (users s)) l = Some b"
      "tok a = Some h" "tok b = Some h" for k l a b h
      using that clear \<open>token_unique tok s\<close> unfolding token_unique_def dget_dset
      by (metis option.distinct(1) option.inject)
    moreover have "dict_wf (users s)" using that unfolding token_unique_def by blast
    ultimately show ?thesis unfolding token_unique_def by (simp add: distinct_update)
  qed
  show ?thesis
  proof
    fix s now h
    assume u: "token_unique tok s"
    show "fst (consume now h s) \<noteq> None \<longleftrightarrow> token_live tok ex now h s"
      using live [OF u] dead [OF u] by (metis fst_conv option.distinct(1))
    show "\<not> token_live tok ex now h s \<Longrightarrow> snd (consume now h s) = s"
      using dead [OF u] by (metis snd_conv)
    show "token_live tok ex now h s \<Longrightarrow> \<not> token_live tok ex now' h (snd (consume now h s))" for now'
      using live [OF u] cleared [OF u] by (metis snd_conv)
    show "token_unique tok (snd (consume now h s))"
      using live [OF u] dead [OF u] kept [OF u] u by (metis snd_conv)
    show "h' \<noteq> h \<Longrightarrow> token_live tok ex now' h' (snd (consume now h s)) = token_live tok ex now' h' s"
      for h' now'
      using live [OF u] dead [OF u] cleared [OF u] by (metis snd_conv)
  qed
qed

interpretation reset: one_shot consume_password_reset_token
  "token_live u_password_reset_token_hash u_password_reset_expires"
  "token_unique u_password_reset_token_hash"
  by (rule scan_one_shot [where clear = "\<lambda>u. u\<lparr>u_password_reset_token_hash := None,
        u_password_reset_expires := None\<rparr>"])
    (simp_all add: consume_password_reset_token_def Let_def)

interpretation email: one_shot verify_email_token
  "token_live u_email_verify_token_hash u_email_verify_expires"
  "token_unique u_email_verify_token_hash"
  by (rule scan_one_shot [where clear = "\<lambda>u. u\<lparr>u_email_verified := True,
        u_email_verify_token_hash := None, u_email_verify_expires := None\<rparr>"])
    (simp_all add: verify_email_token_def Let_def)

end
