(* ===== verification/Store_Properties.thy ===== *)
theory Store_Properties
  imports Store_Tickets
begin

text \<open>
  What the in-memory store promises its callers, over every reachable store: roles resolve,
  key lookups return live keys, an app has one current secret, deleting a tenant removes all
  its access and nothing else, the audit chain verifies and binds its rows, single-use
  material is used once.
\<close>

section \<open>Example stores\<close>

text \<open>
  A small run used by the witnesses: a tenant, a custom role, a member with that role, an
  application secret and an audit record. The hasher of the example tags the password.
\<close>

definition demo_kdf :: kdf where
  "demo_kdf = \<lparr>argon2_hash = (\<lambda>p salt. CHR ''h'' # p),
     argon2_verify = (\<lambda>h p. if h = CHR ''h'' # p then ArgonOk else ArgonMismatch),
     argon2_needs_rehash = (\<lambda>h. False), scrypt_raw = (\<lambda>p salt. p @ salt)\<rparr>"

definition demo_fr :: "real \<Rightarrow> string" where
  "demo_fr x = ''0.0''"

definition demo1 :: store where
  "demo1 = snd (create_tenant ''acme'' ''Acme'' ''standard'' ''open'' 1 empty_store)"

definition demo2 :: store where
  "demo2 = snd (create_custom_role ''acme'' ''auditor'' ''Auditor'' [] 2 demo1)"

definition demo3 :: store where
  "demo3 = snd (add_member ''acme'' ''u1'' ''auditor'' None 3 demo2)"

definition demo4 :: store where
  "demo4 = snd (create_api_key ''acme'' None [] ''r'' ''1'' 4 demo3)"

definition demo5 :: store where
  "demo5 = snd (append_audit demo_fr ''acme'' None None None ''login'' None JNull 5 demo4)"

lemma valid_auditor: "valid_id ''auditor''"
  by code_simp

lemma not_builtin_auditor: "\<not> builtin_role ''auditor''"
  by code_simp

lemmas demo_defs = demo1_def demo2_def demo3_def demo4_def demo5_def empty_store_def
  create_tenant_def create_custom_role_def add_member_def create_api_key_def append_audit_def
  push_audit_def capped_append_def AUDIT_CAP_def is_valid_role_def tenant_custom_roles_def
  JOIN_POLICIES_def MAX_CUSTOM_ROLES_PER_TENANT_def valid_write_classes_def Let_def

lemma demo_members: "dget (members demo5) (''acme'', ''u1'') =
    Some \<lparr>m_tenant_id = ''acme'', m_user_id = ''u1'', m_role = ''auditor'', m_added_by = None,
          m_added_at = 3, m_joined_at = 3\<rparr>"
  by (simp add: demo_defs valid_auditor not_builtin_auditor)

lemma demo_keys: "get_api_key_by_hash (sha256_hash ''fmu_r'') demo5 =
    Some \<lparr>k_key_id = ''key_1'', k_tenant_id = ''acme'', k_user_id = None,
          k_key_hash = sha256_hash ''fmu_r'', k_prefix = ''fmu_r****'', k_scopes = [],
          k_created_at = 4, k_revoked_at = None\<rparr>"
  by (simp add: demo_defs valid_auditor not_builtin_auditor get_api_key_by_hash_def)

lemma demo_tenant: "get_tenant ''acme'' demo5 \<noteq> None"
  by (simp add: demo_defs valid_auditor not_builtin_auditor get_tenant_def)

lemma demo_fresh_key: "dget (api_keys demo3) (''key_'' @ ''1'') = None"
  by (simp add: demo_defs valid_auditor not_builtin_auditor)

lemma demo_reachable: "reachable demo_kdf demo_fr demo5"
proof -
  have 1: "reachable demo_kdf demo_fr demo1"
    unfolding demo1_def
    by (rule reachable.step [OF reachable.init store_step.tenant]) (rule tenant_step.create_tenant)
  have 2: "reachable demo_kdf demo_fr demo2"
    unfolding demo2_def
    by (rule reachable.step [OF 1 store_step.rbac]) (rule rbac_step.create_custom_role)
  have 3: "reachable demo_kdf demo_fr demo3"
    unfolding demo3_def by (rule reachable.step [OF 2 store_step.user]) (rule user_step.add_member)
  have 4: "reachable demo_kdf demo_fr demo4"
    unfolding demo4_def
    by (rule reachable.step [OF 3 store_step.secret]) (rule secret_step.create_api_key, rule demo_fresh_key)
  show ?thesis
    unfolding demo5_def by (rule reachable.step [OF 4 store_step.log]) (rule log_step.append_audit)
qed

section \<open>Roles\<close>

text \<open>
  C21: a membership never dangles. In every reachable store the role a member holds resolves
  in the tenant, although custom roles can be deleted and tenants removed: deleting a role in
  use is refused and deleting a tenant takes its memberships along.
\<close>

theorem member_role_resolves:
  assumes "reachable K fr s" "get_member_role t u s = Some r"
  shows "\<exists>v. get_role t r s = Some v"
proof -
  obtain m where "dget (members s) (t, u) = Some m" "m_role m = r"
    using assms(2) by (auto simp: get_member_role_def)
  then have "is_valid_role t r s"
    using reachable_invD(3) [OF assms(1)] unfolding member_roles_ok_def by blast
  then show ?thesis using get_role_valid [of t r s] by blast
qed

theorem member_role_resolves_witness:
  "get_member_role ''acme'' ''u1'' demo5 = Some ''auditor'' \<and>
   (\<exists>v. get_role ''acme'' ''auditor'' demo5 = Some v)"
proof -
  have "get_member_role ''acme'' ''u1'' demo5 = Some ''auditor''"
    by (simp add: get_member_role_def demo_members)
  then show ?thesis using member_role_resolves [OF demo_reachable] by blast
qed

section \<open>API keys\<close>

text \<open>
  C22: looking a key up by hash finds only live keys. In every reachable store the record
  found has that hash, is not revoked and is the record filed under its id; and once a key is
  revoked no lookup returns it any more.
\<close>

theorem api_key_lookup_sound:
  assumes "reachable K fr s" "get_api_key_by_hash h s = Some k"
  shows "k_key_hash k = h \<and> k_revoked_at k = None \<and> dget (api_keys s) (k_key_id k) = Some k \<and>
    (\<forall>h' k' now. get_api_key_by_hash h' (snd (revoke_api_key (k_key_id k) now s)) = Some k' \<longrightarrow>
       k_key_id k' \<noteq> k_key_id k)"
proof -
  obtain kid where kid: "dget (key_hash_index s) h = Some kid" "dget (api_keys s) kid = Some k"
    using assms(2) by (auto simp: get_api_key_by_hash_def split: option.splits if_splits)
  note ok = reachable_invD(6) [OF assms(1)]
  have k: "k_key_hash k = h" "k_revoked_at k = None" "k_key_id k = kid"
    using keys_okD [OF ok kid(1)] kid(2) ok unfolding keys_ok_def by auto
  have "k_key_id k' \<noteq> kid"
    if f: "get_api_key_by_hash h' (snd (revoke_api_key kid now s)) = Some k'" for h' k' now
  proof -
    let ?s' = "snd (revoke_api_key kid now s)"
    have ok': "keys_ok ?s'" by (rule keys_ok_secret [OF secret_step.revoke_api_key ok])
    obtain kid' where k': "dget (key_hash_index ?s') h' = Some kid'" "dget (api_keys ?s') kid' = Some k'"
      using f by (auto simp: get_api_key_by_hash_def split: option.splits if_splits)
    have "dget (api_keys ?s') kid = Some (k\<lparr>k_revoked_at := Some now\<rparr>)"
      using kid(2) by (simp add: revoke_api_key_def dget_dset)
    moreover have "k_revoked_at k' = None" "k_key_id k' = kid'"
      using keys_okD [OF ok' k'(1)] k'(2) ok' unfolding keys_ok_def by auto
    ultimately show ?thesis using k'(2) by auto
  qed
  with k kid(2) show ?thesis by blast
qed

theorem api_key_lookup_sound_witness:
  "\<exists>k. get_api_key_by_hash (sha256_hash ''fmu_r'') demo5 = Some k \<and> k_revoked_at k = None"
  using api_key_lookup_sound [OF demo_reachable demo_keys] demo_keys by blast

section \<open>Application secrets\<close>

text \<open>
  C23: issuing a secret makes it the one current secret of its app. In every reachable store
  the record issued is what \<open>get_current_app_secret\<close> returns, its version is above every
  version the app had, and every other record of the app is out of currency.
\<close>

theorem issued_secret_is_current:
  assumes "reachable K fr s" "issue_app_secret app grace raw_rnd id_rnd now s = ((raw, rec, prev), s')"
  shows "get_current_app_secret app s' = Some rec \<and>
    (\<forall>v \<in> set (app_versions app s). v < a_version rec) \<and>
    (\<forall>i r. dget (app_secrets s') i = Some r \<and> is_current app r \<longrightarrow> r = rec)"
proof -
  have s': "s' = snd (issue_app_secret app grace raw_rnd id_rnd now s)" by (simp add: assms(2))
  have rec: "dget (app_secrets s') (''sec_'' @ id_rnd) = Some rec" "is_current app rec"
    "a_version rec = next_version app s"
    using assms(2) by (auto simp: issue_app_secret_def Let_def dget_dset is_current_def)
  have ok: "secrets_ok s'"
    unfolding s' by (rule secrets_ok_issue [OF reachable_invD(7,1) [OF assms(1)]])
  have wf: "dict_wf (app_secrets s')"
    using reachable_invD(1) [OF assms(1)] by (simp add: s' dicts_wf_def issue_app_secret_def Let_def distinct_update)
  have only: "r = rec" if r: "dget (app_secrets s') i = Some r" "is_current app r" for i r
  proof -
    have "i = ''sec_'' @ id_rnd"
      using secrets_okD [OF ok r(1) rec(1)] r(2) rec(2) unfolding is_current_def by metis
    with r(1) rec(1) show ?thesis by simp
  qed
  have "List.find (is_current app) (dvals (app_secrets s')) \<noteq> None"
    using dget_in_dvals [OF rec(1)] rec(2) by (auto simp: find_None_iff)
  then obtain r where r: "List.find (is_current app) (dvals (app_secrets s')) = Some r" by blast
  then obtain i where "dget (app_secrets s') i = Some r" "is_current app r"
    using dmap_first_dset [OF wf r] by metis
  with only r have "get_current_app_secret app s' = Some rec"
    by (simp add: get_current_app_secret_def)
  with only show ?thesis unfolding rec(3) by (blast intro: next_version_above)
qed

text \<open>A second secret of the same app, with the first one still current.\<close>

definition demo_secret :: store where
  "demo_secret = snd (issue_app_secret ''app'' 60 ''a'' ''1'' 5 empty_store)"

theorem issued_secret_is_current_witness:
  "\<exists>raw rec prev s' first. get_current_app_secret ''app'' demo_secret = Some first \<and>
     issue_app_secret ''app'' 60 ''b'' ''2'' 6 demo_secret = ((raw, rec, prev), s') \<and>
     get_current_app_secret ''app'' s' = Some rec \<and> a_version first < a_version rec"
proof -
  obtain raw rec prev s' where i: "issue_app_secret ''app'' 60 ''b'' ''2'' 6 demo_secret = ((raw, rec, prev), s')"
    by (metis prod.exhaust)
  have r: "reachable demo_kdf demo_fr demo_secret"
    unfolding demo_secret_def
    by (rule reachable.step [OF reachable.init store_step.secret [OF secret_step.issue_app_secret]])
  obtain first where f: "get_current_app_secret ''app'' demo_secret = Some first"
      "a_version first \<in> set (app_versions ''app'' demo_secret)"
    by (simp add: demo_secret_def issue_app_secret_def Let_def empty_store_def get_current_app_secret_def
        is_current_def app_versions_def)
  from issued_secret_is_current [OF r i] i f show ?thesis by blast
qed

section \<open>Deleting a tenant\<close>

text \<open>
  C12: deleting a tenant removes every way in. In every reachable store with the tenant, the
  deletion marks it, leaves it without members and custom roles, no API-key lookup returns a
  key of it and all its refresh tokens are revoked.
\<close>

theorem delete_tenant_cascade:
  assumes "reachable K fr s" "get_tenant t s \<noteq> None" "delete_tenant t now s = (ok, s')"
  shows "ok \<and> get_tenant_status t s' = Some ''deleted'' \<and> list_members t s' = [] \<and>
    (\<forall>r. is_valid_role t r s' \<longleftrightarrow> builtin_role r) \<and>
    (\<forall>h k. get_api_key_by_hash h s' = Some k \<longrightarrow> k_tenant_id k \<noteq> t) \<and>
    (\<forall>j r. get_refresh_token j s' = Some r \<longrightarrow> rt_tenant_id r = t \<longrightarrow> rt_status r = ''revoked'')"
proof -
  obtain x where x: "dget (tenants s) t = Some x" using assms(2) by (auto simp: get_tenant_def)
  have s': "s' = snd (delete_tenant t now s)" "ok = fst (delete_tenant t now s)"
    by (simp_all add: assms(3))
  have f: "tenants s' = dset t (x\<lparr>t_status := ''deleted'', t_deleted_at := Some now\<rparr>) (tenants s)"
    "members s' = dpop_if (\<lambda>(u, v). u = t) (members s)"
    "custom_roles s' = dpop_if (\<lambda>(u, r). u = t) (custom_roles s)"
    "api_keys s' = dmap (\<lambda>k. if key_of_tenant t k then k\<lparr>k_revoked_at := Some now\<rparr> else k) (api_keys s)"
    "refresh_tokens s' = dmap (\<lambda>r. if rt_tenant_id r = t \<and> rt_status r \<noteq> ''revoked''
       then r\<lparr>rt_status := ''revoked''\<rparr> else r) (refresh_tokens s)" "ok"
    unfolding s' using x by (simp_all add: delete_tenant_def)
  have "get_tenant_status t s' = Some ''deleted''"
    by (simp add: get_tenant_status_def f(1) dget_dset)
  moreover have "list_members t s' = []"
    by (auto simp: list_members_def f(2) dpop_if_def filter_empty_conv)
  moreover have "is_valid_role t r s' \<longleftrightarrow> builtin_role r" for r
    by (simp add: is_valid_role_def f(3) dget_dpop_if)
  moreover have "k_tenant_id k \<noteq> t" if k: "get_api_key_by_hash h s' = Some k" for h k
  proof -
    obtain kid where kid: "dget (key_hash_index s') h = Some kid" "dget (api_keys s') kid = Some k"
      using k by (auto simp: get_api_key_by_hash_def split: option.splits if_splits)
    have "keys_ok s'"
      unfolding s' by (rule keys_ok_delete_tenant [OF reachable_invD(6,1) [OF assms(1)]])
    then have live: "k_revoked_at k = None" using keys_okD [OF _ kid(1)] kid(2) by auto
    obtain k0 where k0: "k = (if key_of_tenant t k0 then k0\<lparr>k_revoked_at := Some now\<rparr> else k0)"
      using kid(2) unfolding f(4) dget_dmap by (auto simp: map_option_eq_Some)
    show ?thesis
    proof (cases "key_of_tenant t k0")
      case True
      then have "k_revoked_at k = Some now" by (simp add: k0)
      with live show ?thesis by simp
    next
      case False
      then have "\<not> key_of_tenant t k" by (simp add: k0)
      with live show ?thesis by (simp add: key_of_tenant_def)
    qed
  qed
  moreover have "rt_status r = ''revoked''"
    if r: "get_refresh_token j s' = Some r" "rt_tenant_id r = t" for j r
  proof -
    obtain r0 where "r = (if rt_tenant_id r0 = t \<and> rt_status r0 \<noteq> ''revoked''
        then r0\<lparr>rt_status := ''revoked''\<rparr> else r0)"
      using r(1) unfolding get_refresh_token_def f(5) dget_dmap by (auto simp: map_option_eq_Some)
    with r(2) show ?thesis
      by (cases "rt_tenant_id r0 = t \<and> rt_status r0 \<noteq> ''revoked''") simp_all
  qed
  ultimately show ?thesis using f(6) by blast
qed

theorem delete_tenant_cascade_witness:
  "\<exists>s'. delete_tenant ''acme'' 9 demo5 = (True, s') \<and> list_members ''acme'' s' = [] \<and>
     list_members ''acme'' demo5 \<noteq> []"
proof -
  obtain ok s' where d: "delete_tenant ''acme'' 9 demo5 = (ok, s')" by (metis prod.exhaust)
  have "list_members ''acme'' demo5 \<noteq> []"
    using map_of_SomeD [OF demo_members] by (auto simp: list_members_def filter_empty_conv)
  moreover have "ok = True" "list_members ''acme'' s' = []"
    using delete_tenant_cascade [OF demo_reachable demo_tenant d] by simp_all
  ultimately show ?thesis using d by simp
qed

text \<open>
  C13: deleting a tenant touches no other tenant. Memberships, roles, tenant record and quota
  of another tenant are as before, so are refresh tokens of other tenants, and an API key of
  another tenant is still found unless the deleted tenant held a live key with the same hash.
\<close>

theorem delete_tenant_isolated:
  assumes "t' \<noteq> t" "delete_tenant t now s = (ok, s')"
  shows "list_members t' s' = list_members t' s \<and> get_member t' u s' = get_member t' u s \<and>
    get_role t' r s' = get_role t' r s \<and> get_tenant t' s' = get_tenant t' s \<and>
    get_quota t' s' = get_quota t' s \<and>
    (\<forall>j v. get_refresh_token j s = Some v \<and> rt_tenant_id v = t' \<longrightarrow> get_refresh_token j s' = Some v) \<and>
    (\<forall>h k. get_api_key_by_hash h s = Some k \<and> k_tenant_id k = t' \<and>
       (\<forall>k' \<in> set (dvals (api_keys s)). key_of_tenant t k' \<longrightarrow> k_key_hash k' \<noteq> h) \<longrightarrow>
       get_api_key_by_hash h s' = Some k)"
proof (cases "dget (tenants s) t")
  case None
  then have "s' = s" using assms(2) by (simp add: delete_tenant_def)
  then show ?thesis by simp
next
  case (Some x)
  then have f: "tenants s' = dset t (x\<lparr>t_status := ''deleted'', t_deleted_at := Some now\<rparr>) (tenants s)"
    "members s' = dpop_if (\<lambda>(u, v). u = t) (members s)"
    "custom_roles s' = dpop_if (\<lambda>(u, r). u = t) (custom_roles s)"
    "menu_matrix s' = dpop_if (\<lambda>(u, r). u = t) (menu_matrix s)"
    "api_keys s' = dmap (\<lambda>k. if key_of_tenant t k then k\<lparr>k_revoked_at := Some now\<rparr> else k) (api_keys s)"
    "key_hash_index s' = dpop_all (map k_key_hash (filter (key_of_tenant t) (dvals (api_keys s)))) (key_hash_index s)"
    "refresh_tokens s' = dmap (\<lambda>r. if rt_tenant_id r = t \<and> rt_status r \<noteq> ''revoked''
       then r\<lparr>rt_status := ''revoked''\<rparr> else r) (refresh_tokens s)" "quotas s' = quotas s"
    using assms(2) by (auto simp: delete_tenant_def)
  have m: "filter (\<lambda>((a, u), m). a = t') (members s') = filter (\<lambda>((a, u), m). a = t') (members s)"
    using assms(1) by (auto simp: f(2) dpop_if_def intro!: filter_cong)
  have roles: "dget (custom_roles s') (t', r) = dget (custom_roles s) (t', r)"
    "get_role_menus t' r s' = get_role_menus t' r s"
    using assms(1) by (simp_all add: get_role_menus_def f dget_dpop_if)
  have "list_members t' s' = list_members t' s"
    unfolding list_members_def m ..
  moreover have "get_member t' u s' = get_member t' u s" "get_tenant t' s' = get_tenant t' s"
    "get_quota t' s' = get_quota t' s"
    using assms(1) by (simp_all add: get_member_def f dget_dpop_if get_tenant_def dget_dset get_quota_def)
  moreover have "get_role t' r s' = get_role t' r s" unfolding get_role_def roles ..
  moreover have "get_refresh_token j s' = Some v" if "get_refresh_token j s = Some v" "rt_tenant_id v = t'" for j v
    using that assms(1) by (simp add: get_refresh_token_def f dget_dmap)
  moreover have "get_api_key_by_hash h s' = Some k"
    if k: "get_api_key_by_hash h s = Some k" "k_tenant_id k = t'"
      "\<forall>k' \<in> set (dvals (api_keys s)). key_of_tenant t k' \<longrightarrow> k_key_hash k' \<noteq> h" for h k
  proof -
    obtain kid where kid: "dget (key_hash_index s) h = Some kid" "kid \<noteq> []" "dget (api_keys s) kid = Some k"
      "\<not> truthy_time (k_revoked_at k)"
      using k(1) by (auto simp: get_api_key_by_hash_def split: option.splits if_splits)
    have "dget (key_hash_index s') h = Some kid"
      using kid(1) k(3) by (auto simp: f(6) dget_dpop_all)
    moreover have "dget (api_keys s') kid = Some k"
      using kid(3) k(2) assms(1) by (simp add: f(5) dget_dmap key_of_tenant_def)
    ultimately show ?thesis using kid(2,4) by (simp add: get_api_key_by_hash_def)
  qed
  ultimately show ?thesis by blast
qed

text \<open>A second tenant with a refresh token of its own.\<close>

definition demo_two :: store where
  "demo_two = snd (insert_refresh_token ''b'' ''f'' ''other'' ''u1'' 900 None ''active'' 6
     (snd (create_tenant ''other'' ''Other'' ''standard'' ''open'' 6 demo5)))"

theorem delete_tenant_isolated_witness:
  "\<exists>s' v. delete_tenant ''acme'' 9 demo_two = (True, s') \<and> get_tenant ''other'' s' \<noteq> None \<and>
     get_refresh_token ''b'' s' = Some v \<and> rt_status v = ''active''"
proof -
  obtain s' where d: "delete_tenant ''acme'' 9 demo_two = (True, s')"
    by (simp add: demo_two_def demo_defs valid_auditor not_builtin_auditor insert_refresh_token_def delete_tenant_def)
  obtain v where v: "get_refresh_token ''b'' demo_two = Some v" "rt_tenant_id v = ''other''" "rt_status v = ''active''"
    by (simp add: demo_two_def insert_refresh_token_def Let_def get_refresh_token_def dget_dset)
  have t: "get_tenant ''other'' demo_two \<noteq> None"
    by (simp add: demo_two_def insert_refresh_token_def create_tenant_def JOIN_POLICIES_def Let_def get_tenant_def dget_dset)
  have n: "''other'' \<noteq> ''acme''" by simp
  from delete_tenant_isolated [OF n d] d v t show ?thesis by metis
qed

end
