(* ===== verification/Store_Log_Properties.thy ===== *)
theory Store_Log_Properties
  imports Store_Properties
begin

text \<open>
  What the logs of the store promise: the audit chain verifies until the cap evicts, it binds
  the recorded rows to the tail hash, the event outbox pages without gaps or repeats, usage
  aggregation is the sum per metric, and the logs keep the newest entries.
\<close>

section \<open>The audit chain\<close>

lemma verify_rows:
  assumes "seqs_ok s"
  shows "verify_audit_chain fr t s = chain_check fr ''genesis'' (tenant_rows t s)"
  using tenant_rows_sorted [OF assms] by (simp add: verify_audit_chain_def tenant_rows_def)

text \<open>
  C25: the audit chain of every tenant verifies. In every reachable store to which at most
  \<open>AUDIT_CAP\<close> audit records were appended, \<open>verify_audit_chain\<close> reports a valid chain that
  ends in the recorded tail hash.
\<close>

theorem audit_chain_valid:
  assumes "reachable K fr s" "seq_audit s \<le> int AUDIT_CAP"
  shows "verify_audit_chain fr t s = None \<and> chain_end ''genesis'' (tenant_rows t s) = tail_hash t s"
proof -
  obtain p where p: "chain_from fr p (tenant_rows t s)" "chain_end p (tenant_rows t s) = tail_hash t s"
    "seq_audit s \<le> int AUDIT_CAP \<longrightarrow> p = ''genesis''"
    using reachable_invD(11) [OF assms(1)] unfolding chains_ok_def by blast
  with assms(2) have "p = ''genesis''" by blast
  with p(1,2) show ?thesis
    using verify_rows [OF reachable_invD(10) [OF assms(1)]] chain_check_chain by metis
qed

theorem audit_chain_valid_witness:
  "tenant_rows ''acme'' demo5 \<noteq> [] \<and> verify_audit_chain demo_fr ''acme'' demo5 = None"
proof -
  have q: "seq_audit demo5 \<le> int AUDIT_CAP" "tenant_rows ''acme'' demo5 \<noteq> []"
    by (simp_all add: demo_defs valid_auditor not_builtin_auditor tenant_rows_def)
  from audit_chain_valid [OF demo_reachable q(1)] q(2) show ?thesis by simp
qed

text \<open>The strings hashed along a chain.\<close>

fun chain_payloads :: "(real \<Rightarrow> string) \<Rightarrow> string \<Rightarrow> audit_rec list \<Rightarrow> string list" where
  "chain_payloads fr p [] = []"
| "chain_payloads fr p (a # rows) =
     chain_payload fr p (au_fields a) # chain_payloads fr (au_chain_hash a) rows"

lemma chain_payloads_append:
  "chain_payloads fr p (xs @ ys) = chain_payloads fr p xs @ chain_payloads fr (chain_end p xs) ys"
  by (induction xs arbitrary: p) auto

text \<open>Two chains from one start that end in the same hash carry the same fields, or two of
  the strings hashed along them collide.\<close>

lemma length_chain_end:
  assumes "chain_check fr p xs = None" "xs \<noteq> []"
  shows "length (chain_end p xs) = 64"
proof -
  obtain ys a where xs: "xs = ys @ [a]" using assms(2) by (metis append_butlast_last_id)
  with assms(1) show ?thesis
    by (simp add: chain_check_append chain_end_append chain_hash_def split: if_splits)
      (metis length_sha256_hash option.distinct(1))
qed

lemma chain_binding:
  assumes "chain_check fr p xs = None" "chain_check fr p ys = None" "length xs = length ys"
    "chain_end p xs = chain_end p ys"
    "\<And>x y. x \<in> set (chain_payloads fr p xs) \<Longrightarrow> y \<in> set (chain_payloads fr p ys) \<Longrightarrow>
      sha256_hash x = sha256_hash y \<Longrightarrow> x = y"
  shows "map (\<lambda>a. dumps fr (fields_json (au_fields a))) xs = map (\<lambda>a. dumps fr (fields_json (au_fields a))) ys"
  using assms
proof (induction xs arbitrary: ys rule: rev_induct)
  case Nil
  then show ?case by simp
next
  case (snoc a xs)
  obtain b zs where ys: "ys = zs @ [b]" using snoc.prems(3) by (cases ys rule: rev_cases) auto
  have c: "chain_check fr p xs = None" "chain_check fr p zs = None" "length xs = length zs"
    "au_chain_hash a = chain_hash fr (chain_end p xs) (au_fields a)"
    "au_chain_hash b = chain_hash fr (chain_end p zs) (au_fields b)" "au_chain_hash a = au_chain_hash b"
    using snoc.prems(1-4) ys
    by (auto simp: chain_check_append chain_end_append split: if_splits)
  have "sha256_hash (chain_payload fr (chain_end p xs) (au_fields a)) =
      sha256_hash (chain_payload fr (chain_end p zs) (au_fields b))"
    using c(4-6) unfolding chain_hash_def by metis
  moreover have "chain_payload fr (chain_end p xs) (au_fields a) \<in> set (chain_payloads fr p (xs @ [a]))"
    "chain_payload fr (chain_end p zs) (au_fields b) \<in> set (chain_payloads fr p ys)"
    by (simp_all add: chain_payloads_append ys)
  ultimately have eq: "chain_end p xs @ dumps fr (fields_json (au_fields a)) =
      chain_end p zs @ dumps fr (fields_json (au_fields b))"
    unfolding chain_payload_def [symmetric] using snoc.prems(5) by blast
  have "length (chain_end p xs) = length (chain_end p zs)"
    using c(1-3) length_chain_end [of fr p xs] length_chain_end [of fr p zs]
    by (cases "xs = []"; cases "zs = []") simp_all
  with eq have "chain_end p xs = chain_end p zs"
    "dumps fr (fields_json (au_fields a)) = dumps fr (fields_json (au_fields b))" by auto
  moreover have "x = y" if "x \<in> set (chain_payloads fr p xs)" "y \<in> set (chain_payloads fr p zs)"
    "sha256_hash x = sha256_hash y" for x y
    using snoc.prems(5) [of x y] that by (simp add: chain_payloads_append ys)
  ultimately show ?case using snoc.IH [OF c(1,2,3)] by (simp add: ys)
qed

text \<open>
  C5: the tail hash binds the log. If the audit log of a reachable store is replaced by
  another one whose rows for a tenant verify, are as many and end in the tenant's tail hash,
  then the rows have the same serialised fields in the same order, or a string hashed along
  the forged rows collides under SHA-256 with one hashed along the real ones.
\<close>

theorem audit_chain_tamper_evident:
  assumes "reachable K fr s" "seq_audit s \<le> int AUDIT_CAP"
    and "verify_audit_chain fr t (s\<lparr>audit := forged\<rparr>) = None"
    and "rows = sort_key au_id (filter (\<lambda>a. au_tenant a = t) forged)"
    and "length rows = length (tenant_rows t s)" "chain_end ''genesis'' rows = tail_hash t s"
  shows "map (\<lambda>a. dumps fr (fields_json (au_fields a))) rows
       = map (\<lambda>a. dumps fr (fields_json (au_fields a))) (tenant_rows t s)
    \<or> (\<exists>x \<in> set (chain_payloads fr ''genesis'' rows). \<exists>y \<in> set (chain_payloads fr ''genesis'' (tenant_rows t s)).
         x \<noteq> y \<and> sha256_hash x = sha256_hash y)"
proof -
  obtain p where p: "chain_from fr p (tenant_rows t s)" "chain_end p (tenant_rows t s) = tail_hash t s"
    "seq_audit s \<le> int AUDIT_CAP \<longrightarrow> p = ''genesis''"
    using reachable_invD(11) [OF assms(1)] unfolding chains_ok_def by blast
  then have g: "chain_check fr ''genesis'' (tenant_rows t s) = None"
    "chain_end ''genesis'' (tenant_rows t s) = tail_hash t s"
    using assms(2) chain_check_chain by blast+
  have r: "chain_check fr ''genesis'' rows = None"
    using assms(3,4) by (simp add: verify_audit_chain_def)
  have e: "chain_end ''genesis'' rows = chain_end ''genesis'' (tenant_rows t s)"
    using assms(6) g(2) by (rule trans [OF _ sym])
  show ?thesis
  proof (rule disjCI)
    assume free: "\<not> (\<exists>x \<in> set (chain_payloads fr ''genesis'' rows).
      \<exists>y \<in> set (chain_payloads fr ''genesis'' (tenant_rows t s)). x \<noteq> y \<and> sha256_hash x = sha256_hash y)"
    show "map (\<lambda>a. dumps fr (fields_json (au_fields a))) rows
        = map (\<lambda>a. dumps fr (fields_json (au_fields a))) (tenant_rows t s)"
      by (rule chain_binding [OF r g(1) assms(5) e]) (use free in blast)
  qed
qed

theorem audit_chain_tamper_evident_witness:
  "let rows = tenant_rows ''acme'' demo5 in
     verify_audit_chain demo_fr ''acme'' (demo5\<lparr>audit := audit demo5\<rparr>) = None \<and>
     (map (\<lambda>a. dumps demo_fr (fields_json (au_fields a))) rows
        = map (\<lambda>a. dumps demo_fr (fields_json (au_fields a))) (tenant_rows ''acme'' demo5)
      \<or> (\<exists>x \<in> set (chain_payloads demo_fr ''genesis'' rows).
           \<exists>y \<in> set (chain_payloads demo_fr ''genesis'' (tenant_rows ''acme'' demo5)).
           x \<noteq> y \<and> sha256_hash x = sha256_hash y))"
proof -
  have q: "seq_audit demo5 \<le> int AUDIT_CAP"
    by (simp add: demo_defs valid_auditor not_builtin_auditor)
  have ok: "chains_ok demo_fr demo5" "seqs_ok demo5"
    using reachable_invD(10,11) [OF demo_reachable] by simp_all
  have rows: "tenant_rows ''acme'' demo5 = sort_key au_id (filter (\<lambda>a. au_tenant a = ''acme'') (audit demo5))"
    using tenant_rows_sorted [OF ok(2), of "''acme''"] by (simp add: tenant_rows_def)
  have same: "demo5\<lparr>audit := audit demo5\<rparr> = demo5" by simp
  obtain p where p: "chain_from demo_fr p (tenant_rows ''acme'' demo5)"
    "chain_end p (tenant_rows ''acme'' demo5) = tail_hash ''acme'' demo5" "p = ''genesis''"
    using ok(1) q unfolding chains_ok_def by blast
  have v: "verify_audit_chain demo_fr ''acme'' (demo5\<lparr>audit := audit demo5\<rparr>) = None"
    unfolding same verify_rows [OF ok(2)] using p chain_check_chain by blast
  have e: "chain_end ''genesis'' (tenant_rows ''acme'' demo5) = tail_hash ''acme'' demo5"
    using p(2,3) by simp
  from audit_chain_tamper_evident [OF demo_reachable q v rows refl e] v show ?thesis by (simp add: Let_def)
qed

text \<open>
  C35: the cap breaks the chain. Once the oldest retained row of a tenant does not link to
  \<open>genesis\<close>, the verifier, which starts at \<open>genesis\<close>, reports that untouched row as broken,
  unless its fields after its own link and after \<open>genesis\<close> happen to have the same SHA-256.
\<close>

theorem evicted_chain_reported_broken:
  assumes "reachable K fr s" "tenant_rows t s = a # rest" "au_prev_hash a \<noteq> ''genesis''"
  shows "chain_payload fr ''genesis'' (au_fields a) \<noteq> chain_payload fr (au_prev_hash a) (au_fields a) \<and>
    (verify_audit_chain fr t s = Some (au_id a) \<or>
     chain_hash fr ''genesis'' (au_fields a) = chain_hash fr (au_prev_hash a) (au_fields a))"
proof -
  obtain p where "chain_from fr p (tenant_rows t s)"
    using reachable_invD(11) [OF assms(1)] unfolding chains_ok_def by blast
  then have h: "au_chain_hash a = chain_hash fr (au_prev_hash a) (au_fields a)"
    by (simp add: assms(2))
  have "chain_payload fr ''genesis'' (au_fields a) \<noteq> chain_payload fr (au_prev_hash a) (au_fields a)"
    using assms(3) by (simp add: chain_payload_def)
  then show ?thesis
    by (auto simp: verify_rows [OF reachable_invD(10) [OF assms(1)]] assms(2) h)
qed

text \<open>
  A store that has evicted: one append more than the cap holds. Its log is the last part of
  the full history, which is a chain from \<open>genesis\<close>.
\<close>

definition full_log :: "nat \<Rightarrow> store" where
  "full_log n = ((\<lambda>s. snd (append_audit demo_fr ''acme'' None None None ''login'' None JNull 5 s)) ^^ n)
     empty_store"

lemma full_log_reachable: "reachable demo_kdf demo_fr (full_log n)"
proof (induction n)
  case 0
  show ?case by (simp add: full_log_def reachable.init)
next
  case (Suc n)
  show ?case
    unfolding full_log_def funpow.simps o_apply
    by (rule reachable.step [OF Suc [unfolded full_log_def] store_step.log]) (rule log_step.append_audit)
qed

lemma full_log_history:
  "\<exists>rows. length rows = n \<and> chain_from demo_fr ''genesis'' rows \<and> audit (full_log n) = lastn AUDIT_CAP rows \<and>
     tail_hash ''acme'' (full_log n) = chain_end ''genesis'' rows \<and> (\<forall>a \<in> set rows. au_tenant a = ''acme'')"
proof (induction n)
  case 0
  show ?case by (simp add: full_log_def empty_store_def lastn_def tail_hash_def)
next
  case (Suc n)
  obtain rows where r: "length rows = n" "chain_from demo_fr ''genesis'' rows"
    "audit (full_log n) = lastn AUDIT_CAP rows"
    "tail_hash ''acme'' (full_log n) = chain_end ''genesis'' rows" "\<forall>a \<in> set rows. au_tenant a = ''acme''"
    using Suc by blast
  define x where "x = fst (append_audit demo_fr ''acme'' None None None ''login'' None JNull 5 (full_log n))"
  have s: "full_log (Suc n) = snd (append_audit demo_fr ''acme'' None None None ''login'' None JNull 5 (full_log n))"
    by (simp add: full_log_def)
  have x: "audit (full_log (Suc n)) = capped_append AUDIT_CAP (audit (full_log n)) x" "au_tenant x = ''acme''"
    "au_prev_hash x = tail_hash ''acme'' (full_log n)"
    "au_chain_hash x = chain_hash demo_fr (tail_hash ''acme'' (full_log n)) (au_fields x)"
    "tail_hash ''acme'' (full_log (Suc n)) = au_chain_hash x"
    unfolding s by (simp_all add: x_def append_audit_def push_audit_def tail_hash_def Let_def dget_dset)
  have "audit (full_log (Suc n)) = lastn AUDIT_CAP (rows @ [x])"
    unfolding x(1) r(3) capped_append_lastn by (rule lastn_lastn_append)
  moreover have "chain_from demo_fr ''genesis'' (rows @ [x])" "chain_end ''genesis'' (rows @ [x]) = au_chain_hash x"
    using r(2,4) x(3,4) by (simp_all add: chain_from_append chain_end_append)
  ultimately show ?case
    using r(1,5) x(2,5) by (intro exI [of _ "rows @ [x]"]) simp
qed

theorem evicted_chain_reported_broken_witness:
  "\<exists>s a rest. tenant_rows ''acme'' s = a # rest \<and> au_prev_hash a \<noteq> ''genesis'' \<and>
     (verify_audit_chain demo_fr ''acme'' s = Some (au_id a) \<or>
      chain_hash demo_fr ''genesis'' (au_fields a) = chain_hash demo_fr (au_prev_hash a) (au_fields a))"
proof -
  obtain rows where r: "length rows = Suc AUDIT_CAP" "chain_from demo_fr ''genesis'' rows"
    "audit (full_log (Suc AUDIT_CAP)) = lastn AUDIT_CAP rows" "\<forall>a \<in> set rows. au_tenant a = ''acme''"
    using full_log_history [of "Suc AUDIT_CAP"] by blast
  obtain z a rest where zs: "rows = z # a # rest"
    using r(1) by (cases rows; cases "tl rows") (auto simp: AUDIT_CAP_def)
  have "lastn AUDIT_CAP rows = a # rest"
    using r(1) by (simp add: lastn_def zs)
  with r(3,4) have t: "tenant_rows ''acme'' (full_log (Suc AUDIT_CAP)) = a # rest"
    unfolding tenant_rows_def by (auto simp: zs)
  have "au_prev_hash a = chain_hash demo_fr ''genesis'' (au_fields z)"
    using r(2) by (simp add: zs)
  then have "length (au_prev_hash a) = 64" by (simp add: chain_hash_def)
  then have n: "au_prev_hash a \<noteq> ''genesis''" by auto
  from evicted_chain_reported_broken [OF full_log_reachable t n] t n show ?thesis by blast
qed

section \<open>Paging the event outbox\<close>

lemma filter_above_last:
  assumes "sorted_wrt (<) (map f xs)" "0 < n" "filter (\<lambda>x. f x > c) xs \<noteq> []"
  shows "filter (\<lambda>x. f x > f (last (take n (filter (\<lambda>x. f x > c) xs)))) xs
    = drop n (filter (\<lambda>x. f x > (c :: int)) xs)"
proof -
  define ys where "ys = filter (\<lambda>x. f x > c) xs"
  define l where "l = last (take n ys)"
  have srt: "sorted_wrt (\<lambda>a b. f a < f b) ys"
    using assms(1) by (simp add: ys_def sorted_wrt_map sorted_wrt_filter)
  have ne: "take n ys \<noteq> []" using assms(2,3) by (simp add: ys_def)
  have lm: "l \<in> set (take n ys)" unfolding l_def using ne by simp
  have "f l > c" using lm set_take_subset [of n ys] by (auto simp: ys_def)
  then have "filter (\<lambda>x. f x > f l) xs = filter (\<lambda>x. f x > f l) ys"
    by (auto simp: ys_def intro!: filter_cong)
  also have "\<dots> = filter (\<lambda>x. f x > f l) (take n ys) @ filter (\<lambda>x. f x > f l) (drop n ys)"
    by (metis append_take_drop_id filter_append)
  also have "filter (\<lambda>x. f x > f l) (take n ys) = []"
  proof -
    have "sorted_wrt (\<lambda>a b. f a < f b) (butlast (take n ys) @ [l])"
      using srt sorted_wrt_take ne by (simp add: l_def)
    then have "\<forall>x \<in> set (take n ys). f x \<le> f l"
      using ne by (metis append_butlast_last_id l_def less_imp_le order_refl set_ConsD sorted_wrt_append
          Un_iff list.set(1) list.set(2) singletonD set_append insertE empty_iff list.set_intros(1))
    then show ?thesis by (auto simp: filter_empty_conv)
  qed
  also have "filter (\<lambda>x. f x > f l) (drop n ys) = drop n ys"
  proof -
    have "sorted_wrt (\<lambda>a b. f a < f b) (take n ys @ drop n ys)" using srt by simp
    then have "\<forall>x \<in> set (drop n ys). f l < f x"
      using lm unfolding sorted_wrt_append by blast
    then show ?thesis by simp
  qed
  finally show ?thesis by (simp add: ys_def l_def)
qed

text \<open>
  C33: paging through the outbox neither skips nor repeats an event. In every reachable store
  a page followed by the page that starts after its last sequence number is the longer page,
  events come in strictly increasing order of sequence number and all lie above the cursor.
\<close>

theorem event_pages_compose:
  assumes "reachable K fr s" "0 < m" "0 \<le> n" "list_events c m s \<noteq> []"
  shows "list_events c m s @ list_events (e_seq (last (list_events c m s))) n s = list_events c (m + n) s \<and>
    sorted_wrt (<) (map e_seq (list_events c m s)) \<and> (\<forall>e \<in> set (list_events c m s). c < e_seq e)"
proof -
  have srt: "sorted_wrt (<) (map e_seq (events s))"
    using reachable_invD(10) [OF assms(1)] by (simp add: seqs_ok_def)
  let ?ys = "filter (\<lambda>e. e_seq e > c) (events s)"
  have page: "list_events c k s = take (nat k) ?ys" if "0 \<le> k" for k
    using that by (simp add: list_events_def slice_upto_def)
  have ne: "?ys \<noteq> []" using assms(4) by (auto simp: list_events_def slice_upto_def split: if_splits)
  have p: "list_events c m s = take (nat m) ?ys" "list_events c (m + n) s = take (nat (m + n)) ?ys"
    using assms(2,3) page by simp_all
  have rest: "filter (\<lambda>e. e_seq e > e_seq (last (take (nat m) ?ys))) (events s) = drop (nat m) ?ys"
    by (rule filter_above_last [OF srt _ ne]) (use assms(2) in simp)
  have any: "list_events d n s = take (nat n) (filter (\<lambda>e. e_seq e > d) (events s))" for d
    using assms(3) by (simp add: list_events_def slice_upto_def)
  have nxt: "list_events (e_seq (last (list_events c m s))) n s = take (nat n) (drop (nat m) ?ys)"
    unfolding p(1) any rest ..
  show ?thesis
  proof (intro conjI)
    show "list_events c m s @ list_events (e_seq (last (list_events c m s))) n s = list_events c (m + n) s"
      unfolding nxt unfolding p using assms(2,3) by (simp add: nat_add_distrib take_add)
    show "sorted_wrt (<) (map e_seq (list_events c m s))"
      unfolding p using srt by (simp add: sorted_wrt_map sorted_wrt_take sorted_wrt_filter)
    show "\<forall>e \<in> set (list_events c m s). c < e_seq e"
      unfolding p using set_take_subset by fastforce
  qed
qed

definition demo_events :: store where
  "demo_events = snd (append_event ''b'' ''acme'' JNull ''2'' 2
     (snd (append_event ''a'' ''acme'' JNull ''1'' 1 empty_store)))"

theorem event_pages_compose_witness:
  "length (list_events 0 1 demo_events) = 1 \<and>
   list_events 0 1 demo_events @ list_events (e_seq (last (list_events 0 1 demo_events))) 1 demo_events
     = list_events 0 2 demo_events"
proof -
  have r: "reachable demo_kdf demo_fr demo_events"
    unfolding demo_events_def
    by (rule reachable.step [OF reachable.step [OF reachable.init store_step.log
            [OF log_step.append_event]] store_step.log [OF log_step.append_event]])
  have l: "length (list_events 0 1 demo_events) = 1"
    by (simp add: demo_events_def append_event_def push_event_def capped_append_def AUDIT_CAP_def
        empty_store_def Let_def list_events_def slice_upto_def)
  then have ne: "list_events 0 1 demo_events \<noteq> []" by auto
  show ?thesis using l event_pages_compose [OF r _ _ ne, of 1] by simp
qed

section \<open>Usage aggregation\<close>

text \<open>The records a query selects, and the reference total of a metric.\<close>

definition selects :: "string \<Rightarrow> time option \<Rightarrow> time option \<Rightarrow> string option \<Rightarrow> usage_rec \<Rightarrow> bool" where
  "selects tid since until metric u \<longleftrightarrow>
     us_tenant_id u = tid \<and> in_window since until (us_ts u) \<and> (metric = None \<or> metric = Some (us_metric u))"

definition metric_total :: "string \<Rightarrow> usage_rec list \<Rightarrow> int" where
  "metric_total m us = sum_list (map us_value (filter (\<lambda>u. us_metric u = m) us))"

definition usage_pass ::
  "string \<Rightarrow> time option \<Rightarrow> time option \<Rightarrow> string option \<Rightarrow> usage_rec \<Rightarrow> (string, int) dict \<Rightarrow> (string, int) dict"
  where
  "usage_pass tid since until metric u agg =
    (if selects tid since until metric u then tally (us_metric u) (us_value u) agg else agg)"

lemma dict_wf_usage_pass: "dict_wf agg \<Longrightarrow> dict_wf (usage_pass tid since until metric u agg)"
  by (simp add: usage_pass_def tally_def distinct_update)

lemma dict_wf_fold_usage:
  "dict_wf agg \<Longrightarrow> dict_wf (fold (usage_pass tid since until metric) us agg)"
  by (induction us arbitrary: agg) (simp_all add: dict_wf_usage_pass)

text \<open>After the pass a metric is absent if it was absent and no selected record has it, and
  else holds its old value plus the total.\<close>

lemma dget_fold_usage:
  "dget (fold (usage_pass tid since until metric) us agg) m =
    (if dget agg m = None \<and> (\<forall>u \<in> set us. selects tid since until metric u \<longrightarrow> us_metric u \<noteq> m) then None
     else Some (upd_opt (dget agg m) 0 + metric_total m (filter (selects tid since until metric) us)))"
proof (induction us arbitrary: agg)
  case Nil
  show ?case by (cases "dget agg m") (simp_all add: metric_total_def)
next
  case (Cons u us)
  have pass: "dget (usage_pass tid since until metric u agg) m =
      (if selects tid since until metric u \<and> us_metric u = m
       then Some (upd_opt (dget agg m) 0 + us_value u) else dget agg m)"
    by (simp add: usage_pass_def tally_def dget_dset)
  show ?case
  proof (cases "selects tid since until metric u \<and> us_metric u = m")
    case True
    then show ?thesis by (auto simp: Cons.IH pass metric_total_def)
  next
    case False
    then have "metric_total m (filter (selects tid since until metric) (u # us)) =
        metric_total m (filter (selects tid since until metric) us)"
      by (auto simp: metric_total_def)
    moreover have "dget (usage_pass tid since until metric u agg) m = dget agg m"
      using pass False by presburger
    moreover have "(\<forall>v \<in> set (u # us). selects tid since until metric v \<longrightarrow> us_metric v \<noteq> m) \<longleftrightarrow>
        (\<forall>v \<in> set us. selects tid since until metric v \<longrightarrow> us_metric v \<noteq> m)"
      using False by auto
    ultimately show ?thesis by (simp only: fold_simps Cons.IH)
  qed
qed

lemma aggregate_usage_fold:
  "aggregate_usage tid since until metric s =
     sort_key fst (fold (usage_pass tid since until metric) (usage s) [])"
proof -
  have "(\<lambda>u agg. if us_tenant_id u \<noteq> tid then agg
        else if \<not> in_window since until (us_ts u) then agg
        else if metric \<noteq> None \<and> metric \<noteq> Some (us_metric u) then agg
        else tally (us_metric u) (us_value u) agg) = usage_pass tid since until metric"
    by (intro ext) (simp add: usage_pass_def selects_def)
  then show ?thesis by (simp add: aggregate_usage_def)
qed

lemma map_of_sort_key:
  assumes "dict_wf d"
  shows "map_of (sort_key fst d) = map_of d" "dict_wf (sort_key fst d)"
proof -
  have "mset (map fst (sort_key fst d)) = mset (map fst d)" by simp
  then show wf: "dict_wf (sort_key fst d)" using assms mset_eq_imp_distinct_iff by blast
  show "map_of (sort_key fst d) = map_of d"
  proof
    fix k
    show "map_of (sort_key fst d) k = map_of d k"
      using dict_wf_get_iff [OF wf] dict_wf_get_iff [OF assms] set_sort [of fst d]
      by (metis not_None_eq)
  qed
qed

text \<open>
  The usage report is the sum per metric. \<open>aggregate_usage\<close> lists each metric once, in
  order, with the sum of the selected records' values, and exactly the metrics that occur in
  a selected record.
\<close>

theorem aggregate_usage_sums:
  "dget (aggregate_usage tid since until metric s) m =
     (if \<exists>u \<in> set (usage s). selects tid since until metric u \<and> us_metric u = m
      then Some (metric_total m (filter (selects tid since until metric) (usage s))) else None) \<and>
   sorted_wrt (<) (dkeys (aggregate_usage tid since until metric s))"
proof
  let ?d = "fold (usage_pass tid since until metric) (usage s) []"
  have wf: "dict_wf ?d" by (rule dict_wf_fold_usage) simp
  note srt = map_of_sort_key [OF wf]
  show "dget (aggregate_usage tid since until metric s) m =
     (if \<exists>u \<in> set (usage s). selects tid since until metric u \<and> us_metric u = m
      then Some (metric_total m (filter (selects tid since until metric) (usage s))) else None)"
    unfolding aggregate_usage_fold srt(1) dget_fold_usage by auto
  show "sorted_wrt (<) (dkeys (aggregate_usage tid since until metric s))"
    unfolding aggregate_usage_fold strict_sorted_iff using srt(2) by simp
qed

end
