(* ===== verification/Encoding.thy ===== *)
theory Encoding
  imports Hashing
begin

text \<open>
  Byte encodings of the Python standard library that the key ring and the secret store use:
  base64 in the standard and the URL-safe alphabet (RFC 4648), big-endian integers, the raw
  SHA-256 digest and UTF-8 decoding. Bytes are integers from 0 to 255. Decoding inverts
  encoding.
\<close>

section \<open>Base64\<close>

definition b64_char :: "bool \<Rightarrow> int \<Rightarrow> char" where
  "b64_char url i =
    (if i < 26 then char_of (65 + i) else if i < 52 then char_of (71 + i)
     else if i < 62 then char_of (i - 4)
     else if i = 62 then (if url then CHR ''-'' else CHR ''+'')
     else (if url then CHR ''_'' else CHR ''/''))"

definition b64_val :: "bool \<Rightarrow> char \<Rightarrow> int option" where
  "b64_val url ch = (let n = of_char ch :: int in
     if 65 \<le> n \<and> n \<le> 90 then Some (n - 65) else if 97 \<le> n \<and> n \<le> 122 then Some (n - 71)
     else if 48 \<le> n \<and> n \<le> 57 then Some (n + 4)
     else if ch = (if url then CHR ''-'' else CHR ''+'') then Some 62
     else if ch = (if url then CHR ''_'' else CHR ''/'') then Some 63 else None)"

definition is_byte :: "int \<Rightarrow> bool" where
  "is_byte b \<longleftrightarrow> 0 \<le> b \<and> b < 256"

fun b64encode :: "bool \<Rightarrow> int list \<Rightarrow> string" where
  "b64encode url [] = []"
| "b64encode url [a] =
     [b64_char url (a div 4), b64_char url (a mod 4 * 16), CHR ''='', CHR ''='']"
| "b64encode url [a, b] =
     [b64_char url (a div 4), b64_char url (a mod 4 * 16 + b div 16),
      b64_char url (b mod 16 * 4), CHR ''='']"
| "b64encode url (a # b # c # r) =
     [b64_char url (a div 4), b64_char url (a mod 4 * 16 + b div 16),
      b64_char url (b mod 16 * 4 + c div 64), b64_char url (c mod 64)] @ b64encode url r"

text \<open>Strict decoding: groups of four, padding in the last group only.\<close>

definition b64_group1 :: "bool \<Rightarrow> char \<Rightarrow> char \<Rightarrow> int list option" where
  "b64_group1 url p q =
    (case (b64_val url p, b64_val url q) of
       (Some x, Some y) \<Rightarrow> Some [x * 4 + y div 16] | _ \<Rightarrow> None)"

definition b64_group2 :: "bool \<Rightarrow> char \<Rightarrow> char \<Rightarrow> char \<Rightarrow> int list option" where
  "b64_group2 url p q r =
    (case (b64_val url p, b64_val url q, b64_val url r) of
       (Some x, Some y, Some z) \<Rightarrow> Some [x * 4 + y div 16, y mod 16 * 16 + z div 4] | _ \<Rightarrow> None)"

definition b64_group3 :: "bool \<Rightarrow> char \<Rightarrow> char \<Rightarrow> char \<Rightarrow> char \<Rightarrow> int list option" where
  "b64_group3 url p q r s =
    (case (b64_val url p, b64_val url q, b64_val url r, b64_val url s) of
       (Some x, Some y, Some z, Some w) \<Rightarrow>
         Some [x * 4 + y div 16, y mod 16 * 16 + z div 4, z mod 4 * 64 + w] | _ \<Rightarrow> None)"

fun b64decode :: "bool \<Rightarrow> string \<Rightarrow> int list option" where
  "b64decode url [] = Some []"
| "b64decode url (p # q # r # s # rest) =
     (if rest = [] \<and> s = CHR ''='' then
        (if r = CHR ''='' then b64_group1 url p q else b64_group2 url p q r)
      else case b64_group3 url p q r s of
        None \<Rightarrow> None
      | Some g \<Rightarrow> map_option (\<lambda>bs. g @ bs) (b64decode url rest))"
| "b64decode url _ = None"

lemma b64_table:
  "\<forall>i \<in> set (map int [0..<64]). b64_val url (b64_char url i) = Some i \<and> b64_char url i \<noteq> CHR ''=''"
proof -
  have "\<forall>i \<in> set (map int [0..<64]). b64_val True (b64_char True i) = Some i \<and> b64_char True i \<noteq> CHR ''=''"
    "\<forall>i \<in> set (map int [0..<64]). b64_val False (b64_char False i) = Some i \<and> b64_char False i \<noteq> CHR ''=''"
    by code_simp+
  then show ?thesis by (cases url) (simp_all only:)
qed

lemma b64_val_char:
  assumes "0 \<le> i" "i < 64"
  shows "b64_val url (b64_char url i) = Some i" "b64_char url i \<noteq> CHR ''=''"
proof -
  have "i \<in> set (map int [0..<64])"
    using assms by (auto intro: image_eqI [of _ _ "nat i"])
  then show "b64_val url (b64_char url i) = Some i" "b64_char url i \<noteq> CHR ''=''"
    using b64_table [of url] by blast+
qed

lemma b64_ranges:
  assumes "is_byte a"
  shows "0 \<le> a div 4" "a div 4 < 64" "0 \<le> a mod 4 * 16" "a mod 4 * 16 < 64"
    "0 \<le> a mod 16 * 4" "a mod 16 * 4 < 64" "0 \<le> a mod 64" "a mod 64 < 64"
    "0 \<le> a div 16" "a div 16 < 16" "0 \<le> a div 64" "a div 64 < 4"
  using assms by (auto simp: is_byte_def)

lemma b64_mixed:
  assumes "is_byte a" "is_byte b"
  shows "0 \<le> a mod 4 * 16 + b div 16" "a mod 4 * 16 + b div 16 < 64"
    "0 \<le> a mod 16 * 4 + b div 64" "a mod 16 * 4 + b div 64 < 64"
  using assms by (auto simp: is_byte_def)

lemma div_pack:
  fixes x y m :: int
  assumes "0 \<le> y" "y < m"
  shows "(x * m + y) div m = x" "(x * m + y) mod m = y"
  using assms by simp_all

lemma b64_regroup:
  assumes "is_byte b" "is_byte c"
  shows "a div 4 * 4 + (a mod 4 * 16 + b div 16) div 16 = a"
    "(a mod 4 * 16 + b div 16) mod 16 * 16 + b mod 16 = b"
    "(b mod 16 * 4 + c div 64) div 4 = b mod 16"
    "(b mod 16 * 4 + c div 64) mod 4 * 64 + c mod 64 = c"
  using b64_ranges(9-12) [OF assms(1)] b64_ranges(9-12) [OF assms(2)]
  by (simp_all only: div_pack) simp_all

theorem b64_roundtrip:
  assumes "list_all is_byte bs"
  shows "b64decode url (b64encode url bs) = Some bs"
  using assms
proof (induction url bs rule: b64encode.induct)
  case (2 url a)
  then have a: "is_byte a" by simp
  have "a div 4 * 4 + a mod 4 * 16 div 16 = a" by simp
  with a show ?case by (simp add: b64_group1_def b64_val_char b64_ranges)
next
  case (3 url a b)
  then have ab: "is_byte a" "is_byte b" by simp_all
  with b64_regroup(1,2) [OF ab(2) ab(2)] show ?case
    by (simp add: b64_group2_def b64_val_char b64_ranges b64_mixed)
next
  case (4 url a b c r)
  then have abc: "is_byte a" "is_byte b" "is_byte c" and r: "list_all is_byte r" by simp_all
  with 4(1) [OF r] b64_regroup [OF abc(2,3)] show ?case
    by (simp only: b64encode.simps b64decode.simps append.simps b64_group3_def b64_val_char b64_ranges
        b64_mixed option.case prod.case if_False simp_thms option.map)
qed simp

section \<open>Integers and digests\<close>

text \<open>\<open>n.to_bytes((n.bit_length() + 7) // 8, "big")\<close> for a non-negative \<open>n\<close>.\<close>

function to_bytes :: "int \<Rightarrow> int list" where
  "to_bytes n = (if n \<le> 0 then [] else to_bytes (n div 256) @ [n mod 256])"
  by pat_completeness auto
termination by (relation "measure nat") auto

declare to_bytes.simps [simp del]

definition from_bytes :: "int list \<Rightarrow> int" where
  "from_bytes bs = foldl (\<lambda>acc b. acc * 256 + b) 0 bs"

lemma to_bytes_byte: "list_all is_byte (to_bytes n)"
proof (induction n rule: to_bytes.induct)
  case (1 n)
  have "is_byte (n mod 256)" by (simp add: is_byte_def)
  with 1 show ?case by (subst to_bytes.simps) simp
qed

lemma from_to_bytes: "0 \<le> n \<Longrightarrow> from_bytes (to_bytes n) = n"
proof (induction n rule: to_bytes.induct)
  case (1 n)
  then show ?case by (subst to_bytes.simps) (auto simp: from_bytes_def)
qed

definition word_bytes :: "u32 \<Rightarrow> int list" where
  "word_bytes x = map (\<lambda>i. uint x div 256 ^ i mod 256) [3, 2, 1, 0]"

definition sha256_digest :: "int list \<Rightarrow> int list" where
  "sha256_digest m =
    (let w = words_of (sha_pad m)
     in case sha_blocks (length w div 16) w sha_h0 of
          (a, b, c, d, e, f, g, h) \<Rightarrow> concat (map word_bytes [a, b, c, d, e, f, g, h]))"

section \<open>UTF-8\<close>

text \<open>
  \<open>bytes.decode()\<close> into the code points below 256; a byte sequence that is not UTF-8, or that
  encodes a code point outside this range, has no result.
\<close>

fun utf8_decode :: "int list \<Rightarrow> string option" where
  "utf8_decode [] = Some []"
| "utf8_decode [a] = (if 0 \<le> a \<and> a < 128 then Some [char_of a] else None)"
| "utf8_decode (a # b # r) =
     (if 0 \<le> a \<and> a < 128 then map_option (\<lambda>s. char_of a # s) (utf8_decode (b # r))
      else if (a = 194 \<or> a = 195) \<and> 128 \<le> b \<and> b < 192
      then map_option (\<lambda>s. char_of ((a - 192) * 64 + (b - 128)) # s) (utf8_decode r)
      else None)"

lemma of_char_range: "0 \<le> (of_char c :: int)" "(of_char c :: int) < 256"
proof -
  have "(of_char c :: int) = int (of_char c :: nat)" by (simp only: of_nat_of_char)
  then show "0 \<le> (of_char c :: int)" "(of_char c :: int) < 256"
    using nat_of_char_less_256 [of c] by linarith+
qed

lemma utf8_byte: "list_all is_byte (utf8 s)"
proof (induction s)
  case Nil
  then show ?case by (simp add: utf8_def)
next
  case (Cons c s)
  have "list_all is_byte (utf8_char c)"
    using of_char_range [of c] by (auto simp: utf8_char_def Let_def is_byte_def)
  with Cons show ?case by (simp add: utf8_def)
qed

lemma utf8_decode_low:
  "0 \<le> a \<Longrightarrow> a < 128 \<Longrightarrow> utf8_decode (a # r) = map_option (\<lambda>s. char_of a # s) (utf8_decode r)"
  by (cases r) simp_all

lemma utf8_roundtrip: "utf8_decode (utf8 s) = Some s"
proof (induction s)
  case Nil
  then show ?case by (simp add: utf8_def)
next
  case (Cons c s)
  define n where "n = (of_char c :: int)"
  have n: "0 \<le> n" "n < 256" "char_of n = c" using of_char_range by (simp_all add: n_def)
  show ?case
  proof (cases "n < 128")
    case True
    then have "utf8 (c # s) = n # utf8 s" by (simp add: utf8_def utf8_char_def n_def Let_def)
    with True n Cons show ?thesis by (simp add: utf8_decode_low)
  next
    case False
    then have e: "utf8 (c # s) = (192 + n div 64) # (128 + n mod 64) # utf8 s"
      by (simp add: utf8_def utf8_char_def n_def Let_def)
    have "n div 64 = 2 \<or> n div 64 = 3" using False n by linarith
    moreover have "n div 64 * 64 + n mod 64 = n" by simp
    ultimately show ?thesis using n Cons unfolding e by (auto simp: algebra_simps)
  qed
qed

end
