(* ===== verification/Crypto.thy ===== *)
theory Crypto
  imports Encoding
begin

text \<open>
  Secrets at rest (\<open>crypto.py\<close>): AES-GCM under a key derived from operator material, stored
  as base64 of nonce and ciphertext, with a second key accepted while keys rotate. HKDF and
  AES-GCM of the \<open>cryptography\<close> package are the parameter \<open>aead\<close>.
\<close>

record aead =
  ae_hkdf :: "int list \<Rightarrow> int list"
  ae_encrypt :: "int list \<Rightarrow> int list \<Rightarrow> int list \<Rightarrow> int list"
  ae_decrypt :: "int list \<Rightarrow> int list \<Rightarrow> int list \<Rightarrow> int list option"

datatype crypto_error =
    MalformedBlob
  | TruncatedBlob
  | AuthenticationFailed
  | NonUtf8

definition NONCE_LEN :: nat where "NONCE_LEN = 12"

definition derive_kek :: "aead \<Rightarrow> string \<Rightarrow> int list" where
  "derive_kek A kek_material = ae_hkdf A (utf8 kek_material)"

text \<open>\<open>nonce\<close> is the draw of \<open>os.urandom\<close>.\<close>

definition encrypt_secret :: "aead \<Rightarrow> string \<Rightarrow> string \<Rightarrow> int list \<Rightarrow> string" where
  "encrypt_secret A plaintext kek_material nonce =
    b64encode False (nonce @ ae_encrypt A (derive_kek A kek_material) nonce (utf8 plaintext))"

definition decrypt_with :: "aead \<Rightarrow> string \<Rightarrow> string \<Rightarrow> crypto_error + string" where
  "decrypt_with A blob kek_material =
    (case b64decode False blob of
       None \<Rightarrow> Inl MalformedBlob
     | Some raw \<Rightarrow>
         if length raw < NONCE_LEN + 1 then Inl TruncatedBlob
         else
           let nonce = take NONCE_LEN raw; ct = drop NONCE_LEN raw
           in case ae_decrypt A (derive_kek A kek_material) nonce ct of
                None \<Rightarrow> Inl AuthenticationFailed
              | Some pt \<Rightarrow> (case utf8_decode pt of None \<Rightarrow> Inl NonUtf8 | Some s \<Rightarrow> Inr s))"

text \<open>
  The current key first; every failure but a malformed encoding falls back to the previous
  key when there is a different one.
\<close>

definition decrypt_secret ::
  "aead \<Rightarrow> string \<Rightarrow> string \<Rightarrow> string option \<Rightarrow> crypto_error + string" where
  "decrypt_secret A blob kek_material prev_kek_material =
    (case decrypt_with A blob kek_material of
       Inr pt \<Rightarrow> Inr pt
     | Inl MalformedBlob \<Rightarrow> Inl MalformedBlob
     | Inl e \<Rightarrow>
         if \<not> truthy_str prev_kek_material \<or> prev_kek_material = Some kek_material then Inl e
         else decrypt_with A blob (upd_opt prev_kek_material []))"

section \<open>The contract of AES-GCM\<close>

text \<open>
  HKDF derives 32 bytes. Decryption with the key and nonce of the encryption gives the
  plaintext back, with another key it fails; a ciphertext is a byte string that carries at
  least its tag.
\<close>

definition is_key :: "int list \<Rightarrow> bool" where
  "is_key k \<longleftrightarrow> length k = 32 \<and> list_all is_byte k"

definition aead_sound :: "aead \<Rightarrow> bool" where
  "aead_sound A \<longleftrightarrow>
     (\<forall>m. is_key (ae_hkdf A m)) \<and>
     (\<forall>k n p. is_key k \<longrightarrow> list_all is_byte n \<longrightarrow> list_all is_byte p \<longrightarrow>
        ae_decrypt A k n (ae_encrypt A k n p) = Some p \<and>
        (\<forall>k'. is_key k' \<longrightarrow> k' \<noteq> k \<longrightarrow> ae_decrypt A k' n (ae_encrypt A k n p) = None) \<and>
        list_all is_byte (ae_encrypt A k n p) \<and> ae_encrypt A k n p \<noteq> [])"

lemma decrypt_with_encrypt:
  assumes "aead_sound A" "length nonce = NONCE_LEN" "list_all is_byte nonce"
  shows "decrypt_with A (encrypt_secret A p kek nonce) kek' =
    (if derive_kek A kek' = derive_kek A kek then Inr p else Inl AuthenticationFailed)"
proof -
  let ?ct = "ae_encrypt A (derive_kek A kek) nonce (utf8 p)"
  have ct: "ae_decrypt A (derive_kek A kek) nonce ?ct = Some (utf8 p)" "list_all is_byte ?ct" "?ct \<noteq> []"
    "derive_kek A kek' \<noteq> derive_kek A kek \<Longrightarrow> ae_decrypt A (derive_kek A kek') nonce ?ct = None"
    using assms(1,3) utf8_byte [of p] unfolding aead_sound_def derive_kek_def by blast+
  have "b64decode False (encrypt_secret A p kek nonce) = Some (nonce @ ?ct)"
    unfolding encrypt_secret_def using assms(3) ct(2) by (intro b64_roundtrip) simp
  moreover have "\<not> length (nonce @ ?ct) < NONCE_LEN + 1" using assms(2) ct(3) by (cases ?ct) simp_all
  ultimately show ?thesis
    using assms(2) ct(1,4) by (simp add: decrypt_with_def utf8_roundtrip)
qed

section \<open>Properties\<close>

text \<open>
  C28: secrets survive a rotation of the key. With AES-GCM sound, a secret encrypted under a
  key decrypts under that key as current key whatever the previous one is, and also as the
  previous key under any current key; under two keys that derive differently it is refused.
\<close>

theorem secret_rotation_window:
  assumes "aead_sound A" "length nonce = NONCE_LEN" "list_all is_byte nonce" "old \<noteq> []"
  shows "decrypt_secret A (encrypt_secret A p kek nonce) kek prev = Inr p \<and>
    decrypt_secret A (encrypt_secret A p old nonce) new (Some old) = Inr p \<and>
    (derive_kek A old \<noteq> derive_kek A new \<longrightarrow>
      decrypt_secret A (encrypt_secret A p old nonce) new None = Inl AuthenticationFailed)"
  using assms(4) decrypt_with_encrypt [OF assms(1-3)]
  by (simp add: decrypt_secret_def)

text \<open>A cipher that meets the contract: it sends the key along and compares it.\<close>

definition demo_aead :: aead where
  "demo_aead = \<lparr>ae_hkdf = (\<lambda>m. take 32 (map (\<lambda>x. x mod 256) m @ replicate 32 0)),
     ae_encrypt = (\<lambda>k n p. k @ p),
     ae_decrypt = (\<lambda>k n c. if take 32 c = k then Some (drop 32 c) else None)\<rparr>"

lemma demo_aead_sound: "aead_sound demo_aead"
proof -
  have "list_all is_byte (map (\<lambda>x. x mod 256) m @ replicate 32 0)" for m
    by (simp add: list_all_iff is_byte_def)
  then have "list_all is_byte (take 32 (map (\<lambda>x. x mod 256) m @ replicate 32 0))" for m
    unfolding list_all_iff by (blast dest: in_set_takeD)
  then have key: "is_key (ae_hkdf demo_aead m)" for m
    by (simp add: demo_aead_def is_key_def)
  have box: "ae_decrypt demo_aead k n (ae_encrypt demo_aead k n p) = Some p"
    "k' \<noteq> k \<Longrightarrow> ae_decrypt demo_aead k' n (ae_encrypt demo_aead k n p) = None"
    "ae_encrypt demo_aead k n p \<noteq> []" "list_all is_byte p \<Longrightarrow> list_all is_byte (ae_encrypt demo_aead k n p)"
    if "is_key k" for k k' n p
    using that by (simp_all add: demo_aead_def is_key_def) fastforce
  show ?thesis unfolding aead_sound_def using key box by blast
qed

theorem secret_rotation_window_witness:
  "decrypt_secret demo_aead (encrypt_secret demo_aead ''totp'' ''old'' (replicate 12 0)) ''new'' (Some ''old'')
     = Inr ''totp'' \<and>
   decrypt_secret demo_aead (encrypt_secret demo_aead ''totp'' ''old'' (replicate 12 0)) ''new'' None
     = Inl AuthenticationFailed"
proof -
  have n: "length (replicate 12 (0::int)) = NONCE_LEN" "list_all is_byte (replicate 12 0)" "''old'' \<noteq> []"
    by (simp_all add: NONCE_LEN_def list_all_iff is_byte_def)
  have "derive_kek demo_aead ''old'' \<noteq> derive_kek demo_aead ''new''"
    by (simp add: derive_kek_def demo_aead_def utf8_def utf8_char_def)
  with secret_rotation_window [OF demo_aead_sound n, of "''totp''" _ _ "''new''"] show ?thesis by blast
qed

end
