(* ===== verification/Jwt.thy ===== *)
theory Jwt
  imports Hashing
begin

text \<open>
  Tokens (\<open>jwt_utils.py\<close>): issuing, verifying, and reading the bearer header. The PyJWT
  package is the parameter \<open>jwt_lib\<close>; what the service relies on is stated as the
  predicates \<open>jwt_checks\<close> and \<open>jwt_roundtrip\<close>, the documented behaviour of
  \<open>jwt.decode\<close> and \<open>jwt.encode\<close>.
\<close>

section \<open>Claims and errors\<close>

text \<open>
  The payload of \<open>issue_token\<close>. A decoded token is guaranteed the claims the \<open>require\<close>
  option names; the others may be absent.
\<close>

record claims =
  cl_sub :: string
  cl_tid :: string
  cl_tenant :: "string option"
  cl_role :: "string option"
  cl_scope :: "string list option"
  cl_iat :: int
  cl_nbf :: "int option"
  cl_exp :: int
  cl_iss :: string
  cl_aud :: string
  cl_jti :: string
  cl_type :: "string option"

record jwt_header =
  jh_alg :: "string option"
  jh_kid :: "string option"

datatype jwt_error =
    NoAlgorithms
  | BadHeader
  | AlgNone
  | InvalidToken
  | TypeMismatch string
  | UnknownKid "string option"
  | MissingAuthorization
  | NotBearer

record jwt_lib =
  jw_encode :: "claims \<Rightarrow> string \<Rightarrow> string \<Rightarrow> string option \<Rightarrow> string"
  jw_header :: "string \<Rightarrow> jwt_header option"
  jw_decode :: "string \<Rightarrow> string \<Rightarrow> string list \<Rightarrow> string \<Rightarrow> string \<Rightarrow> time \<Rightarrow> claims option"

text \<open>\<open>int(x)\<close> truncates towards zero.\<close>

definition py_int :: "real \<Rightarrow> int" where
  "py_int x = (if x \<ge> 0 then \<lfloor>x\<rfloor> else \<lceil>x\<rceil>)"

section \<open>Operations\<close>

definition token_claims ::
  "string \<Rightarrow> string \<Rightarrow> string \<Rightarrow> string list \<Rightarrow> string \<Rightarrow> string \<Rightarrow> int \<Rightarrow> string \<Rightarrow> string \<Rightarrow> time \<Rightarrow> claims"
  where
  "token_claims sub tid role scopes issuer audience ttl_seconds token_type jti now =
    \<lparr>cl_sub = sub, cl_tid = tid, cl_tenant = Some tid, cl_role = Some role, cl_scope = Some scopes,
     cl_iat = py_int now, cl_nbf = Some (py_int now), cl_exp = py_int now + ttl_seconds,
     cl_iss = issuer, cl_aud = audience, cl_jti = jti, cl_type = Some token_type\<rparr>"

text \<open>The key id goes into the header of RS256 tokens only.\<close>

definition header_kid :: "string option \<Rightarrow> string \<Rightarrow> string option" where
  "header_kid kid algorithm = (if truthy_str kid \<and> algorithm = ''RS256'' then kid else None)"

definition issue_token ::
  "jwt_lib \<Rightarrow> string \<Rightarrow> string \<Rightarrow> string \<Rightarrow> string list \<Rightarrow> string \<Rightarrow> string \<Rightarrow> string \<Rightarrow> int \<Rightarrow> string
     \<Rightarrow> string \<Rightarrow> string option \<Rightarrow> string \<Rightarrow> time \<Rightarrow> string \<times> string" where
  "issue_token J sub tid role scopes signing_key issuer audience ttl_seconds token_type algorithm kid jti now =
    (jw_encode J (token_claims sub tid role scopes issuer audience ttl_seconds token_type jti now)
       signing_key algorithm (header_kid kid algorithm), jti)"

definition verify_token ::
  "jwt_lib \<Rightarrow> string \<Rightarrow> string \<Rightarrow> string \<Rightarrow> string \<Rightarrow> string option \<Rightarrow> string list \<Rightarrow> time
     \<Rightarrow> jwt_error + claims" where
  "verify_token J token signing_key issuer audience token_type algorithms now =
    (if algorithms = [] then Inl NoAlgorithms
     else case jw_header J token of
       None \<Rightarrow> Inl BadHeader
     | Some header \<Rightarrow>
         if jh_alg header = Some ''none'' then Inl AlgNone
         else case jw_decode J token signing_key algorithms issuer audience now of
           None \<Rightarrow> Inl InvalidToken
         | Some claims \<Rightarrow>
             if token_type \<noteq> None \<and> cl_type claims \<noteq> token_type
             then Inl (TypeMismatch (upd_opt token_type []))
             else Inr claims)"

definition extract_bearer :: "string \<Rightarrow> jwt_error + string" where
  "extract_bearer header =
    (if header = [] then Inl MissingAuthorization
     else if \<not> startswith (py_lower header) ''bearer '' then Inl NotBearer
     else Inr (py_strip (drop 7 header)))"

section \<open>The contract of PyJWT\<close>

text \<open>
  \<open>jwt.decode\<close> returns only after the registered claims passed: issuer and audience as
  asked for, not expired.
\<close>

definition jwt_checks :: "jwt_lib \<Rightarrow> bool" where
  "jwt_checks J \<longleftrightarrow>
     (\<forall>token key algs iss aud now c. jw_decode J token key algs iss aud now = Some c \<longrightarrow>
        cl_iss c = iss \<and> cl_aud c = aud \<and> now < of_int (cl_exp c))"

text \<open>
  A token encoded under a key decodes under the matching verification key, from the moment
  it is issued until it expires, and never to other claims; its header names the algorithm and
  key id it was made with.
  \<open>pair\<close> relates signing keys to verification keys per algorithm.
\<close>

definition jwt_roundtrip :: "jwt_lib \<Rightarrow> (string \<Rightarrow> string \<Rightarrow> string \<Rightarrow> bool) \<Rightarrow> bool" where
  "jwt_roundtrip J pair \<longleftrightarrow>
     (\<forall>c key alg kid. jw_header J (jw_encode J c key alg kid) = Some \<lparr>jh_alg = Some alg, jh_kid = kid\<rparr>) \<and>
     (\<forall>c key alg kid vkey now. pair alg key vkey \<longrightarrow> of_int (cl_iat c) \<le> now \<longrightarrow>
        (case cl_nbf c of None \<Rightarrow> True | Some n \<Rightarrow> of_int n \<le> now) \<longrightarrow> now < of_int (cl_exp c) \<longrightarrow>
        jw_decode J (jw_encode J c key alg kid) vkey [alg] (cl_iss c) (cl_aud c) now = Some c) \<and>
     (\<forall>c key alg kid vkey algs iss aud now c'.
        jw_decode J (jw_encode J c key alg kid) vkey algs iss aud now = Some c' \<longrightarrow> c' = c)"

section \<open>Facts\<close>

lemma jwt_roundtripD:
  assumes "jwt_roundtrip J pair"
  shows "jw_header J (jw_encode J c key alg kid) = Some \<lparr>jh_alg = Some alg, jh_kid = kid\<rparr>"
    "pair alg key vkey \<Longrightarrow> of_int (cl_iat c) \<le> now \<Longrightarrow>
       (case cl_nbf c of None \<Rightarrow> True | Some m \<Rightarrow> of_int m \<le> now) \<Longrightarrow> now < of_int (cl_exp c) \<Longrightarrow>
       jw_decode J (jw_encode J c key alg kid) vkey [alg] (cl_iss c) (cl_aud c) now = Some c"
    "jw_decode J (jw_encode J c key alg kid) vkey algs iss aud now = Some c' \<Longrightarrow> c' = c"
  using assms unfolding jwt_roundtrip_def by blast+

lemma verify_token_ok:
  assumes "verify_token J token key iss aud tt algs now = Inr c"
  shows "jw_decode J token key algs iss aud now = Some c" "tt \<noteq> None \<Longrightarrow> cl_type c = tt"
    "\<exists>h. jw_header J token = Some h \<and> jh_alg h \<noteq> Some ''none''"
  using assms by (auto simp: verify_token_def split: if_splits option.splits)

lemma verify_token_intro:
  assumes "algs \<noteq> []" "jw_header J token = Some h" "jh_alg h \<noteq> Some ''none''"
    "jw_decode J token key algs iss aud now = Some c" "tt = None \<or> cl_type c = tt"
  shows "verify_token J token key iss aud tt algs now = Inr c"
  using assms by (auto simp: verify_token_def)

lemma py_int_le: "0 \<le> x \<Longrightarrow> of_int (py_int x) \<le> x"
  by (simp add: py_int_def)

end
