(* ===== verification/Key_Ring.thy ===== *)
theory Key_Ring
  imports Encoding Jwt
begin

text \<open>
  Signing keys (\<open>jwks.py\<close>): the ring of RSA keys with its index by key id, rotation, the
  grace window for retired keys, the persisted copy and the published key set. PEM parsing
  and key generation of the \<open>cryptography\<close> package are the parameter \<open>rsa_lib\<close> and, for
  a drawn key pair, arguments of the operation. A file holds a JSON value, or text that does
  not parse; the textual form \<open>json.dump\<close> writes and \<open>json.load\<close> reads is not modelled.
\<close>

section \<open>Strings and JSON values\<close>

text \<open>\<open>s.split(sep)\<close> and \<open>p in s\<close>.\<close>

function split_on :: "string \<Rightarrow> string \<Rightarrow> string \<Rightarrow> string list" where
  "split_on sep acc s =
    (if s = [] \<or> sep = [] then [rev acc @ s]
     else if startswith s sep then rev acc # split_on sep [] (drop (length sep) s)
     else split_on sep (hd s # acc) (tl s))"
  by pat_completeness auto
termination
  by (relation "measure (\<lambda>(sep, acc, s). length s)") (auto simp: startswith_def)

declare split_on.simps [simp del]

definition py_split :: "string \<Rightarrow> string \<Rightarrow> string list" where
  "py_split s sep = split_on sep [] s"

definition py_contains :: "string \<Rightarrow> string \<Rightarrow> bool" where
  "py_contains s p \<longleftrightarrow> list_ex (\<lambda>i. startswith (drop i s) p) [0..<Suc (length s)]"

fun truthy_json :: "json \<Rightarrow> bool" where
  "truthy_json JNull = False"
| "truthy_json (JBool b) = b"
| "truthy_json (JInt i) = (i \<noteq> 0)"
| "truthy_json (JFloat x) = (x \<noteq> 0)"
| "truthy_json (JStr s) = (s \<noteq> [])"
| "truthy_json (JArr xs) = (xs \<noteq> [])"
| "truthy_json (JObj kvs) = (kvs \<noteq> [])"

text \<open>\<open>d.get(k)\<close>; on anything but an object the attribute is missing.\<close>

fun jget :: "json \<Rightarrow> string \<Rightarrow> json option" where
  "jget (JObj kvs) k = Some (upd_opt (map_of kvs k) JNull)"
| "jget _ k = None"

section \<open>Keys\<close>

record rsa_key =
  rk_kid :: string
  rk_private_pem :: string
  rk_public_pem :: string
  rk_created_at :: time

definition GRACE_SECONDS :: real where "GRACE_SECONDS = 24 * 3600"

definition rsa_key_to_dict :: "rsa_key \<Rightarrow> json" where
  "rsa_key_to_dict rk = JObj
    [(''kid'', JStr (rk_kid rk)), (''private_pem'', JStr (rk_private_pem rk)),
     (''public_pem'', JStr (rk_public_pem rk)), (''created_at'', JFloat (rk_created_at rk))]"

text \<open>
  Reading a key back. The outer option is \<open>None\<close> where the code raises or where a field is
  not of the type the key record declares (a non-string key id, a textual timestamp).
\<close>

definition json_text :: "json \<Rightarrow> string option" where
  "json_text j =
    (if \<not> truthy_json j then Some [] else case j of JStr s \<Rightarrow> Some s | _ \<Rightarrow> None)"

definition json_float :: "json \<Rightarrow> time option" where
  "json_float j =
    (if \<not> truthy_json j then Some 0
     else case j of JFloat x \<Rightarrow> Some x | JInt i \<Rightarrow> Some (of_int i) | JBool b \<Rightarrow> Some 1 | _ \<Rightarrow> None)"

definition rsa_key_from_dict :: "json \<Rightarrow> rsa_key option option" where
  "rsa_key_from_dict d =
    (case (jget d ''kid'', jget d ''public_pem'', jget d ''private_pem'', jget d ''created_at'') of
       (Some kid, Some pub, Some priv, Some created) \<Rightarrow>
         if \<not> truthy_json kid \<or> \<not> truthy_json pub then Some None
         else (case (json_text kid, json_text pub, json_text priv, json_float created) of
                 (Some k, Some p, Some q, Some c) \<Rightarrow>
                   Some (Some \<lparr>rk_kid = k, rk_private_pem = q, rk_public_pem = p, rk_created_at = c\<rparr>)
               | _ \<Rightarrow> None)
     | _ \<Rightarrow> None)"

record rsa_lib =
  rl_public_of :: "string \<Rightarrow> string option"
  rl_loads_public :: "string \<Rightarrow> bool"
  rl_numbers :: "string \<Rightarrow> (int \<times> int) option"

definition b64u_int :: "int \<Rightarrow> string" where
  "b64u_int n = rev (dropWhile (\<lambda>c. c = CHR ''='') (rev (b64encode True (to_bytes n))))"

definition kid_for_pem :: "string \<Rightarrow> string" where
  "kid_for_pem public_pem =
    take 16 (b64u_int (from_bytes (take 10 (sha256_digest (utf8 public_pem)))))"

record jwk =
  jwk_kid :: string
  jwk_n :: string
  jwk_e :: string

definition rsa_public_jwk :: "rsa_lib \<Rightarrow> string \<Rightarrow> string \<Rightarrow> jwk option" where
  "rsa_public_jwk R kid public_pem =
    map_option (\<lambda>(n, e). \<lparr>jwk_kid = kid, jwk_n = b64u_int n, jwk_e = b64u_int e\<rparr>)
      (rl_numbers R public_pem)"

section \<open>The ring\<close>

record key_ring =
  kr_algorithm :: string
  kr_hs_key :: string
  kr_rsa_current :: "rsa_key option"
  kr_rsa_retired :: "rsa_key list"
  kr_kid_index :: "(string, rsa_key) dict"
  kr_persist_path :: string

definition hs256 :: "string \<Rightarrow> key_ring" where
  "hs256 key = \<lparr>kr_algorithm = ''HS256'', kr_hs_key = key, kr_rsa_current = None, kr_rsa_retired = [],
     kr_kid_index = [], kr_persist_path = []\<rparr>"

datatype file_content = Unparsable | Parsed json

type_synonym disk = "(string, file_content) dict"

text \<open>
  A write succeeds, fails after the temporary file was made (logged and swallowed), or fails
  to make the temporary file, which is outside the \<open>try\<close> and raises.
\<close>

datatype write_result = Written | WriteFails | MkstempFails

datatype ring_error = OsError | PemError | PayloadError

definition ring_payload :: "key_ring \<Rightarrow> rsa_key \<Rightarrow> json" where
  "ring_payload r cur = JObj
    [(''algorithm'', JStr (kr_algorithm r)), (''current'', rsa_key_to_dict cur),
     (''retired'', JArr (map rsa_key_to_dict (kr_rsa_retired r)))]"

definition persist :: "write_result \<Rightarrow> key_ring \<Rightarrow> disk \<Rightarrow> (ring_error, unit, disk) outcome" where
  "persist w r d =
    (if kr_persist_path r = [] \<or> kr_algorithm r \<noteq> ''RS256'' then ret () d
     else case kr_rsa_current r of
       None \<Rightarrow> ret () d
     | Some cur \<Rightarrow>
         (case w of
            MkstempFails \<Rightarrow> raise OsError d
          | WriteFails \<Rightarrow> ret () d
          | Written \<Rightarrow> ret () (dset (kr_persist_path r) (Parsed (ring_payload r cur)) d)))"

text \<open>A list of optional keys: an unreadable one raises, a missing one is dropped.\<close>

fun read_keys :: "json list \<Rightarrow> rsa_key list option" where
  "read_keys [] = Some []"
| "read_keys (d # ds) =
     (case rsa_key_from_dict d of
        None \<Rightarrow> None
      | Some rk \<Rightarrow> map_option (\<lambda>ks. (case rk of None \<Rightarrow> ks | Some k \<Rightarrow> k # ks)) (read_keys ds))"

definition index_keys :: "rsa_key list \<Rightarrow> (string, rsa_key) dict \<Rightarrow> (string, rsa_key) dict" where
  "index_keys ks d = fold (\<lambda>rk. dset (rk_kid rk) rk) ks d"

definition load_persisted :: "string \<Rightarrow> disk \<Rightarrow> ring_error + key_ring option" where
  "load_persisted path d =
    (if path = [] then Inr None
     else case dget d path of
       None \<Rightarrow> Inr None
     | Some Unparsable \<Rightarrow> Inr None
     | Some (Parsed payload) \<Rightarrow>
         (case (jget payload ''algorithm'', jget payload ''current'', jget payload ''retired'') of
            (Some alg, Some cur, Some old) \<Rightarrow>
              if alg \<noteq> JStr ''RS256'' then Inr None
              else
                (case (rsa_key_from_dict (if truthy_json cur then cur else JObj []),
                       (if truthy_json old then (case old of JArr ds \<Rightarrow> read_keys ds | _ \<Rightarrow> None)
                        else Some [])) of
                   (Some None, Some ks) \<Rightarrow> Inr None
                 | (Some (Some k), Some ks) \<Rightarrow>
                     Inr (Some \<lparr>kr_algorithm = ''RS256'', kr_hs_key = [], kr_rsa_current = Some k,
                                kr_rsa_retired = ks, kr_kid_index = index_keys (k # ks) [],
                                kr_persist_path = path\<rparr>)
                 | _ \<Rightarrow> Inl PayloadError)
          | _ \<Rightarrow> Inl PayloadError))"

text \<open>Extra verification keys; a block that is not a public key is skipped.\<close>

definition end_marker :: string where
  "end_marker = ''-----END PUBLIC KEY-----''"

definition extra_pems :: "string \<Rightarrow> string list" where
  "extra_pems public_keys_pem =
    map (\<lambda>block. py_strip block @ [CHR 0x0A] @ end_marker)
      (filter (\<lambda>b. py_contains b ''BEGIN'') (py_split public_keys_pem end_marker))"

definition ext_kid :: "string \<Rightarrow> string" where
  "ext_kid pem = ''kid-ext-'' @ kid_for_pem pem"

definition extra_key :: "time \<Rightarrow> string \<Rightarrow> rsa_key" where
  "extra_key now pem =
    \<lparr>rk_kid = ext_kid pem, rk_private_pem = [], rk_public_pem = pem, rk_created_at = now\<rparr>"

definition load_extra_public_keys :: "rsa_lib \<Rightarrow> string \<Rightarrow> time \<Rightarrow> key_ring \<Rightarrow> key_ring" where
  "load_extra_public_keys R public_keys_pem now r =
    r\<lparr>kr_kid_index := index_keys
        (map (extra_key now) (filter (rl_loads_public R) (extra_pems public_keys_pem))) (kr_kid_index r)\<rparr>"

text \<open>\<open>fresh\<close> is the key pair drawn when no private key is configured; \<open>hex\<close> its random id.\<close>

definition rs256 ::
  "rsa_lib \<Rightarrow> string option \<Rightarrow> string option \<Rightarrow> string \<Rightarrow> string \<Rightarrow> string \<times> string \<Rightarrow> time \<Rightarrow> disk
     \<Rightarrow> ring_error + key_ring" where
  "rs256 R private_pem public_keys_pem path hex fresh now d =
    (let extras = (\<lambda>r. if truthy_str public_keys_pem
                       then load_extra_public_keys R (upd_opt public_keys_pem []) now r else r);
         init = (\<lambda>rk. extras \<lparr>kr_algorithm = ''RS256'', kr_hs_key = [], kr_rsa_current = Some rk,
                   kr_rsa_retired = [], kr_kid_index = [(rk_kid rk, rk)], kr_persist_path = path\<rparr>)
     in case load_persisted path d of
          Inl e \<Rightarrow> Inl e
        | Inr (Some r) \<Rightarrow> Inr (extras r)
        | Inr None \<Rightarrow>
            if truthy_str private_pem then
              (case rl_public_of R (upd_opt private_pem []) of
                 None \<Rightarrow> Inl PemError
               | Some pub \<Rightarrow>
                   Inr (init \<lparr>rk_kid = kid_for_pem pub, rk_private_pem = upd_opt private_pem [],
                              rk_public_pem = pub, rk_created_at = now\<rparr>))
            else Inr (init \<lparr>rk_kid = ''kid-'' @ hex, rk_private_pem = fst fresh,
                            rk_public_pem = snd fresh, rk_created_at = now\<rparr>))"

definition ring_kid :: "key_ring \<Rightarrow> string option" where
  "ring_kid r = map_option rk_kid (kr_rsa_current r)"

definition signing_key :: "key_ring \<Rightarrow> string" where
  "signing_key r =
    (case kr_rsa_current r of
       Some k \<Rightarrow> if kr_algorithm r = ''RS256'' then rk_private_pem k else kr_hs_key r
     | None \<Rightarrow> kr_hs_key r)"

definition verify_key_for :: "string option \<Rightarrow> key_ring \<Rightarrow> jwt_error + string" where
  "verify_key_for kid r =
    (if kr_algorithm r = ''HS256'' then Inr (kr_hs_key r)
     else if truthy_str kid then
       (case dget (kr_kid_index r) (upd_opt kid []) of
          Some rk \<Rightarrow> Inr (rk_public_pem rk)
        | None \<Rightarrow> Inl (UnknownKid kid))
     else Inl (UnknownKid kid))"

definition rotate ::
  "string \<Rightarrow> string \<times> string \<Rightarrow> time \<Rightarrow> write_result \<Rightarrow> key_ring \<Rightarrow> disk
     \<Rightarrow> (ring_error + string option) \<times> key_ring \<times> disk" where
  "rotate hex fresh now w r d =
    (case kr_rsa_current r of
       None \<Rightarrow> (Inr None, r, d)
     | Some cur \<Rightarrow>
         if kr_algorithm r \<noteq> ''RS256'' then (Inr None, r, d)
         else
           let new_kid = ''kid-'' @ hex;
               new_key = \<lparr>rk_kid = new_kid, rk_private_pem = fst fresh, rk_public_pem = snd fresh,
                          rk_created_at = now\<rparr>;
               r' = r\<lparr>kr_rsa_retired := kr_rsa_retired r @ [cur], kr_rsa_current := Some new_key,
                      kr_kid_index := dset new_kid new_key (kr_kid_index r)\<rparr>
           in case persist w r' d of
                (Inl e, d') \<Rightarrow> (Inl e, r', d')
              | (Inr _, d') \<Rightarrow> (Inr (Some new_kid), r', d'))"

definition expired_key :: "time \<Rightarrow> rsa_key \<Rightarrow> bool" where
  "expired_key now rk \<longleftrightarrow> now - rk_created_at rk > GRACE_SECONDS"

definition prune ::
  "time \<Rightarrow> write_result \<Rightarrow> key_ring \<Rightarrow> disk \<Rightarrow> (ring_error + nat) \<times> key_ring \<times> disk" where
  "prune now w r d =
    (let gone = filter (expired_key now) (kr_rsa_retired r);
         r' = r\<lparr>kr_rsa_retired := filter (\<lambda>rk. \<not> expired_key now rk) (kr_rsa_retired r),
                kr_kid_index := dpop_all (map rk_kid gone) (kr_kid_index r)\<rparr>
     in if gone = [] then (Inr 0, r', d)
        else case persist w r' d of
               (Inl e, d') \<Rightarrow> (Inl e, r', d')
             | (Inr _, d') \<Rightarrow> (Inr (length gone), r', d'))"

text \<open>\<open>None\<close> when one of the keys is not an RSA public key, a \<open>ValueError\<close>.\<close>

fun those_jwks :: "jwk option list \<Rightarrow> jwk list option" where
  "those_jwks [] = Some []"
| "those_jwks (x # xs) = (case x of None \<Rightarrow> None | Some k \<Rightarrow> map_option (Cons k) (those_jwks xs))"

definition jwks :: "rsa_lib \<Rightarrow> key_ring \<Rightarrow> jwk list option" where
  "jwks R r =
    those_jwks (map (\<lambda>rk. rsa_public_jwk R (rk_kid rk) (rk_public_pem rk))
      ((case kr_rsa_current r of None \<Rightarrow> [] | Some k \<Rightarrow> [k]) @ kr_rsa_retired r))"

section \<open>Invariant\<close>

text \<open>The current key and the retired ones, in the order \<^const>\<open>jwks\<close> publishes them.\<close>

definition ring_keys :: "key_ring \<Rightarrow> rsa_key list" where
  "ring_keys r = (case kr_rsa_current r of None \<Rightarrow> [] | Some k \<Rightarrow> [k]) @ kr_rsa_retired r"

abbreviation by_kid :: "rsa_key list \<Rightarrow> (string, rsa_key) dict" where
  "by_kid ks \<equiv> map (\<lambda>rk. (rk_kid rk, rk)) ks"

definition keys_ok :: "key_ring \<Rightarrow> bool" where
  "keys_ok r \<longleftrightarrow> kr_algorithm r = ''RS256'' \<and> kr_rsa_current r \<noteq> None \<and> distinct (map rk_kid (ring_keys r))"

text \<open>
  The index holds the keys of the ring and the extra verification keys \<open>ext\<close>, each under its
  own id, and nothing else. Of two extra keys with one id the later one counts.
\<close>

definition ring_ok :: "rsa_key list \<Rightarrow> key_ring \<Rightarrow> bool" where
  "ring_ok ext r \<longleftrightarrow> keys_ok r \<and> (\<forall>rk \<in> set (ring_keys r). rk_kid rk \<notin> rk_kid ` set ext) \<and>
     (\<forall>k. dget (kr_kid_index r) k = dget (by_kid (ring_keys r @ rev ext)) k)"

text \<open>What the persisted file of a well-formed ring looks like.\<close>

definition disk_ok :: "string \<Rightarrow> disk \<Rightarrow> bool" where
  "disk_ok path d \<longleftrightarrow>
     (\<forall>f. dget d path = Some f \<longrightarrow>
        (\<exists>r k. keys_ok r \<and> kr_rsa_current r = Some k \<and> f = Parsed (ring_payload r k)))"

text \<open>The configured extra keys, as \<^const>\<open>rs256\<close> loads them at a start.\<close>

definition configured_pems :: "rsa_lib \<Rightarrow> string option \<Rightarrow> string list" where
  "configured_pems R pk =
    (if truthy_str pk then filter (rl_loads_public R) (extra_pems (upd_opt pk [])) else [])"

definition apart :: "rsa_lib \<Rightarrow> string option \<Rightarrow> key_ring \<Rightarrow> bool" where
  "apart R pk r \<longleftrightarrow> (\<forall>rk \<in> set (ring_keys r). rk_kid rk \<notin> ext_kid ` set (configured_pems R pk))"

text \<open>
  The life of a key ring: a first start with nothing persisted, rotations that draw an unused
  key id, pruning, and restarts from whatever the disk holds by then. Every start may have
  extra verification keys \<open>pk\<close> configured, whose ids are not those of keys of the ring.
\<close>

inductive ring_reach :: "rsa_lib \<Rightarrow> string \<Rightarrow> string option \<Rightarrow> key_ring \<Rightarrow> disk \<Rightarrow> bool" for R path where
  boot: "rs256 R priv pk path hex fresh now [] = Inr r \<Longrightarrow> apart R pk r \<Longrightarrow> ring_reach R path pk r []"
| rotated: "ring_reach R path pk r d \<Longrightarrow> dget (kr_kid_index r) (''kid-'' @ hex) = None \<Longrightarrow>
    rotate hex fresh now w r d = (res, r', d') \<Longrightarrow> ring_reach R path pk r' d'"
| pruned: "ring_reach R path pk r d \<Longrightarrow> prune now w r d = (res', r', d') \<Longrightarrow> ring_reach R path pk r' d'"
| restarted: "ring_reach R path pk r d \<Longrightarrow> rs256 R priv pk' path hex fresh now d = Inr r' \<Longrightarrow>
    apart R pk' r' \<Longrightarrow> ring_reach R path pk' r' d"

definition good_key :: "rsa_key \<Rightarrow> bool" where
  "good_key rk \<longleftrightarrow> rk_kid rk \<noteq> [] \<and> rk_public_pem rk \<noteq> []"

lemma rsa_key_roundtrip:
  "rsa_key_from_dict (rsa_key_to_dict rk) = Some (if good_key rk then Some rk else None)"
  by (simp add: rsa_key_from_dict_def rsa_key_to_dict_def good_key_def json_text_def json_float_def)

lemma read_keys_roundtrip: "read_keys (map rsa_key_to_dict ks) = Some (filter good_key ks)"
  by (induction ks) (simp_all add: rsa_key_roundtrip)

lemma option_ext: "(\<And>x. a = Some x \<longleftrightarrow> b = Some x) \<Longrightarrow> a = b"
  by (cases a) (auto, metis option.exhaust)

lemma dget_keys_append:
  "dget (by_kid (xs @ ys)) k = (case dget (by_kid xs) k of None \<Rightarrow> dget (by_kid ys) k | x \<Rightarrow> x)"
  by (induction xs) auto

lemma dget_keys_iff:
  "distinct (map rk_kid ks) \<Longrightarrow> dget (by_kid ks) k = Some rk \<longleftrightarrow> rk \<in> set ks \<and> rk_kid rk = k"
  by (induction ks) (auto simp: image_iff)

lemma dget_keys_None: "dget (by_kid ks) k = None \<longleftrightarrow> k \<notin> rk_kid ` set ks"
  by (simp add: map_of_eq_None_iff image_image)

lemma dget_keys_ext:
  assumes "distinct (map rk_kid ks)" "distinct (map rk_kid ks')" "set ks = set ks'"
  shows "dget (by_kid ks) k = dget (by_kid ks') k"
proof -
  have "dget (by_kid ks) k = Some rk \<longleftrightarrow> dget (by_kid ks') k = Some rk" for rk
    by (simp add: dget_keys_iff assms)
  then show ?thesis by (rule option_ext)
qed

lemma dget_index_keys:
  "dget (index_keys ks d) k = (case dget (by_kid (rev ks)) k of None \<Rightarrow> dget d k | x \<Rightarrow> x)"
proof (induction ks arbitrary: d)
  case Nil
  show ?case by (simp add: index_keys_def)
next
  case (Cons rk ks)
  have "index_keys (rk # ks) d = index_keys ks (dset (rk_kid rk) rk d)"
    by (simp add: index_keys_def)
  with Cons show ?case by (auto simp: dget_dset dget_keys_append simp del: map_append split: option.split)
qed

lemma distinct_filter_keys: "distinct (map f xs) \<Longrightarrow> distinct (map f (filter P xs))"
  by (rule distinct_map_filter)

lemma load_persisted_payload:
  assumes "path \<noteq> []" "dget d path = Some (Parsed (ring_payload r k))" "kr_algorithm r = ''RS256''"
  shows "load_persisted path d = Inr (if good_key k
     then Some \<lparr>kr_algorithm = ''RS256'', kr_hs_key = [], kr_rsa_current = Some k,
                kr_rsa_retired = filter good_key (kr_rsa_retired r),
                kr_kid_index = index_keys (k # filter good_key (kr_rsa_retired r)) [],
                kr_persist_path = path\<rparr> else None)"
proof -
  have cur: "truthy_json (rsa_key_to_dict k)" by (simp add: rsa_key_to_dict_def)
  show ?thesis
    using assms read_keys_roundtrip [of "kr_rsa_retired r"]
    by (simp add: load_persisted_def ring_payload_def cur rsa_key_roundtrip)
qed

lemma load_persisted_ok:
  assumes "disk_ok path d"
  shows "load_persisted path d = Inr None \<or> (\<exists>r. load_persisted path d = Inr (Some r) \<and> ring_ok [] r \<and>
           kr_persist_path r = path)"
proof (cases "path = [] \<or> dget d path = None")
  case True
  then show ?thesis by (auto simp: load_persisted_def)
next
  case False
  then obtain r k where r: "keys_ok r" "kr_rsa_current r = Some k"
    and f: "dget d path = Some (Parsed (ring_payload r k))"
    using assms by (auto simp: disk_ok_def)
  let ?ks = "k # filter good_key (kr_rsa_retired r)"
  have dist: "distinct (map rk_kid ?ks)"
    using r by (auto simp: keys_ok_def ring_keys_def distinct_filter_keys)
  then have "dget (by_kid (rev ?ks)) i = dget (by_kid ?ks) i" for i
    by (intro dget_keys_ext) (simp_all add: rev_map [symmetric])
  then show ?thesis
    using load_persisted_payload [OF _ f] False r dist dget_index_keys [of ?ks "[]"]
    by (auto simp: ring_ok_def keys_ok_def ring_keys_def split: option.split)
qed

lemma kids_extra: "rk_kid ` set (map (extra_key now) ps) = ext_kid ` set ps"
  by (simp add: image_image extra_key_def)

lemma extras_ok:
  assumes "ring_ok [] r" "\<forall>rk \<in> set (ring_keys r). rk_kid rk \<notin> rk_kid ` set ext"
  shows "ring_ok ext (r\<lparr>kr_kid_index := index_keys ext (kr_kid_index r)\<rparr>)"
proof -
  have idx: "dget (kr_kid_index r) k = dget (by_kid (ring_keys r)) k" for k
    using assms(1) by (simp add: ring_ok_def)
  have "dget (index_keys ext (kr_kid_index r)) k = dget (by_kid (ring_keys r @ rev ext)) k" for k
  proof (cases "dget (by_kid (ring_keys r)) k")
    case None
    then show ?thesis
      by (simp add: dget_index_keys dget_keys_append idx del: map_append split: option.split)
  next
    case (Some rk)
    then have "rk \<in> set (ring_keys r)" "k = rk_kid rk" using map_of_SomeD [OF Some] by auto
    then have "k \<notin> rk_kid ` set ext" using bspec [OF assms(2), of rk] by simp
    then have "dget (by_kid (rev ext)) k = None" unfolding dget_keys_None by simp
    then show ?thesis
      using Some by (simp add: dget_index_keys dget_keys_append idx del: map_append)
  qed
  moreover have "ring_keys (r\<lparr>kr_kid_index := i\<rparr>) = ring_keys r" "keys_ok (r\<lparr>kr_kid_index := i\<rparr>) = keys_ok r" for i
    by (simp_all add: keys_ok_def ring_keys_def)
  ultimately show ?thesis using assms by (simp add: ring_ok_def del: map_append)
qed

lemma rs256_ok:
  assumes "disk_ok path d" "rs256 R priv pk path hex fresh now d = Inr r" "apart R pk r"
  shows "ring_ok (map (extra_key now) (configured_pems R pk)) r \<and> kr_persist_path r = path"
proof -
  let ?ext = "map (extra_key now) (configured_pems R pk)"
  let ?load = "\<lambda>r. r\<lparr>kr_kid_index := index_keys ?ext (kr_kid_index r)\<rparr>"
  let ?first = "\<lambda>rk. \<lparr>kr_algorithm = ''RS256'', kr_hs_key = [], kr_rsa_current = Some rk, kr_rsa_retired = [],
    kr_kid_index = [(rk_kid rk, rk)], kr_persist_path = path\<rparr>"
  have load: "(if truthy_str pk then load_extra_public_keys R (upd_opt pk []) now r else r) = ?load r" for r
    by (simp add: load_extra_public_keys_def configured_pems_def index_keys_def)
  have first: "ring_ok [] (?first rk)" for rk by (simp add: ring_ok_def keys_ok_def ring_keys_def)
  have "\<exists>r0. ring_ok [] r0 \<and> kr_persist_path r0 = path \<and> r = ?load r0"
  proof (cases "load_persisted path d = Inr None")
    case True
    then obtain rk where "r = ?load (?first rk)"
      using assms(2) unfolding rs256_def Let_def load by (auto split: if_splits option.splits)
    with first [of rk] show ?thesis by (intro exI [of _ "?first rk"]) simp
  next
    case False
    then obtain r0 where "load_persisted path d = Inr (Some r0)" "ring_ok [] r0" "kr_persist_path r0 = path"
      using load_persisted_ok [OF assms(1)] by blast
    then show ?thesis using assms(2) unfolding rs256_def Let_def load by (intro exI [of _ r0]) simp
  qed
  then obtain r0 where r0: "ring_ok [] r0" "kr_persist_path r0 = path" "r = ?load r0" by blast
  have "\<forall>rk \<in> set (ring_keys r0). rk_kid rk \<notin> rk_kid ` set ?ext"
    using assms(3) unfolding kids_extra apart_def r0(3) by (simp add: ring_keys_def)
  from extras_ok [OF r0(1) this] r0(2,3) show ?thesis by simp
qed

lemma persist_disk_ok:
  assumes "disk_ok path d" "keys_ok r" "kr_persist_path r = path"
  shows "disk_ok path (snd (persist w r d))"
  using assms
  by (auto simp: persist_def disk_ok_def dget_dset split: option.split write_result.split)

lemma rotate_ring:
  assumes "kr_algorithm r = ''RS256''" "kr_rsa_current r = Some cur"
    "rotate hex fresh now w r d = (res, r', d')"
  shows "r' = r\<lparr>kr_rsa_retired := kr_rsa_retired r @ [cur],
           kr_rsa_current := Some \<lparr>rk_kid = ''kid-'' @ hex, rk_private_pem = fst fresh,
             rk_public_pem = snd fresh, rk_created_at = now\<rparr>,
           kr_kid_index := dset (''kid-'' @ hex) \<lparr>rk_kid = ''kid-'' @ hex, rk_private_pem = fst fresh,
             rk_public_pem = snd fresh, rk_created_at = now\<rparr> (kr_kid_index r)\<rparr>"
    "d' = snd (persist w r' d)"
  using assms by (auto simp: rotate_def Let_def split: prod.splits sum.splits)

lemma ring_okD:
  assumes "ring_ok ext r"
  obtains cur where "kr_algorithm r = ''RS256''" "kr_rsa_current r = Some cur"
    "distinct (map rk_kid (cur # kr_rsa_retired r))"
    "\<And>k. dget (kr_kid_index r) k = dget (by_kid ((cur # kr_rsa_retired r) @ rev ext)) k"
    "\<forall>rk \<in> set (cur # kr_rsa_retired r). rk_kid rk \<notin> rk_kid ` set ext"
  using assms by (auto simp: ring_ok_def keys_ok_def ring_keys_def)

lemma rotate_ok:
  assumes "ring_ok ext r" "dget (kr_kid_index r) (''kid-'' @ hex) = None"
    "rotate hex fresh now w r d = (res, r', d')"
  shows "ring_ok ext r'" "kr_persist_path r' = kr_persist_path r"
proof -
  obtain cur where r: "kr_algorithm r = ''RS256''" "kr_rsa_current r = Some cur"
    "distinct (map rk_kid (cur # kr_rsa_retired r))"
    "\<And>k. dget (kr_kid_index r) k = dget (by_kid ((cur # kr_rsa_retired r) @ rev ext)) k"
    "\<forall>rk \<in> set (cur # kr_rsa_retired r). rk_kid rk \<notin> rk_kid ` set ext"
    by (rule ring_okD [OF assms(1)]) blast
  let ?new = "\<lparr>rk_kid = ''kid-'' @ hex, rk_private_pem = fst fresh, rk_public_pem = snd fresh, rk_created_at = now\<rparr>"
  have fresh: "rk_kid ?new \<notin> rk_kid ` set ((cur # kr_rsa_retired r) @ rev ext)"
    using assms(2) unfolding r(4) dget_keys_None by simp
  have "dget (by_kid (cur # kr_rsa_retired r)) k = dget (by_kid (kr_rsa_retired r @ [cur])) k" for k
    using r(3) by (intro dget_keys_ext) auto
  then have "dget (kr_kid_index r) k = dget (by_kid ((kr_rsa_retired r @ [cur]) @ rev ext)) k" for k
    by (simp only: r(4) dget_keys_append)
  then have "dget (dset (rk_kid ?new) ?new (kr_kid_index r)) k
      = dget (by_kid ((?new # kr_rsa_retired r @ [cur]) @ rev ext)) k" for k
    by (simp add: dget_dset)
  then show "ring_ok ext r'"
    unfolding rotate_ring(1) [OF r(1,2) assms(3)] ring_ok_def keys_ok_def
    using r(1,3,5) fresh by (auto simp: ring_keys_def)
  show "kr_persist_path r' = kr_persist_path r"
    by (simp add: rotate_ring(1) [OF r(1,2) assms(3)])
qed

lemma prune_ring:
  assumes "prune now w r d = (res, r', d')"
  shows "r' = r\<lparr>kr_rsa_retired := filter (\<lambda>rk. \<not> expired_key now rk) (kr_rsa_retired r),
           kr_kid_index := dpop_all (map rk_kid (filter (expired_key now) (kr_rsa_retired r)))
             (kr_kid_index r)\<rparr>"
    "d' = d \<or> d' = snd (persist w r' d)"
  using assms by (auto simp: prune_def Let_def split: prod.splits sum.splits if_splits)

lemma prune_ok:
  assumes "ring_ok ext r" "prune now w r d = (res, r', d')"
  shows "ring_ok ext r'" "kr_persist_path r' = kr_persist_path r"
proof -
  obtain cur where r: "kr_algorithm r = ''RS256''" "kr_rsa_current r = Some cur"
    "distinct (map rk_kid (cur # kr_rsa_retired r))"
    "\<And>k. dget (kr_kid_index r) k = dget (by_kid ((cur # kr_rsa_retired r) @ rev ext)) k"
    "\<forall>rk \<in> set (cur # kr_rsa_retired r). rk_kid rk \<notin> rk_kid ` set ext"
    by (rule ring_okD [OF assms(1)]) blast
  let ?keep = "cur # filter (\<lambda>rk. \<not> expired_key now rk) (kr_rsa_retired r)"
  let ?gone = "filter (expired_key now) (kr_rsa_retired r)"
  have d: "distinct (map rk_kid ?keep)"
    using r(3) by (auto simp: distinct_filter_keys)
  have inj: "inj_on rk_kid (set (cur # kr_rsa_retired r))"
    using r(3) by (simp only: distinct_map)
  have notin: "rk_kid rk \<notin> set (map rk_kid ?gone)" if "rk \<in> set ?keep" for rk
  proof
    assume "rk_kid rk \<in> set (map rk_kid ?gone)"
    then obtain rk' where rk': "rk' \<in> set ?gone" "rk_kid rk' = rk_kid rk" by auto
    then have "rk' = rk" by (intro inj_onD [OF inj]) (use that in auto)
    with rk' that r(3) show False by auto
  qed
  have ring: "(if k \<in> set (map rk_kid ?gone) then None else dget (by_kid (cur # kr_rsa_retired r)) k)
      = dget (by_kid ?keep) k" for k
  proof (rule option_ext)
    show "(if k \<in> set (map rk_kid ?gone) then None else dget (by_kid (cur # kr_rsa_retired r)) k) = Some rk \<longleftrightarrow>
        dget (by_kid ?keep) k = Some rk" for rk
      using notin by (auto simp: dget_keys_iff [OF r(3)] dget_keys_iff [OF d] simp del: list.map)
  qed
  have "dget (dpop_all (map rk_kid ?gone) (kr_kid_index r)) k = dget (by_kid (?keep @ rev ext)) k" for k
  proof (cases "k \<in> set (map rk_kid ?gone)")
    case True
    then have "dget (by_kid (rev ext)) k = None" using r(5) unfolding dget_keys_None by auto
    then show ?thesis
      using True ring [of k] unfolding dget_dpop_all dget_keys_append by (simp split: option.split)
  next
    case False
    then show ?thesis
      using ring [of k] unfolding dget_dpop_all dget_keys_append r(4) by (simp split: option.split)
  qed
  then show "ring_ok ext r'"
    unfolding prune_ring(1) [OF assms(2)] ring_ok_def keys_ok_def
    using r(1,2,5) d by (simp add: ring_keys_def del: map_append)
  show "kr_persist_path r' = kr_persist_path r"
    by (simp add: prune_ring(1) [OF assms(2)])
qed

lemma ring_ok_keys: "ring_ok ext r \<Longrightarrow> keys_ok r"
  by (simp add: ring_ok_def)

lemma ring_reach_ok:
  "ring_reach R path pk r d \<Longrightarrow>
   (\<exists>now. ring_ok (map (extra_key now) (configured_pems R pk)) r) \<and> kr_persist_path r = path \<and> disk_ok path d"
proof (induction rule: ring_reach.induct)
  case (boot priv pk hex fresh now r)
  have "disk_ok path []" by (simp add: disk_ok_def)
  with rs256_ok [OF this boot] show ?case by blast
next
  case (rotated pk r d hex fresh now w res r' d')
  then obtain t where ok: "ring_ok (map (extra_key t) (configured_pems R pk)) r" by blast
  obtain cur where r: "kr_algorithm r = ''RS256''" "kr_rsa_current r = Some cur"
    by (rule ring_okD [OF ok])
  have ok': "ring_ok (map (extra_key t) (configured_pems R pk)) r'" "kr_persist_path r' = kr_persist_path r"
    using rotate_ok [OF ok rotated.hyps(2,3)] by simp_all
  show ?case
    using rotated.IH ok' rotate_ring(2) [OF r rotated.hyps(3)]
      persist_disk_ok [OF _ ring_ok_keys [OF ok'(1)], of path d w] by auto
next
  case (pruned pk r d now w res' r' d')
  then obtain t where ok: "ring_ok (map (extra_key t) (configured_pems R pk)) r" by blast
  have ok': "ring_ok (map (extra_key t) (configured_pems R pk)) r'" "kr_persist_path r' = kr_persist_path r"
    using prune_ok [OF ok pruned.hyps(2)] by simp_all
  show ?case
    using pruned.IH ok' prune_ring(2) [OF pruned.hyps(2)]
      persist_disk_ok [OF _ ring_ok_keys [OF ok'(1)], of path d w] by auto
next
  case (restarted pk r d priv pk' hex fresh now r')
  then show ?case using rs256_ok [OF _ restarted.hyps(2,3)] by blast
qed

text \<open>An extra key verifies with its PEM text, whenever it was loaded.\<close>

definition extra_index :: "rsa_lib \<Rightarrow> string option \<Rightarrow> (string, string) dict" where
  "extra_index R pk = rev (map (\<lambda>pem. (ext_kid pem, pem)) (configured_pems R pk))"

lemma dget_extra_keys:
  "map_option rk_public_pem (dget (by_kid (map (extra_key now) ps)) k) = dget (map (\<lambda>pem. (ext_kid pem, pem)) ps) k"
  by (induction ps) (simp_all add: extra_key_def)

lemma verify_key_for_ok:
  assumes "ring_ok (map (extra_key now) (configured_pems R pk)) r"
  shows "verify_key_for (Some kid) r =
    (if kid = [] then Inl (UnknownKid (Some kid))
     else case dget (by_kid (ring_keys r)) kid of
       Some rk \<Rightarrow> Inr (rk_public_pem rk)
     | None \<Rightarrow> (case dget (extra_index R pk) kid of Some pem \<Rightarrow> Inr pem | None \<Rightarrow> Inl (UnknownKid (Some kid))))"
proof -
  let ?ext = "by_kid (rev (map (extra_key now) (configured_pems R pk)))"
  have a: "kr_algorithm r = ''RS256''" using assms by (simp add: ring_ok_def keys_ok_def)
  have i: "dget (kr_kid_index r) kid =
      (case dget (by_kid (ring_keys r)) kid of None \<Rightarrow> dget ?ext kid | x \<Rightarrow> x)"
    using assms unfolding ring_ok_def dget_keys_append by blast
  have "map_option rk_public_pem (dget ?ext kid) = dget (extra_index R pk) kid"
    unfolding extra_index_def rev_map by (rule dget_extra_keys)
  then show ?thesis by (auto simp: verify_key_for_def a i split: option.splits)
qed

lemma verify_key_for_iff:
  assumes "ring_ok (map (extra_key now) (configured_pems R pk)) r"
  shows "verify_key_for (Some kid) r = Inr pem \<longleftrightarrow>
    (kid \<noteq> [] \<and> (\<exists>rk \<in> set (ring_keys r). rk_kid rk = kid \<and> rk_public_pem rk = pem)) \<or>
    dget (extra_index R pk) kid = Some pem"
proof -
  have d: "distinct (map rk_kid (ring_keys r))" using assms by (simp add: ring_ok_def keys_ok_def)
  have ext: "kid \<noteq> [] \<and> dget (by_kid (ring_keys r)) kid = None" if "dget (extra_index R pk) kid = Some pem"
  proof -
    have "kid \<in> ext_kid ` set (configured_pems R pk)"
      using map_of_SomeD [OF that [unfolded extra_index_def]] by auto
    then have "kid \<noteq> []" "kid \<in> rk_kid ` set (map (extra_key now) (configured_pems R pk))"
      unfolding kids_extra by (auto simp: ext_kid_def)
    moreover have "\<forall>rk \<in> set (ring_keys r). rk_kid rk \<notin> rk_kid ` set (map (extra_key now) (configured_pems R pk))"
      using assms unfolding ring_ok_def by (elim conjE)
    ultimately show ?thesis unfolding dget_keys_None by (metis imageE)
  qed
  have ring: "(\<exists>rk \<in> set (ring_keys r). rk_kid rk = kid \<and> rk_public_pem rk = pem) \<longleftrightarrow>
      (\<exists>rk. dget (by_kid (ring_keys r)) kid = Some rk \<and> rk_public_pem rk = pem)"
    by (auto simp: dget_keys_iff [OF d])
  show ?thesis
    unfolding verify_key_for_ok [OF assms] ring using ext
    by (cases "dget (by_kid (ring_keys r)) kid"; cases "dget (extra_index R pk) kid") auto
qed

text \<open>A start that finds the persisted file of a ring has the keys of that ring.\<close>

lemma restart_recovers:
  assumes "ring_ok (map (extra_key t) (configured_pems R pk)) r" "path \<noteq> []"
    and "\<forall>rk \<in> set (ring_keys r). good_key rk" "dget d path = Some (Parsed (ring_payload r cur))"
    and "kr_rsa_current r = Some cur"
  shows "\<exists>r'. rs256 R priv pk path hex fresh now d = Inr r' \<and> ring_keys r' = ring_keys r \<and>
    signing_key r' = signing_key r \<and> ring_ok (map (extra_key now) (configured_pems R pk)) r'"
proof -
  let ?ext = "map (extra_key now) (configured_pems R pk)"
  let ?r0 = "\<lparr>kr_algorithm = ''RS256'', kr_hs_key = [], kr_rsa_current = Some cur,
    kr_rsa_retired = kr_rsa_retired r, kr_kid_index = index_keys (cur # kr_rsa_retired r) [],
    kr_persist_path = path\<rparr>"
  let ?r1 = "?r0\<lparr>kr_kid_index := index_keys ?ext (kr_kid_index ?r0)\<rparr>"
  have k: "keys_ok r" by (rule ring_ok_keys [OF assms(1)])
  then have alg: "kr_algorithm r = ''RS256''" by (simp add: keys_ok_def)
  have "good_key cur" "filter good_key (kr_rsa_retired r) = kr_rsa_retired r"
    using assms(3,5) by (auto simp: ring_keys_def filter_id_conv)
  then have load: "load_persisted path d = Inr (Some ?r0)"
    using load_persisted_payload [OF assms(2,4) alg] by simp
  have "disk_ok path d" using k assms(4,5) by (auto simp: disk_ok_def)
  then have r0: "ring_ok [] ?r0" using load_persisted_ok [of path d] load by simp
  have keys: "ring_keys ?r0 = ring_keys r" using assms(5) by (simp add: ring_keys_def)
  have "\<forall>rk \<in> set (ring_keys ?r0). rk_kid rk \<notin> rk_kid ` set ?ext"
    using assms(1) unfolding keys ring_ok_def kids_extra by (elim conjE)
  note extras_ok [OF r0 this]
  moreover have "rs256 R priv pk path hex fresh now d = Inr ?r1"
    using load by (simp add: rs256_def load_extra_public_keys_def configured_pems_def index_keys_def)
  moreover have "ring_keys ?r1 = ring_keys r" "signing_key ?r1 = signing_key r"
    using assms(5) alg by (simp_all add: ring_keys_def signing_key_def)
  ultimately show ?thesis by blast
qed

lemma those_jwks_kids:
  "those_jwks (map (\<lambda>rk. rsa_public_jwk R (rk_kid rk) (rk_public_pem rk)) ks) = Some js \<Longrightarrow>
   map jwk_kid js = map rk_kid ks"
  by (induction ks arbitrary: js) (auto simp: rsa_public_jwk_def split: option.splits)

end
