(* ===== verification/Key_Properties.thy ===== *)
theory Key_Properties
  imports Key_Ring
begin

text \<open>Properties of the key ring along its life: rotations, pruning, restarts.\<close>

definition demo_rsa :: rsa_lib where
  "demo_rsa = \<lparr>rl_public_of = (\<lambda>p. Some (''pub-'' @ p)), rl_loads_public = (\<lambda>_. True),
     rl_numbers = (\<lambda>p. Some (65537, 3))\<rparr>"

text \<open>One extra verification key is configured.\<close>

definition demo_pem :: string where
  "demo_pem = ''-----BEGIN PUBLIC KEY-----AA'' @ [CHR 0x0A] @ end_marker"

definition demo_ring0 :: key_ring where
  "demo_ring0 = (case rs256 demo_rsa None (Some demo_pem) ''keys.json'' ''01'' (''s1'', ''p1'') 100 [] of
     Inr r \<Rightarrow> r | Inl _ \<Rightarrow> hs256 [])"

definition demo_ring1 :: "key_ring \<times> disk" where
  "demo_ring1 = snd (rotate ''02'' (''s2'', ''p2'') 100000 Written demo_ring0 [])"

lemma demo_configured: "configured_pems demo_rsa (Some demo_pem) = [demo_pem]"
  by code_simp

lemma demo_extras: "filter (rl_loads_public demo_rsa) (extra_pems demo_pem) = [demo_pem]" "demo_pem \<noteq> []"
  by code_simp+

lemmas demo_ring_defs = demo_ring1_def demo_ring0_def rotate_def rs256_def load_persisted_def Let_def
  persist_def load_extra_public_keys_def index_keys_def demo_extras extra_key_def ext_kid_def

lemma demo_ring0_reach: "ring_reach demo_rsa ''keys.json'' (Some demo_pem) demo_ring0 []"
  by (rule ring_reach.boot [of demo_rsa None "Some demo_pem" "''keys.json''" "''01''" "(''s1'', ''p1'')" 100])
    (simp_all add: demo_ring_defs apart_def demo_configured ring_keys_def)

lemma demo_ring1_reach: "ring_reach demo_rsa ''keys.json'' (Some demo_pem) (fst demo_ring1) (snd demo_ring1)"
proof (rule ring_reach.rotated [OF demo_ring0_reach])
  show "dget (kr_kid_index demo_ring0) (''kid-'' @ ''02'') = None"
    by (simp add: demo_ring_defs)
  show "rotate ''02'' (''s2'', ''p2'') 100000 Written demo_ring0 [] =
      (fst (rotate ''02'' (''s2'', ''p2'') 100000 Written demo_ring0 []), fst demo_ring1, snd demo_ring1)"
    by (simp add: demo_ring1_def)
qed

section \<open>Properties\<close>

text \<open>
  C27 (invariant). Through any sequence of rotations, prunings and restarts, with any extra
  verification keys configured, the key ids that verify are exactly those of the current key,
  of the retired keys and of the configured extra keys, each with its own public key; an
  absent or empty key id never verifies. The published key set lists exactly the ids of the
  current and the retired keys, and never an extra key.
\<close>

theorem verified_kids_exact:
  assumes "ring_reach R path pk r d"
  shows "(verify_key_for kid r = Inr pem \<longleftrightarrow>
      (\<exists>rk \<in> set (ring_keys r). kid = Some (rk_kid rk) \<and> rk_kid rk \<noteq> [] \<and> rk_public_pem rk = pem) \<or>
      (\<exists>k. kid = Some k \<and> dget (extra_index R pk) k = Some pem)) \<and>
    (jwks R r = Some js \<longrightarrow> map jwk_kid js = map rk_kid (ring_keys r) \<and>
      (\<forall>p \<in> set (configured_pems R pk). ext_kid p \<notin> set (map jwk_kid js)))"
proof -
  obtain t where ok: "ring_ok (map (extra_key t) (configured_pems R pk)) r" using ring_reach_ok [OF assms] by blast
  then have alg: "kr_algorithm r = ''RS256''" by (simp add: ring_ok_def keys_ok_def)
  have "verify_key_for kid r = Inr pem \<longleftrightarrow>
      (\<exists>rk \<in> set (ring_keys r). kid = Some (rk_kid rk) \<and> rk_kid rk \<noteq> [] \<and> rk_public_pem rk = pem) \<or>
      (\<exists>k. kid = Some k \<and> dget (extra_index R pk) k = Some pem)"
    by (cases kid) (auto simp: verify_key_for_iff [OF ok] verify_key_for_def [of None] alg)
  moreover have kids: "map jwk_kid js = map rk_kid (ring_keys r)" if "jwks R r = Some js"
    using that unfolding jwks_def ring_keys_def by (rule those_jwks_kids)
  moreover have "\<forall>rk \<in> set (ring_keys r). rk_kid rk \<notin> ext_kid ` set (configured_pems R pk)"
    using ok unfolding ring_ok_def kids_extra by (elim conjE)
  then have "\<forall>p \<in> set (configured_pems R pk). ext_kid p \<notin> set (map rk_kid (ring_keys r))"
    unfolding set_map by (metis imageE imageI)
  ultimately show ?thesis by metis
qed

theorem verified_kids_exact_witness:
  "verify_key_for (Some ''kid-01'') (fst demo_ring1) = Inr ''p1'' \<and>
   verify_key_for (Some (ext_kid demo_pem)) (fst demo_ring1) = Inr demo_pem \<and>
   verify_key_for (Some ''kid-03'') (fst demo_ring1) \<noteq> Inr ''p1'' \<and>
   (\<exists>js. jwks demo_rsa (fst demo_ring1) = Some js \<and> map jwk_kid js = [''kid-02'', ''kid-01''])"
proof -
  note exact = verified_kids_exact [OF demo_ring1_reach]
  have keys: "map (\<lambda>rk. (rk_kid rk, rk_public_pem rk)) (ring_keys (fst demo_ring1)) = [(''kid-02'', ''p2''), (''kid-01'', ''p1'')]"
    by (simp add: demo_ring_defs ring_keys_def)
  obtain js where js: "jwks demo_rsa (fst demo_ring1) = Some js"
    by (simp add: demo_ring_defs jwks_def rsa_public_jwk_def demo_rsa_def)
  have "map jwk_kid js = map rk_kid (ring_keys (fst demo_ring1))" using exact js by blast
  also have "\<dots> = [''kid-02'', ''kid-01'']" using arg_cong [OF keys, of "map fst"] by (simp add: comp_def)
  finally have kids: "map jwk_kid js = [''kid-02'', ''kid-01'']" .
  have ext: "dget (extra_index demo_rsa (Some demo_pem)) k = (if k = ext_kid demo_pem then Some demo_pem else None)" for k
    by (simp add: extra_index_def demo_configured)
  have "verify_key_for (Some ''kid-01'') (fst demo_ring1) = Inr ''p1''"
    using exact [THEN conjunct1, of "Some ''kid-01''" "''p1''"] by (simp add: demo_ring_defs ring_keys_def)
  moreover have "verify_key_for (Some (ext_kid demo_pem)) (fst demo_ring1) = Inr demo_pem"
    using exact [THEN conjunct1, of "Some (ext_kid demo_pem)" demo_pem] ext by simp
  moreover have "verify_key_for (Some ''kid-03'') (fst demo_ring1) \<noteq> Inr ''p1''"
    using exact [THEN conjunct1, of "Some ''kid-03''" "''p1''"] ext [of "''kid-03''"]
    by (simp add: demo_ring_defs ring_keys_def)
  ultimately show ?thesis using js kids by (intro conjI exI [of _ js]) assumption+
qed

text \<open>
  C26 (roundtrip). A rotation that reached the disk survives a restart with the same
  configuration: loading the file gives back the same current and retired keys, so the new key
  still signs, every key of the ring before the rotation still verifies, and no other key
  id does than before.
\<close>

theorem rotation_survives_restart:
  assumes "ring_reach R path pk r d" "path \<noteq> []" "dget (kr_kid_index r) (''kid-'' @ hex) = None"
    "\<forall>rk \<in> set (ring_keys r). rk_kid rk \<noteq> [] \<and> rk_public_pem rk \<noteq> []" "snd fresh \<noteq> []"
    "rotate hex fresh now Written r d = (res, r', d')"
  shows "res = Inr (Some (''kid-'' @ hex)) \<and>
    (\<exists>r''. rs256 R priv pk path hex' fresh' now' d' = Inr r'' \<and> ring_keys r'' = ring_keys r' \<and>
       signing_key r'' = fst fresh \<and>
       (\<forall>kid. verify_key_for kid r'' = verify_key_for kid r') \<and>
       (\<forall>rk \<in> set (ring_keys r). verify_key_for (Some (rk_kid rk)) r'' = Inr (rk_public_pem rk)))"
proof -
  obtain t where ok: "ring_ok (map (extra_key t) (configured_pems R pk)) r" and path: "kr_persist_path r = path"
    using ring_reach_ok [OF assms(1)] by blast
  obtain cur where cur: "kr_algorithm r = ''RS256''" "kr_rsa_current r = Some cur"
    by (rule ring_okD [OF ok])
  let ?new = "\<lparr>rk_kid = ''kid-'' @ hex, rk_private_pem = fst fresh, rk_public_pem = snd fresh,
    rk_created_at = now\<rparr>"
  note r' = rotate_ring(1) [OF cur assms(6)]
  note ok' = rotate_ok(1) [OF ok assms(3,6)]
  have old: "set (ring_keys r) \<subseteq> set (ring_keys r')" using cur by (auto simp: ring_keys_def r')
  have "\<forall>rk \<in> set (ring_keys r'). good_key rk"
    using assms(4,5) cur by (auto simp: r' ring_keys_def good_key_def)
  moreover have "dget d' path = Some (Parsed (ring_payload r' ?new))"
    using cur assms(2) path unfolding rotate_ring(2) [OF cur assms(6)] by (simp add: persist_def r' dget_dset)
  moreover have "kr_rsa_current r' = Some ?new" "signing_key r' = fst fresh"
    using cur(1) by (simp_all add: r' signing_key_def)
  ultimately obtain r'' where r'': "rs256 R priv pk path hex' fresh' now' d' = Inr r''" "ring_keys r'' = ring_keys r'"
      "signing_key r'' = signing_key r'" "ring_ok (map (extra_key now') (configured_pems R pk)) r''"
    using restart_recovers [OF ok' assms(2)] by blast
  have ver: "verify_key_for kid r'' = verify_key_for kid r'" for kid
    using verify_key_for_ok [OF r''(4)] verify_key_for_ok [OF ok'] r''(2,4) ok'
    by (cases kid) (simp_all add: verify_key_for_def [of None] ring_ok_def keys_ok_def)
  have "verify_key_for (Some (rk_kid rk)) r'' = Inr (rk_public_pem rk)" if "rk \<in> set (ring_keys r)" for rk
    unfolding verify_key_for_iff [OF r''(4)] r''(2) using that assms(4) old by blast
  moreover have "res = Inr (Some (''kid-'' @ hex))"
    using assms(6) cur path by (auto simp: rotate_def persist_def Let_def split: if_splits)
  ultimately show ?thesis using r''(1,2,3) ver \<open>signing_key r' = fst fresh\<close> by auto
qed

theorem rotation_survives_restart_witness:
  "fst (rotate ''03'' (''s3'', ''p3'') 200000 Written (fst demo_ring1) (snd demo_ring1)) = Inr (Some ''kid-03'') \<and>
   (\<exists>r''. rs256 demo_rsa None (Some demo_pem) ''keys.json'' ''04'' (''s4'', ''p4'') 300000
        (snd (snd (rotate ''03'' (''s3'', ''p3'') 200000 Written (fst demo_ring1) (snd demo_ring1)))) = Inr r'' \<and>
      signing_key r'' = ''s3'')"
proof -
  obtain res r' d' where rot: "rotate ''03'' (''s3'', ''p3'') 200000 Written (fst demo_ring1) (snd demo_ring1)
      = (res, r', d')" by (metis prod_cases3)
  have "dget (kr_kid_index (fst demo_ring1)) (''kid-'' @ ''03'') = None"
    "\<forall>rk \<in> set (ring_keys (fst demo_ring1)). rk_kid rk \<noteq> [] \<and> rk_public_pem rk \<noteq> []"
    by (simp_all add: demo_ring_defs ring_keys_def)
  from rotation_survives_restart [OF demo_ring1_reach _ this _ rot, of None "''04''" "(''s4'', ''p4'')" 300000] rot
  show ?thesis by auto
qed

text \<open>
  C36 (error). The grace window of a retired key counts from its creation and not from its
  retirement: a key that was current for more than 24 hours still verifies right after its
  rotation, but stops verifying at the first pruning that follows, however soon, whatever
  tokens it has just signed.
\<close>

theorem long_current_key_gets_no_grace:
  assumes "ring_reach R path pk r d" "dget (kr_kid_index r) (''kid-'' @ hex) = None"
    "kr_rsa_current r = Some cur" "now - rk_created_at cur > GRACE_SECONDS" "rk_kid cur \<noteq> []"
    "rotate hex fresh now w r d = (res, r', d')" "now \<le> now'" "prune now' w' r' d' = (res', r'', d'')"
  shows "verify_key_for (Some (rk_kid cur)) r' = Inr (rk_public_pem cur) \<and>
    verify_key_for (Some (rk_kid cur)) r'' = Inl (UnknownKid (Some (rk_kid cur)))"
proof
  obtain t where ok: "ring_ok (map (extra_key t) (configured_pems R pk)) r" using ring_reach_ok [OF assms(1)] by blast
  then have alg: "kr_algorithm r = ''RS256''" by (simp add: ring_ok_def keys_ok_def)
  note r' = rotate_ring(1) [OF alg assms(3,6)]
  note r'' = prune_ring(1) [OF assms(8)]
  have "cur \<in> set (ring_keys r')" by (simp add: r' ring_keys_def)
  then show "verify_key_for (Some (rk_kid cur)) r' = Inr (rk_public_pem cur)"
    unfolding verify_key_for_iff [OF rotate_ok(1) [OF ok assms(2,6)]] using assms(5) by blast
  have "dget (kr_kid_index r'') (rk_kid cur) = None"
    using assms(4,7) by (simp add: r'' r' dget_dpop_all expired_key_def)
  then show "verify_key_for (Some (rk_kid cur)) r'' = Inl (UnknownKid (Some (rk_kid cur)))"
    using alg by (simp add: verify_key_for_def r'' r')
qed

theorem long_current_key_gets_no_grace_witness:
  "verify_key_for (Some ''kid-01'') (fst demo_ring1) = Inr ''p1'' \<and>
   verify_key_for (Some ''kid-01'') (fst (snd (prune 100005 Written (fst demo_ring1) (snd demo_ring1))))
    = Inl (UnknownKid (Some ''kid-01''))"
proof -
  obtain res r' d' where rot: "rotate ''02'' (''s2'', ''p2'') 100000 Written demo_ring0 [] = (res, r', d')"
    by (metis prod_cases3)
  obtain res' r'' d'' where pr: "prune 100005 Written r' d' = (res', r'', d'')" by (metis prod_cases3)
  let ?cur = "\<lparr>rk_kid = ''kid-01'', rk_private_pem = ''s1'', rk_public_pem = ''p1'', rk_created_at = 100\<rparr>"
  have "verify_key_for (Some (rk_kid ?cur)) r' = Inr (rk_public_pem ?cur) \<and>
      verify_key_for (Some (rk_kid ?cur)) r'' = Inl (UnknownKid (Some (rk_kid ?cur)))"
    by (rule long_current_key_gets_no_grace [OF demo_ring0_reach _ _ _ _ rot _ pr])
      (simp_all add: demo_ring_defs GRACE_SECONDS_def)
  with rot pr show ?thesis by (simp add: demo_ring1_def)
qed

end
