(* ===== verification/Auth.thy ===== *)
theory Auth
  imports Store_Users Store_Tenants Store_Tokens Store_Logs Crypto Key_Ring
begin

text \<open>
  The authentication service (\<open>auth.py\<close>): login, tickets, verification, refresh rotation,
  revocation, password change, MFA, and the first-start bootstrap, over the in-memory store.

  \<^item> An operation takes the environment \<open>auth_env\<close> (the packages it calls), the service
    \<open>auth_service\<close> (the fields \<open>__init__\<close> sets, the key ring among them), its request, the
    random draws it makes and the clock, and returns a result or an error with the store.
  \<^item> \<open>HTTPException(status_code, detail)\<close> is \<open>Http\<close>; the two exceptions whose detail is not
    a plain string have constructors of their own.
  \<^item> pyotp is the field \<open>env_totp\<close>; the store calls are awaited one after the other, so an
    operation is a sequence of store operations.
\<close>

section \<open>Environment, service, errors\<close>

record auth_env =
  env_kdf :: kdf
  env_fr :: "real \<Rightarrow> string"
  env_jwt :: jwt_lib
  env_aead :: aead
  env_totp :: "string \<Rightarrow> string \<Rightarrow> time \<Rightarrow> bool"
  env_totp_uri :: "string \<Rightarrow> string \<Rightarrow> string \<Rightarrow> string"

record auth_service =
  as_issuer :: string
  as_audience :: string
  as_ttl :: int
  as_refresh_ttl :: int
  as_kek :: string
  as_kek_prev :: "string option"
  as_mfa_enforce_admin :: bool
  as_email_verification_required :: bool
  as_sso_ticket_ttl :: int
  as_key_ring :: key_ring

definition AuthService ::
  "string \<Rightarrow> string \<Rightarrow> string \<Rightarrow> int \<Rightarrow> int \<Rightarrow> key_ring option \<Rightarrow> string option \<Rightarrow> string option \<Rightarrow> bool
     \<Rightarrow> bool \<Rightarrow> int \<Rightarrow> auth_service" where
  "AuthService skey issuer audience ttl refresh_ttl ring kek kek_prev mfa_enforce_admin
     email_verification_required sso_ticket_ttl =
    \<lparr>as_issuer = issuer, as_audience = audience, as_ttl = ttl, as_refresh_ttl = refresh_ttl,
     as_kek = (if truthy_str kek then upd_opt kek [] else skey), as_kek_prev = kek_prev,
     as_mfa_enforce_admin = mfa_enforce_admin,
     as_email_verification_required = email_verification_required,
     as_sso_ticket_ttl = max 5 (min sso_ticket_ttl 600),
     as_key_ring = upd_opt ring (hs256 skey)\<rparr>"

datatype auth_error =
    Http int string
  | EmailNotVerified
  | TenantAmbiguous "(string \<times> string option) list"
  | TokenError jwt_error
  | CryptoFailure crypto_error
  | StoreConflict conflict
  | RuntimeFailure string

definition unauthorized :: "string \<Rightarrow> auth_error" where "unauthorized detail = Http 401 detail"
definition forbidden :: "string \<Rightarrow> auth_error" where "forbidden detail = Http 403 detail"
definition locked_out :: auth_error where "locked_out = Http 429 ''account locked, retry later''"

record token_response =
  tr_access_token :: string
  tr_refresh_token :: string
  tr_expires_in :: int
  tr_must_change_password :: bool
  tr_mfa_required :: bool

section \<open>Shared steps\<close>

definition audit_entry ::
  "auth_env \<Rightarrow> string \<Rightarrow> string option \<Rightarrow> string option \<Rightarrow> string option \<Rightarrow> string \<Rightarrow> string option \<Rightarrow> json
     \<Rightarrow> time \<Rightarrow> store \<Rightarrow> store" where
  "audit_entry E tid user_id jti role action resource detail now s =
    snd (append_audit (env_fr E) tid user_id jti role action resource detail now s)"

definition role_scopes :: "string \<Rightarrow> string list" where
  "role_scopes role =
    (case dget ROLES_SEED role of
       None \<Rightarrow> []
     | Some seed \<Rightarrow>
         concat (map (\<lambda>(resource, actions). map (\<lambda>action. resource @ '':'' @ action) actions)
           (seed_permissions seed)))"

definition is_locked :: "user_rec \<Rightarrow> time \<Rightarrow> bool" where
  "is_locked user now \<longleftrightarrow> (case u_locked_until user of None \<Rightarrow> False | Some lu \<Rightarrow> lu > now)"

text \<open>\<open>status in (None, "disabled", "deleted")\<close> and its counterpart for users.\<close>

definition tenant_blocked :: "string option \<Rightarrow> bool" where
  "tenant_blocked st \<longleftrightarrow> st \<in> {None, Some ''disabled'', Some ''deleted''}"

definition user_blocked :: "string option \<Rightarrow> bool" where
  "user_blocked st \<longleftrightarrow> st \<in> {None, Some ''disabled'', Some ''locked''}"

definition verify_totp ::
  "auth_env \<Rightarrow> mfa_rec \<Rightarrow> string \<Rightarrow> string \<Rightarrow> string option \<Rightarrow> time \<Rightarrow> crypto_error + bool" where
  "verify_totp E rec code kek kek_prev now =
    (case decrypt_secret (env_aead E) (f_secret_enc rec) kek kek_prev of
       Inl e \<Rightarrow> Inl e
     | Inr raw \<Rightarrow> Inr (env_totp E raw code now))"

text \<open>The \<open>_verify\<close> method: the key is chosen by the key id of the unverified header.\<close>

definition auth_verify ::
  "auth_env \<Rightarrow> auth_service \<Rightarrow> string \<Rightarrow> string option \<Rightarrow> time \<Rightarrow> jwt_error + claims" where
  "auth_verify E A token token_type now =
    (let hk = (case jw_header (env_jwt E) token of None \<Rightarrow> None | Some h \<Rightarrow> jh_kid h)
     in case verify_key_for hk (as_key_ring A) of
          Inl e \<Rightarrow> Inl e
        | Inr key \<Rightarrow>
            verify_token (env_jwt E) token key (as_issuer A) (as_audience A) token_type
              [kr_algorithm (as_key_ring A)] now)"

text \<open>Issue a token of the service, with the live signing key, algorithm and key id.\<close>

definition sign ::
  "auth_env \<Rightarrow> auth_service \<Rightarrow> string \<Rightarrow> string \<Rightarrow> string \<Rightarrow> int \<Rightarrow> string \<Rightarrow> string \<Rightarrow> time \<Rightarrow> string" where
  "sign E A sub tid role ttl token_type jti now =
    fst (issue_token (env_jwt E) sub tid role (role_scopes role) (signing_key (as_key_ring A))
           (as_issuer A) (as_audience A) ttl token_type (kr_algorithm (as_key_ring A))
           (ring_kid (as_key_ring A)) jti now)"

text \<open>
  The authorization predicate. The role in the database wins: the claims come back with it.
\<close>

definition authorize ::
  "claims \<Rightarrow> time \<Rightarrow> store \<Rightarrow> (auth_error, string \<times> claims, store) outcome" where
  "authorize c now s =
    (let (revoked, s1) = is_jti_revoked (cl_jti c) now s
     in if revoked then raise (unauthorized ''revoked token'') s1
        else if tenant_blocked (get_tenant_status (cl_tid c) s1) then
          raise (unauthorized ''tenant disabled'') s1
        else if user_blocked (get_user_status (cl_sub c) s1) then
          raise (unauthorized ''account disabled'') s1
        else case get_member_role (cl_tid c) (cl_sub c) s1 of
          None \<Rightarrow> raise (unauthorized ''membership revoked'') s1
        | Some role \<Rightarrow>
            if cl_role c \<noteq> Some role
            then ret (role, c\<lparr>cl_role := Some role, cl_scope := Some (role_scopes role)\<rparr>) s1
            else ret (role, c) s1)"

definition record_failed_login ::
  "auth_env \<Rightarrow> user_rec \<Rightarrow> string option \<Rightarrow> time \<Rightarrow> store \<Rightarrow> store" where
  "record_failed_login E user tid now s =
    (let attempts = u_failed_attempts user + 1;
         upd = no_user_update\<lparr>uu_failed_attempts := Some attempts,
                 uu_locked_until := (if attempts \<ge> LOCK_THRESHOLD
                                     then Some (now + LOCK_DURATION_SECONDS) else None)\<rparr>
     in if truthy_str tid then
          let t = upd_opt tid [];
              s1 = (if attempts \<ge> LOCK_THRESHOLD
                    then audit_entry E t (Some (u_user_id user)) None None ''auth.account_locked''
                           (Some ''session'') (JObj [(''attempts'', JInt attempts)]) now s
                    else s);
              s2 = snd (update_user (u_user_id user) upd s1)
          in audit_entry E t (Some (u_user_id user)) None None ''auth.login_failed'' (Some ''session'')
               (JObj [(''username'', JStr (u_username user))]) now s2
        else snd (update_user (u_user_id user) upd s))"

section \<open>Login\<close>

record login_request =
  lr_username :: string
  lr_password :: string
  lr_tenant_id :: "string option"
  lr_mfa_code :: "string option"

text \<open>What one issued pair draws: two token ids, the family, and the salt of a rehash.\<close>

record draws =
  dr_jti :: string
  dr_rjti :: string
  dr_family :: string
  dr_salt :: string

definition issue_login_pair ::
  "auth_env \<Rightarrow> auth_service \<Rightarrow> user_rec \<Rightarrow> string \<Rightarrow> string \<Rightarrow> string \<Rightarrow> string \<Rightarrow> draws \<Rightarrow> time \<Rightarrow> store
     \<Rightarrow> token_response \<times> store" where
  "issue_login_pair E A user tid role username audit_action d now s =
    (let uid = u_user_id user;
         access = sign E A uid tid role (as_ttl A) ''access'' (dr_jti d) now;
         s1 = record_issued_jti (dr_jti d) tid uid now s;
         refresh = sign E A uid tid role (as_refresh_ttl A) ''refresh'' (dr_rjti d) now;
         s2 = snd (insert_refresh_token (dr_rjti d) (dr_family d) tid uid
                (now + of_int (as_refresh_ttl A)) None ''active'' now s1);
         s3 = audit_entry E tid (Some uid) (Some (dr_jti d)) (Some role) audit_action (Some ''session'')
                (JObj [(''username'', JStr username)]) now s2
     in (\<lparr>tr_access_token = access, tr_refresh_token = refresh, tr_expires_in = as_ttl A,
          tr_must_change_password = u_must_change_password user, tr_mfa_required = False\<rparr>, s3))"

definition resolve_login_tenant :: "user_rec \<Rightarrow> store \<Rightarrow> auth_error + string" where
  "resolve_login_tenant user s =
    (let active = filter (\<lambda>(t, u, r). get_tenant_status t s = Some ''active'')
           (memberships_for_user (u_user_id user) s)
     in case active of
          [] \<Rightarrow> Inl (unauthorized ''invalid credentials'')
        | [(t, u, r)] \<Rightarrow> Inr t
        | _ \<Rightarrow> Inl (TenantAmbiguous
            (map (\<lambda>(t, u, r). (t, map_option t_display_name (get_tenant t s))) active)))"

text \<open>The tail of \<open>login\<close>, from the membership lookup on.\<close>

definition login_member ::
  "auth_env \<Rightarrow> auth_service \<Rightarrow> login_request \<Rightarrow> user_rec \<Rightarrow> string \<Rightarrow> draws \<Rightarrow> time \<Rightarrow> store
     \<Rightarrow> (auth_error, token_response, store) outcome" where
  "login_member E A req user tid d now s =
    (case get_member_role tid (u_user_id user) s of
       None \<Rightarrow> raise (unauthorized ''tenant_mismatch'') s
     | Some role \<Rightarrow>
         let factor = get_mfa (u_user_id user) ''totp'' s;
             mfa_required = (case factor of None \<Rightarrow> False | Some f \<Rightarrow> f_enabled f);
             complete = (\<lambda>s. let (tr, s') = issue_login_pair E A user tid role (lr_username req) ''auth.login''
                                 d now (snd (update_user (u_user_id user)
                                   (no_user_update\<lparr>uu_failed_attempts := Some 0,
                                      uu_last_login_at := Some now\<rparr>) s))
                             in ret tr s')
         in if as_mfa_enforce_admin A \<and> role = ''tenant_admin'' \<and> \<not> mfa_required then
              raise (unauthorized ''mfa enrollment required for admin'') s
            else if mfa_required then
              (if \<not> truthy_str (lr_mfa_code req) then
                 ret \<lparr>tr_access_token = [], tr_refresh_token = [], tr_expires_in = 0,
                      tr_must_change_password = False, tr_mfa_required = True\<rparr> s
               else case verify_totp E (the factor) (upd_opt (lr_mfa_code req) []) (as_kek A) (as_kek_prev A) now of
                 Inl e \<Rightarrow> raise (CryptoFailure e) s
               | Inr ok \<Rightarrow>
                   if \<not> ok then raise (unauthorized ''invalid mfa code'')
                     (record_failed_login E user (Some tid) now s)
                   else complete s)
            else complete s)"

definition rehash :: "auth_env \<Rightarrow> user_rec \<Rightarrow> string \<Rightarrow> string \<Rightarrow> store \<Rightarrow> store" where
  "rehash E user password rnd_salt s =
    (let (new_hash, new_salt, new_algo) = hash_password (env_kdf E) password rnd_salt
     in snd (update_user (u_user_id user) (no_user_update\<lparr>uu_password_hash_v := Some new_hash,
          uu_salt := Some new_salt, uu_password_algo := Some new_algo\<rparr>) s))"

definition check_password :: "auth_env \<Rightarrow> user_rec \<Rightarrow> string \<Rightarrow> bool \<times> bool" where
  "check_password E user password =
    verify_password (env_kdf E) password (u_password_hash_v user) (u_password_hash user) (u_salt user)
      (u_password_algo user)"

definition login ::
  "auth_env \<Rightarrow> auth_service \<Rightarrow> login_request \<Rightarrow> bool \<Rightarrow> draws \<Rightarrow> time \<Rightarrow> store
     \<Rightarrow> (auth_error, token_response, store) outcome" where
  "login E A req skip_email_verification d now s =
    (let tenant_status = (if truthy_str (lr_tenant_id req)
                          then get_tenant_status (upd_opt (lr_tenant_id req) []) s
                          else Some ''active'')
     in if tenant_blocked tenant_status then raise (unauthorized ''invalid credentials'') s
        else case get_user_by_username (lr_username req) s of
          None \<Rightarrow> raise (unauthorized ''invalid credentials'') s
        | Some user \<Rightarrow>
            if is_locked user now then raise locked_out s
            else if u_status user = ''disabled'' \<or> u_status user = ''locked'' then
              raise (unauthorized ''account disabled'') s
            else if as_email_verification_required A \<and> \<not> skip_email_verification
                    \<and> \<not> u_email_verified user then
              raise EmailNotVerified s
            else
              let (ok, needs_rehash) = check_password E user (lr_password req)
              in if \<not> ok then raise (unauthorized ''invalid credentials'')
                   (record_failed_login E user (lr_tenant_id req) now s)
                 else
                   let s1 = (if needs_rehash then rehash E user (lr_password req) (dr_salt d) s else s)
                   in case (if truthy_str (lr_tenant_id req) then Inr (upd_opt (lr_tenant_id req) [])
                            else resolve_login_tenant user s1) of
                        Inl e \<Rightarrow> raise e s1
                      | Inr tid \<Rightarrow> login_member E A req user tid d now s1)"

section \<open>SSO tickets\<close>

definition issue_sso_ticket ::
  "auth_env \<Rightarrow> auth_service \<Rightarrow> string \<Rightarrow> string \<Rightarrow> string \<Rightarrow> string \<Rightarrow> time \<Rightarrow> store
     \<Rightarrow> (string \<times> int) \<times> store" where
  "issue_sso_ticket E A user_id tid role rnd now s =
    (let raw = ''fsso_'' @ rnd;
         s1 = create_sso_ticket (sha256_hash raw) user_id tid (now + of_int (as_sso_ticket_ttl A)) now s;
         s2 = audit_entry E tid (Some user_id) None (Some role) ''auth.ticket_issued'' (Some ''session'')
                (JObj []) now s1
     in ((raw, as_sso_ticket_ttl A), s2))"

definition exchange_sso_ticket ::
  "auth_env \<Rightarrow> auth_service \<Rightarrow> string \<Rightarrow> draws \<Rightarrow> time \<Rightarrow> store
     \<Rightarrow> (auth_error, token_response, store) outcome" where
  "exchange_sso_ticket E A ticket d now s =
    (let (rec, s1) = consume_sso_ticket now (sha256_hash ticket) s;
         invalid = unauthorized ''invalid ticket''
     in case rec of
          None \<Rightarrow> raise invalid s1
        | Some rec \<Rightarrow>
            (case get_user (tk_user_id rec) s1 of
               None \<Rightarrow> raise invalid s1
             | Some user \<Rightarrow>
                 if is_locked user now \<or> u_status user = ''disabled'' \<or> u_status user = ''locked'' then
                   raise invalid s1
                 else if get_tenant_status (tk_tenant_id rec) s1 \<noteq> Some ''active'' then raise invalid s1
                 else case get_member_role (tk_tenant_id rec) (tk_user_id rec) s1 of
                   None \<Rightarrow> raise invalid s1
                 | Some role \<Rightarrow>
                     let (tr, s2) = issue_login_pair E A user (tk_tenant_id rec) role (u_username user)
                           ''auth.ticket_exchanged'' d now s1
                     in ret tr s2))"

section \<open>Verification and introspection\<close>

record verify_response =
  vr_tid :: string
  vr_role :: string
  vr_scopes :: "string list"
  vr_quota :: "quota_rec option"
  vr_tenant_status :: string
  vr_write_classes :: "string list"
  vr_allowed_menus :: "string list"

definition verify ::
  "auth_env \<Rightarrow> auth_service \<Rightarrow> string \<Rightarrow> time \<Rightarrow> store \<Rightarrow> (auth_error, verify_response, store) outcome" where
  "verify E A token now s =
    (case auth_verify E A token (Some ''access'') now of
       Inl e \<Rightarrow> raise (TokenError e) s
     | Inr c \<Rightarrow>
         (case authorize c now s of
            (Inl e, s1) \<Rightarrow> raise e s1
          | (Inr (role, c'), s1) \<Rightarrow>
              (case get_role (cl_tid c') role s1 of
                 None \<Rightarrow> raise (unauthorized ''role no longer resolvable'') s1
               | Some rr \<Rightarrow>
                   ret \<lparr>vr_tid = cl_tid c', vr_role = role, vr_scopes = upd_opt (cl_scope c') [],
                        vr_quota = get_quota (cl_tid c') s1,
                        vr_tenant_status =
                          (case get_tenant_status (cl_tid c') s1 of
                             Some st \<Rightarrow> if st = [] then ''active'' else st | None \<Rightarrow> ''active''),
                        vr_write_classes = rv_write_classes rr, vr_allowed_menus = rv_menus rr\<rparr> s1)))"

record introspection =
  ir_scope :: string
  ir_username :: "string option"
  ir_role :: string
  ir_claims :: claims

definition introspect ::
  "auth_env \<Rightarrow> auth_service \<Rightarrow> string \<Rightarrow> time \<Rightarrow> store \<Rightarrow> introspection option \<times> store" where
  "introspect E A token now s =
    (case auth_verify E A token (Some ''access'') now of
       Inl e \<Rightarrow> (None, s)
     | Inr c \<Rightarrow>
         (case authorize c now s of
            (Inl e, s1) \<Rightarrow> (None, s1)
          | (Inr (role, c'), s1) \<Rightarrow>
              (Some \<lparr>ir_scope = join '' '' (upd_opt (cl_scope c') []),
                     ir_username = map_option u_username (get_user (cl_sub c') s1), ir_role = role,
                     ir_claims = c'\<rparr>, s1)))"

definition resolve_bearer_claims ::
  "auth_env \<Rightarrow> auth_service \<Rightarrow> string \<Rightarrow> time \<Rightarrow> store \<Rightarrow> (auth_error, claims, store) outcome" where
  "resolve_bearer_claims E A auth_header now s =
    (case extract_bearer auth_header of
       Inl e \<Rightarrow> raise (unauthorized ''invalid token'') s
     | Inr token \<Rightarrow>
         (case auth_verify E A token (Some ''access'') now of
            Inl e \<Rightarrow> raise (unauthorized ''invalid token'') s
          | Inr c \<Rightarrow>
              let (revoked, s1) = is_jti_revoked (cl_jti c) now s
              in if revoked then raise (unauthorized ''revoked token'') s1
                 else if tenant_blocked (get_tenant_status (cl_tid c) s1) then
                   raise (unauthorized ''tenant disabled'') s1
                 else if user_blocked (get_user_status (cl_sub c) s1) then
                   raise (unauthorized ''account disabled'') s1
                 else case get_member_role (cl_tid c) (cl_sub c) s1 of
                   None \<Rightarrow> raise (unauthorized ''membership revoked'') s1
                 | Some role \<Rightarrow>
                     ret (c\<lparr>cl_role := Some role, cl_scope := Some (role_scopes role)\<rparr>) s1))"

section \<open>Session tokens\<close>

definition SESSION_DEFAULT_TTL :: int where "SESSION_DEFAULT_TTL = 43200"
definition SESSION_MAX_TTL :: int where "SESSION_MAX_TTL = 86400"

definition session_ttl :: "int option \<Rightarrow> int" where
  "session_ttl ttl_seconds =
    (let ttl = (case ttl_seconds of Some t \<Rightarrow> if t \<noteq> 0 then t else SESSION_DEFAULT_TTL
                | None \<Rightarrow> SESSION_DEFAULT_TTL)
     in max 60 (min ttl SESSION_MAX_TTL))"

definition issue_session_token ::
  "auth_env \<Rightarrow> auth_service \<Rightarrow> string \<Rightarrow> string \<Rightarrow> string \<Rightarrow> int option \<Rightarrow> string \<Rightarrow> time \<Rightarrow> store
     \<Rightarrow> (auth_error, string \<times> string \<times> int \<times> string, store) outcome" where
  "issue_session_token E A sub tid role ttl_seconds jti now s =
    (let ttl = session_ttl ttl_seconds
     in if get_tenant_status tid s = None \<and> tid \<noteq> ''local'' then
          raise (unauthorized ''tenant not found'') s
        else
          let s1 = (if get_tenant_status tid s = None
                    then snd (create_tenant tid ''Local (single-tenant mode)'' ''team'' ''invite'' now s)
                    else s)
          in if get_tenant_status tid s1 \<noteq> Some ''active'' then raise (unauthorized ''tenant disabled'') s1
             else if \<not> is_valid_role tid role s1 then raise (unauthorized ''invalid role'') s1
             else
               let access = sign E A sub tid role ttl ''session'' jti now;
                   s2 = record_issued_jti jti tid sub now s1;
                   s3 = audit_entry E tid (Some sub) (Some jti) (Some role) ''auth.session_issue''
                          (Some ''session'')
                          (JObj [(''ttl_seconds'', JInt ttl), (''issued_for'', JStr ''gateway'')]) now s2
               in ret (access, jti, ttl, role) s3)"

definition verify_session_token ::
  "auth_env \<Rightarrow> auth_service \<Rightarrow> string \<Rightarrow> time \<Rightarrow> store \<Rightarrow> (auth_error, claims, store) outcome" where
  "verify_session_token E A token now s =
    (case auth_verify E A token (Some ''session'') now of
       Inl e \<Rightarrow> raise (TokenError e) s
     | Inr c \<Rightarrow>
         let (revoked, s1) = is_jti_revoked (cl_jti c) now s
         in if revoked then raise (unauthorized ''revoked token'') s1
            else if tenant_blocked (get_tenant_status (cl_tid c) s1) then
              raise (unauthorized ''tenant disabled'') s1
            else ret c s1)"

definition revoke_user_sessions_and_tokens ::
  "auth_env \<Rightarrow> string \<Rightarrow> string \<Rightarrow> time \<Rightarrow> store \<Rightarrow> (auth_error, nat \<times> nat, store) outcome" where
  "revoke_user_sessions_and_tokens E sub tid now s =
    (if get_tenant_status tid s = None then raise (Http 404 ''tenant not found'') s
     else
       let (revoked_jtis, s1) = revoke_user_issued_jtis sub (Some tid) ''user_deletion'' now s;
           (revoked_refresh, s2) = revoke_user_sessions sub s1;
           s3 = audit_entry E tid (Some sub) None (Some ''service'') ''auth.user_sessions_revoked'' (Some sub)
                  (JObj [(''revoked_access_jtis'', JInt (int revoked_jtis)),
                         (''revoked_refresh_tokens'', JInt (int revoked_refresh)),
                         (''reason'', JStr ''user_deletion'')]) now s2
       in ret (revoked_jtis, revoked_refresh) s3)"

section \<open>Refresh, revoke, logout\<close>

text \<open>Reuse of a refresh token: its family is revoked and the event recorded.\<close>

definition refuse_reuse ::
  "auth_env \<Rightarrow> claims \<Rightarrow> string \<Rightarrow> json \<Rightarrow> time \<Rightarrow> store \<Rightarrow> (auth_error, token_response, store) outcome" where
  "refuse_reuse E c family detail now s =
    raise (unauthorized ''refresh token reuse detected'')
      (audit_entry E (cl_tid c) (Some (cl_sub c)) (Some (cl_jti c)) None ''auth.refresh_reuse''
         (Some ''session'') detail now (snd (revoke_refresh_family family s)))"

text \<open>
  The part of \<open>refresh\<close> that follows the checks: rotate by compare-and-set, then issue. It is
  a definition of its own because other requests may run between the lookup of the record
  and the rotation.
\<close>

definition refresh_commit ::
  "auth_env \<Rightarrow> auth_service \<Rightarrow> claims \<Rightarrow> string \<Rightarrow> string \<Rightarrow> draws \<Rightarrow> time \<Rightarrow> store
     \<Rightarrow> (auth_error, token_response, store) outcome" where
  "refresh_commit E A c role family d now s =
    (let (ok, s1) = rotate_refresh_token (cl_jti c) (dr_rjti d) s
     in if \<not> ok then
          refuse_reuse E c family
            (JObj [(''family_id'', JStr family), (''reason'', JStr ''cas_lost'')]) now s1
        else
          let new_refresh = sign E A (cl_sub c) (cl_tid c) role (as_refresh_ttl A) ''refresh'' (dr_rjti d) now;
              access = sign E A (cl_sub c) (cl_tid c) role (as_ttl A) ''access'' (dr_jti d) now;
              s2 = record_issued_jti (dr_jti d) (cl_tid c) (cl_sub c) now s1;
              s3 = snd (insert_refresh_token (dr_rjti d) family (cl_tid c) (cl_sub c)
                     (now + of_int (as_refresh_ttl A)) None ''active'' now s2);
              s4 = audit_entry E (cl_tid c) (Some (cl_sub c)) (Some (dr_jti d)) (Some role) ''auth.refresh''
                     (Some ''session'') (JObj [(''rotated_from'', JStr (cl_jti c))]) now s3
          in ret \<lparr>tr_access_token = access, tr_refresh_token = new_refresh, tr_expires_in = as_ttl A,
                  tr_must_change_password = False, tr_mfa_required = False\<rparr> s4)"

definition refresh ::
  "auth_env \<Rightarrow> auth_service \<Rightarrow> string \<Rightarrow> draws \<Rightarrow> time \<Rightarrow> store
     \<Rightarrow> (auth_error, token_response, store) outcome" where
  "refresh E A refresh_token d now s =
    (case auth_verify E A refresh_token (Some ''refresh'') now of
       Inl e \<Rightarrow> raise (TokenError e) s
     | Inr c \<Rightarrow>
         (case get_refresh_token (cl_jti c) s of
            None \<Rightarrow> raise (unauthorized ''invalid refresh token'') s
          | Some rt \<Rightarrow>
              if rt_status rt = ''revoked'' then raise (unauthorized ''revoked refresh token'') s
              else if rt_status rt = ''rotated'' then
                refuse_reuse E c (rt_family_id rt) (JObj [(''family_id'', JStr (rt_family_id rt))]) now s
              else if tenant_blocked (get_tenant_status (cl_tid c) s) then
                raise (unauthorized ''tenant disabled'') s
              else if user_blocked (get_user_status (cl_sub c) s) then
                raise (unauthorized ''account disabled'') s
              else case get_member_role (cl_tid c) (cl_sub c) s of
                None \<Rightarrow> raise (unauthorized ''membership revoked'') s
              | Some role \<Rightarrow> refresh_commit E A c role (rt_family_id rt) d now s))"

definition revoke ::
  "auth_env \<Rightarrow> string \<Rightarrow> string \<Rightarrow> string option \<Rightarrow> time \<Rightarrow> store \<Rightarrow> (auth_error, unit, store) outcome" where
  "revoke E jti caller_tid caller_uid now s =
    (case get_jti_owner jti now s of
       None \<Rightarrow> raise (forbidden ''jti does not belong to caller tenant'') s
     | Some (owner_tid, owner_uid) \<Rightarrow>
         if owner_tid \<noteq> caller_tid then raise (forbidden ''jti does not belong to caller tenant'') s
         else ret () (audit_entry E caller_tid caller_uid (Some jti) None ''auth.revoke'' (Some ''session'')
                (JObj [(''jti'', JStr jti)]) now
                (revoke_jti jti caller_tid caller_uid ''admin_revoke'' None now s)))"

definition logout ::
  "auth_env \<Rightarrow> auth_service \<Rightarrow> claims \<Rightarrow> string option \<Rightarrow> time \<Rightarrow> store \<Rightarrow> store" where
  "logout E A c refresh_token now s =
    (let s1 = revoke_jti (cl_jti c) (cl_tid c) (Some (cl_sub c)) ''logout'' (Some (of_int (cl_exp c))) now s;
         s2 = (if truthy_str refresh_token then
                 (case auth_verify E A (upd_opt refresh_token []) (Some ''refresh'') now of
                    Inl e \<Rightarrow> s1
                  | Inr rc \<Rightarrow>
                      (case get_refresh_token (cl_jti rc) s1 of
                         None \<Rightarrow> s1
                       | Some rt \<Rightarrow> snd (revoke_refresh_family (rt_family_id rt) s1)))
               else s1)
     in audit_entry E (cl_tid c) (Some (cl_sub c)) (Some (cl_jti c)) (cl_role c) ''auth.logout''
          (Some ''session'') (JObj []) now s2)"

section \<open>Password change\<close>

definition change_password ::
  "auth_env \<Rightarrow> string \<Rightarrow> string \<Rightarrow> string \<Rightarrow> string \<Rightarrow> string \<Rightarrow> time \<Rightarrow> store
     \<Rightarrow> (auth_error, unit, store) outcome" where
  "change_password E user_id old_password new_password tid rnd_salt now s =
    (case get_user user_id s of
       None \<Rightarrow> raise (unauthorized ''user not found'') s
     | Some user \<Rightarrow>
         if \<not> fst (check_password E user old_password) then
           raise (unauthorized ''invalid credentials'') (record_failed_login E user (Some tid) now s)
         else
           let (pw_hash, salt, algo) = hash_password (env_kdf E) new_password rnd_salt;
               s1 = snd (update_user user_id (no_user_update\<lparr>uu_password_hash_v := Some pw_hash,
                      uu_salt := Some salt, uu_password_algo := Some algo,
                      uu_must_change_password := Some False\<rparr>) s);
               (revoked, s2) = revoke_user_sessions user_id s1;
               s3 = audit_entry E tid (Some user_id) None None ''auth.password_change'' (Some ''session'')
                      (JObj [(''revoked_sessions'', JInt (int revoked))]) now s2
           in ret () s3)"

section \<open>MFA\<close>

definition enroll_mfa ::
  "auth_env \<Rightarrow> auth_service \<Rightarrow> string \<Rightarrow> string \<Rightarrow> int list \<Rightarrow> time \<Rightarrow> store
     \<Rightarrow> (string \<times> string \<times> bool) \<times> store" where
  "enroll_mfa E A user_id raw nonce now s =
    (let (rec, s1) = upsert_mfa user_id ''totp'' (encrypt_secret (env_aead E) raw (as_kek A) nonce) False now s;
         label = (case get_user user_id s1 of None \<Rightarrow> user_id | Some u \<Rightarrow> u_username u)
     in ((raw, env_totp_uri E raw label ''fusion-identity'', f_enabled rec), s1))"

definition verify_mfa ::
  "auth_env \<Rightarrow> auth_service \<Rightarrow> string \<Rightarrow> string \<Rightarrow> string \<Rightarrow> time \<Rightarrow> store
     \<Rightarrow> (auth_error, string \<times> bool \<times> time, store) outcome" where
  "verify_mfa E A user_id code method now s =
    (case get_mfa user_id method s of
       None \<Rightarrow> raise (unauthorized ''mfa not enrolled'') s
     | Some rec \<Rightarrow>
         (case verify_totp E rec code (as_kek A) (as_kek_prev A) now of
            Inl e \<Rightarrow> raise (CryptoFailure e) s
          | Inr ok \<Rightarrow>
              if \<not> ok then raise (unauthorized ''invalid mfa code'') s
              else ret (method, True, f_enrolled_at rec)
                     (snd (upsert_mfa user_id method (f_secret_enc rec) True now s))))"

definition auth_list_mfa :: "string \<Rightarrow> store \<Rightarrow> (string \<times> bool \<times> time) list" where
  "auth_list_mfa user_id s = map (\<lambda>r. (f_method r, f_enabled r, f_enrolled_at r)) (list_mfa user_id s)"

definition auth_delete_mfa :: "string \<Rightarrow> string \<Rightarrow> store \<Rightarrow> bool \<times> store" where
  "auth_delete_mfa user_id method s = delete_mfa user_id method s"

section \<open>Bootstrap\<close>

text \<open>\<open>str(x)\<close> of a value read from JSON; a nested string is shown by \<open>repr\<close>.\<close>

definition py_quote :: "string \<Rightarrow> char" where
  "py_quote s = (if CHR 0x27 \<in> set s \<and> CHR 0x22 \<notin> set s then CHR 0x22 else CHR 0x27)"

definition repr_char :: "char \<Rightarrow> char \<Rightarrow> string" where
  "repr_char q c =
    (let n = of_char c :: nat
     in if c = q \<or> n = 92 then [CHR 0x5C, c]
        else if n = 9 then [CHR 0x5C, CHR ''t'']
        else if n = 10 then [CHR 0x5C, CHR ''n'']
        else if n = 13 then [CHR 0x5C, CHR ''r'']
        else if n < 32 \<or> (127 \<le> n \<and> n \<le> 160) \<or> n = 173
        then [CHR 0x5C, CHR ''x'', hex_digit (n div 16), hex_digit (n mod 16)]
        else [c])"

definition py_repr_str :: "string \<Rightarrow> string" where
  "py_repr_str s = py_quote s # concat (map (repr_char (py_quote s)) s) @ [py_quote s]"

fun py_repr :: "(real \<Rightarrow> string) \<Rightarrow> json \<Rightarrow> string" where
  "py_repr fr JNull = ''None''"
| "py_repr fr (JBool b) = (if b then ''True'' else ''False'')"
| "py_repr fr (JInt i) = dumps fr (JInt i)"
| "py_repr fr (JFloat x) = fr x"
| "py_repr fr (JStr s) = py_repr_str s"
| "py_repr fr (JArr xs) = ''['' @ join '', '' (map (py_repr fr) xs) @ '']''"
| "py_repr fr (JObj kvs) =
     ''{'' @ join '', '' (map (\<lambda>(k, v). py_repr_str k @ '': '' @ py_repr fr v) kvs) @ ''}''"

definition py_str :: "(real \<Rightarrow> string) \<Rightarrow> json \<Rightarrow> string" where
  "py_str fr j = (case j of JStr s \<Rightarrow> s | _ \<Rightarrow> py_repr fr j)"

text \<open>The value of a key with a default for an absent one.\<close>

definition jget_default :: "(string \<times> json) list \<Rightarrow> string \<Rightarrow> json \<Rightarrow> json" where
  "jget_default kvs k def = upd_opt (map_of kvs k) def"

fun seed_tenants ::
  "auth_env \<Rightarrow> json list \<Rightarrow> time \<Rightarrow> store \<Rightarrow> (auth_error, unit, store) outcome" where
  "seed_tenants E [] now s = ret () s"
| "seed_tenants E (item # rest) now s =
     (case item of
        JObj kvs \<Rightarrow>
          if \<not> truthy_json (jget_default kvs ''tenant_id'' JNull) then
            raise (RuntimeFailure ''bootstrap tenant entry missing tenant_id'') s
          else
            let tid = py_str (env_fr E) (jget_default kvs ''tenant_id'' JNull);
                display = py_str (env_fr E) (jget_default kvs ''display_name'' (JStr tid));
                plan = py_str (env_fr E) (jget_default kvs ''plan'' (JStr ''team''))
            in (case create_tenant tid display plan ''invite'' now s of
                  (Inl e, s1) \<Rightarrow> raise (StoreConflict e) s1
                | (Inr t, s1) \<Rightarrow> seed_tenants E rest now s1)
      | _ \<Rightarrow> raise (RuntimeFailure ''bootstrap tenant entry missing tenant_id'') s)"

text \<open>\<open>extra\<close> is the value of the setting: unset, text that does not parse, or a JSON value.\<close>

definition bootstrap ::
  "auth_env \<Rightarrow> string option \<Rightarrow> string option \<Rightarrow> file_content option \<Rightarrow> string \<Rightarrow> time \<Rightarrow> store
     \<Rightarrow> (auth_error, unit, store) outcome" where
  "bootstrap E admin_user admin_pass extra rnd_salt now s =
    (if \<not> is_empty_tenants s then ret () s
     else if \<not> truthy_str admin_user \<or> \<not> truthy_str admin_pass then
       raise (RuntimeFailure
         ''bootstrap requires FUSION_BOOTSTRAP_ADMIN_USER and FUSION_BOOTSTRAP_ADMIN_PASS'') s
     else case create_tenant ''default'' ''Default Tenant'' ''team'' ''invite'' now s of
       (Inl e, s1) \<Rightarrow> raise (StoreConflict e) s1
     | (Inr _, s1) \<Rightarrow>
         (case create_user (env_kdf E) ''usr_admin'' (upd_opt admin_user []) (upd_opt admin_pass []) None
                 False True None rnd_salt now s1 of
            (Inl e, s2) \<Rightarrow> raise (RuntimeFailure ''bootstrap conflict: usr_admin already exists'') s2
          | (Inr _, s2) \<Rightarrow>
              (case add_member ''default'' ''usr_admin'' ''tenant_admin'' None now s2 of
                 (Inl e, s3) \<Rightarrow> raise (StoreConflict e) s3
               | (Inr _, s3) \<Rightarrow>
                   (case extra of
                      None \<Rightarrow> ret () s3
                    | Some Unparsable \<Rightarrow> raise (RuntimeFailure ''invalid FUSION_BOOTSTRAP_TENANTS JSON'') s3
                    | Some (Parsed (JArr items)) \<Rightarrow> seed_tenants E items now s3
                    | Some (Parsed _) \<Rightarrow>
                        raise (RuntimeFailure ''FUSION_BOOTSTRAP_TENANTS must be a JSON array'') s3))))"

end
