(* ===== verification/Auth_Steps.thy ===== *)
theory Auth_Steps
  imports Auth Store_Integrity
begin

text \<open>
  The authentication service as a client of the store: every operation is a sequence of store
  steps, so the store invariants hold throughout; and, per operation, the case analyses the
  properties rest on.
\<close>

named_theorems auth_reach \<open>operations keep the store reachable\<close>
named_theorems frame_simps \<open>effect of single store operations on the tables read by the service\<close>

section \<open>Reachability\<close>

abbreviation live :: "auth_env \<Rightarrow> store \<Rightarrow> bool" where
  "live E s \<equiv> reachable (env_kdf E) (env_fr E) s"

lemma live_user: "live E s \<Longrightarrow> user_step (env_kdf E) s s' \<Longrightarrow> live E s'"
  by (blast intro: reachable.step store_step.user)

lemma live_token: "live E s \<Longrightarrow> token_step s s' \<Longrightarrow> live E s'"
  by (blast intro: reachable.step store_step.token)

lemma live_log: "live E s \<Longrightarrow> log_step (env_fr E) s s' \<Longrightarrow> live E s'"
  by (blast intro: reachable.step store_step.log)

lemma live_tenant: "live E s \<Longrightarrow> tenant_step s s' \<Longrightarrow> live E s'"
  by (blast intro: reachable.step store_step.tenant)

lemma live_store_ops [auth_reach]:
  assumes "live E s"
  shows "live E (snd (update_user u f s))" "live E (create_sso_ticket h u t x n s)"
    "live E (snd (consume_sso_ticket n h s))" "live E (snd (upsert_mfa u m se en n s))"
    "live E (snd (delete_mfa u m s))" "live E (revoke_jti j t ou re e n s)"
    "live E (snd (is_jti_revoked j n s))" "live E (snd (rotate_refresh_token j j' s))"
    "live E (snd (revoke_refresh_family fa s))" "live E (snd (revoke_user_sessions u s))"
    "live E (record_issued_jti j t u n s)" "live E (snd (revoke_user_issued_jtis u ot re n s))"
    "live E (snd (insert_refresh_token j fa t u x rb ''active'' n s))"
    "live E (snd (create_tenant t d p jp n s))"
    "live E (snd (create_user (env_kdf E) u nm pw em mc ev dn sa n s))"
    "live E (snd (add_member t u ro ab n s))"
  using assms
  by (blast intro: live_user live_token live_tenant user_step.intros token_step.intros tenant_step.intros)+

lemma live_audit_entry [auth_reach]: "live E s \<Longrightarrow> live E (audit_entry E t u j r a re d n s)"
  unfolding audit_entry_def by (blast intro: live_log log_step.intros)

lemma live_record_failed_login [auth_reach]: "live E s \<Longrightarrow> live E (record_failed_login E u t n s)"
  by (simp add: record_failed_login_def Let_def auth_reach)

lemma live_issue_login_pair [auth_reach]:
  "live E s \<Longrightarrow> live E (snd (issue_login_pair E A u t r un ac d n s))"
  by (simp add: issue_login_pair_def Let_def auth_reach)

lemma live_rehash [auth_reach]: "live E s \<Longrightarrow> live E (rehash E u pw sa s)"
  by (simp add: rehash_def hash_password_def auth_reach)

lemma live_login_member [auth_reach]:
  "live E s \<Longrightarrow> live E (snd (login_member E A req u t d n s))"
  by (auto simp: login_member_def Let_def auth_reach split: option.split sum.split prod.split)
    (metis auth_reach snd_conv)+

lemma live_login [auth_reach]: "live E s \<Longrightarrow> live E (snd (login E A req sk d n s))"
  by (auto simp: login_def Let_def auth_reach split: option.split sum.split prod.split)

lemma snd_outcome: "(case p of (x, s) \<Rightarrow> ret (f x) s) = (Inr (f (fst p)), snd p)"
  by (simp add: case_prod_beta)

lemma live_sso [auth_reach]:
  assumes "live E s"
  shows "live E (snd (issue_sso_ticket E A u t r rd n s))"
    "live E (snd (exchange_sso_ticket E A tk d n s))"
proof -
  show "live E (snd (issue_sso_ticket E A u t r rd n s))"
    using assms by (simp add: issue_sso_ticket_def Let_def auth_reach)
  obtain rec s1 where c: "consume_sso_ticket n (sha256_hash tk) s = (rec, s1)" by fastforce
  then have "live E s1" using live_store_ops(3) [OF assms, of n "sha256_hash tk"] by simp
  then show "live E (snd (exchange_sso_ticket E A tk d n s))"
    by (simp add: exchange_sso_ticket_def c Let_def snd_outcome auth_reach split: option.split)
qed

lemma authorize_store: "snd (authorize c n s) = snd (is_jti_revoked (cl_jti c) n s)"
  by (simp add: authorize_def Let_def case_prod_beta split: option.split)

lemma live_authorize [auth_reach]: "live E s \<Longrightarrow> live E (snd (authorize c n s))"
  by (simp add: authorize_store auth_reach)

lemma live_checks [auth_reach]:
  assumes "live E s"
  shows "live E (snd (verify E A tk n s))" "live E (snd (introspect E A tk n s))"
    "live E (snd (resolve_bearer_claims E A h n s))" "live E (snd (verify_session_token E A tk n s))"
proof -
  have a: "live E s1" if "authorize c n s = (x, s1)" for c x s1
    using live_authorize [OF assms, of c n] that by simp
  show "live E (snd (verify E A tk n s))" "live E (snd (introspect E A tk n s))"
    using assms by (auto simp: verify_def introspect_def split: sum.split prod.split option.split dest: a)
  show "live E (snd (resolve_bearer_claims E A h n s))" "live E (snd (verify_session_token E A tk n s))"
    using assms by (simp_all add: resolve_bearer_claims_def verify_session_token_def Let_def case_prod_beta
        auth_reach split: sum.split option.split)
qed

lemma live_session [auth_reach]:
  assumes "live E s"
  shows "live E (snd (issue_session_token E A su t r tt j n s))"
    "live E (snd (revoke_user_sessions_and_tokens E su t n s))"
  using assms by (simp_all add: issue_session_token_def revoke_user_sessions_and_tokens_def Let_def
      case_prod_beta auth_reach)

lemma live_refuse_reuse [auth_reach]: "live E s \<Longrightarrow> live E (snd (refuse_reuse E c f de n s))"
  by (simp add: refuse_reuse_def auth_reach)

lemma live_refresh_commit [auth_reach]: "live E s \<Longrightarrow> live E (snd (refresh_commit E A c r f d n s))"
  by (simp add: refresh_commit_def Let_def case_prod_beta auth_reach)

lemma live_refresh [auth_reach]: "live E s \<Longrightarrow> live E (snd (refresh E A tk d n s))"
  by (simp add: refresh_def auth_reach split: sum.split option.split)

lemma live_revoke [auth_reach]: "live E s \<Longrightarrow> live E (snd (revoke E j t u n s))"
  by (simp add: revoke_def auth_reach split: option.split prod.split)

lemma live_logout [auth_reach]: "live E s \<Longrightarrow> live E (logout E A c tk n s)"
  by (simp add: logout_def Let_def auth_reach split: sum.split option.split)

lemma live_change_password [auth_reach]: "live E s \<Longrightarrow> live E (snd (change_password E u o' p t sa n s))"
  by (simp add: change_password_def hash_password_def Let_def case_prod_beta auth_reach split: option.split)

lemma live_mfa [auth_reach]:
  assumes "live E s"
  shows "live E (snd (enroll_mfa E A u raw no n s))" "live E (snd (verify_mfa E A u co me n s))"
    "live E (snd (auth_delete_mfa u me s))"
  using assms by (simp_all add: enroll_mfa_def verify_mfa_def auth_delete_mfa_def Let_def case_prod_beta
      auth_reach split: option.split sum.split)

lemma live_seed_tenants [auth_reach]: "live E s \<Longrightarrow> live E (snd (seed_tenants E js n s))"
proof (induction js arbitrary: s)
  case Nil
  then show ?case by simp
next
  case (Cons j js)
  have ct: "live E s1" if "create_tenant t d p jp n s = (x, s1)" for t d p jp x s1
    using live_store_ops(14) [OF Cons.prems, of t d p jp n] that by simp
  show ?case
    using Cons.prems by (auto simp: Let_def split: json.split prod.split sum.split dest: ct intro: Cons.IH)
qed

lemma live_bootstrap [auth_reach]:
  assumes "live E s"
  shows "live E (snd (bootstrap E u p ex sa n s))"
proof -
  have ct: "live E s1" if "create_tenant t d pl jp n s = (x, s1)" for t d pl jp x s1
    using live_store_ops(14) [OF assms, of t d pl jp n] that by simp
  have cu: "live E s2" if "create_user (env_kdf E) i nm pw em mc ev dn sa n s1 = (x, s2)" "live E s1"
    for i nm pw em mc ev dn s1 x s2
    using live_store_ops(15) [OF that(2), of i nm pw em mc ev dn sa n] that(1) by simp
  have am: "live E s3" if "add_member t i r ab n s2 = (x, s3)" "live E s2" for t i r ab s2 x s3
    using live_store_ops(16) [OF that(2), of t i r ab n] that(1) by simp
  show ?thesis
    using assms by (auto simp: bootstrap_def auth_reach split: prod.split sum.split option.split
        file_content.split json.split dest!: ct dest: cu am)
qed

section \<open>Users are filed under their own id\<close>

definition keyed :: "(string, user_rec) dict \<Rightarrow> bool" where
  "keyed d \<longleftrightarrow> list_all (\<lambda>(k, u). u_user_id u = k) d"

abbreviation users_keyed :: "store \<Rightarrow> bool" where
  "users_keyed s \<equiv> keyed (users s)"

lemma keyed_dset: "keyed d \<Longrightarrow> u_user_id v = k \<Longrightarrow> keyed (dset k v d)"
  unfolding keyed_def by (induction d) auto

lemma keyed_dmap_first:
  "keyed d \<Longrightarrow> (\<And>u. u_user_id (f u) = u_user_id u) \<Longrightarrow> keyed (dmap_first P f d)"
  unfolding keyed_def by (induction P f d rule: dmap_first.induct) auto

lemma keyed_get: "keyed d \<Longrightarrow> dget d i = Some u \<Longrightarrow> u_user_id u = i"
  unfolding keyed_def list_all_iff by (drule map_of_SomeD) blast

lemma users_keyed_user_step:
  assumes "user_step K s s'" "users_keyed s"
  shows "users_keyed s'"
proof -
  note k = assms(2)
  note set_rule = keyed_dset [OF k]
  note old = keyed_get [OF k]
  show ?thesis
    using assms(1)
  proof cases
    case (create_user u nm pw e mc ev dn r n)
    show ?thesis unfolding create_user
      by (simp add: create_user_def hash_password_def Let_def k set_rule)
  next
    case (update_user u f)
    show ?thesis unfolding update_user
      by (simp add: update_user_def apply_user_update_def Let_def k set_rule old split: option.split)
  next
    case (set_email_verify_token u h x)
    show ?thesis unfolding set_email_verify_token
      by (simp add: set_email_verify_token_def k set_rule old split: option.split)
  next
    case (set_password_reset_token u h x)
    show ?thesis unfolding set_password_reset_token
      by (simp add: set_password_reset_token_def k set_rule old split: option.split)
  next
    case (verify_email_token n h)
    show ?thesis unfolding verify_email_token
      by (simp add: verify_email_token_def Let_def k keyed_dmap_first [OF k] split: option.split)
  next
    case (consume_password_reset_token n h)
    show ?thesis unfolding consume_password_reset_token
      by (simp add: consume_password_reset_token_def Let_def k keyed_dmap_first [OF k] split: option.split)
  qed (use assms(2) in \<open>simp_all add: user_store_defs Let_def split: option.split\<close>)
qed

lemma users_keyed_step:
  assumes "store_step K fr s s'" "users_keyed s"
  shows "users_keyed s'"
  using assms(1)
proof cases
  case (user)
  then show ?thesis using assms(2) by (rule users_keyed_user_step)
next
  case (delete_tenant t n)
  then show ?thesis using assms(2) by (simp add: delete_tenant_def Let_def split: option.split)
qed (use assms(2) in \<open>simp_all add: tenant_step_frame rbac_step_frame secret_step_frame
      join_step_frame token_step_frame log_step_frame\<close>)

lemma reachable_users_keyed: "reachable K fr s \<Longrightarrow> users_keyed s"
proof (induction rule: reachable.induct)
  case init
  show ?case by (simp add: keyed_def empty_store_def)
next
  case (step s s')
  then show ?case by (blast intro: users_keyed_step)
qed

lemma find_SomeD: "List.find P xs = Some x \<Longrightarrow> x \<in> set xs" "List.find P xs = Some x \<Longrightarrow> P x"
  by (auto simp: find_Some_iff)

lemma user_filed:
  assumes "reachable K fr s" "get_user_by_username nm s = Some u"
  shows "dget (users s) (u_user_id u) = Some u" "u_username u = nm"
proof -
  have "u \<in> snd ` set (users s)" "u_username u = nm"
    using find_SomeD [OF assms(2) [unfolded get_user_by_username_def]] by simp_all
  then obtain k where k: "(k, u) \<in> set (users s)" "u_username u = nm" by auto
  then have "u_user_id u = k" using reachable_users_keyed [OF assms(1)] by (auto simp: keyed_def list_all_iff)
  moreover have "dict_wf (users s)" using reachable_invD(1) [OF assms(1)] by (simp add: dicts_wf_def)
  ultimately show "dget (users s) (u_user_id u) = Some u" "u_username u = nm" using k by auto
qed

section \<open>What the operations leave alone\<close>

lemma audit_entry_frame [simp]:
  "tenants (audit_entry E t u j r a re d n s) = tenants s"
  "users (audit_entry E t u j r a re d n s) = users s"
  "members (audit_entry E t u j r a re d n s) = members s"
  "quotas (audit_entry E t u j r a re d n s) = quotas s"
  "revoked_jtis (audit_entry E t u j r a re d n s) = revoked_jtis s"
  "refresh_tokens (audit_entry E t u j r a re d n s) = refresh_tokens s"
  "issued_jtis (audit_entry E t u j r a re d n s) = issued_jtis s"
  "mfa (audit_entry E t u j r a re d n s) = mfa s"
  "custom_roles (audit_entry E t u j r a re d n s) = custom_roles s"
  "menu_matrix (audit_entry E t u j r a re d n s) = menu_matrix s"
  "sso_tickets (audit_entry E t u j r a re d n s) = sso_tickets s"
  unfolding audit_entry_def
  by (rule log_step_frame [OF log_step.append_audit])+

lemma update_user_frame [simp]:
  "tenants (snd (update_user i f s)) = tenants s" "members (snd (update_user i f s)) = members s"
  "quotas (snd (update_user i f s)) = quotas s"
  "revoked_jtis (snd (update_user i f s)) = revoked_jtis s"
  "refresh_tokens (snd (update_user i f s)) = refresh_tokens s"
  "issued_jtis (snd (update_user i f s)) = issued_jtis s"
  "mfa (snd (update_user i f s)) = mfa s" "custom_roles (snd (update_user i f s)) = custom_roles s"
  "menu_matrix (snd (update_user i f s)) = menu_matrix s"
  "sso_tickets (snd (update_user i f s)) = sso_tickets s"
  by (simp_all add: update_user_def Let_def split: option.split)

lemma users_update_user:
  "dget (users s) i = Some u \<Longrightarrow> users (snd (update_user i f s)) = dset i (apply_user_update f u) (users s)"
  by (simp add: update_user_def Let_def)

lemma is_jti_revoked_frame [simp]:
  "tenants (snd (is_jti_revoked j n s)) = tenants s" "users (snd (is_jti_revoked j n s)) = users s"
  "members (snd (is_jti_revoked j n s)) = members s" "quotas (snd (is_jti_revoked j n s)) = quotas s"
  "custom_roles (snd (is_jti_revoked j n s)) = custom_roles s"
  "menu_matrix (snd (is_jti_revoked j n s)) = menu_matrix s"
  "refresh_tokens (snd (is_jti_revoked j n s)) = refresh_tokens s"
  "issued_jtis (snd (is_jti_revoked j n s)) = issued_jtis s"
  by (simp_all add: is_jti_revoked_def sweep_revoked_def Let_def)

lemma record_issued_jti_frame [simp]:
  "tenants (record_issued_jti j t u n s) = tenants s" "users (record_issued_jti j t u n s) = users s"
  "members (record_issued_jti j t u n s) = members s" "quotas (record_issued_jti j t u n s) = quotas s"
  "revoked_jtis (record_issued_jti j t u n s) = revoked_jtis s"
  "refresh_tokens (record_issued_jti j t u n s) = refresh_tokens s"
  "mfa (record_issued_jti j t u n s) = mfa s" "custom_roles (record_issued_jti j t u n s) = custom_roles s"
  "menu_matrix (record_issued_jti j t u n s) = menu_matrix s"
  "sso_tickets (record_issued_jti j t u n s) = sso_tickets s"
  by (simp_all add: record_issued_jti_def sweep_issued_jtis_def Let_def)

lemma insert_refresh_token_frame [simp]:
  "tenants (snd (insert_refresh_token j f t u x rb st n s)) = tenants s"
  "users (snd (insert_refresh_token j f t u x rb st n s)) = users s"
  "members (snd (insert_refresh_token j f t u x rb st n s)) = members s"
  "quotas (snd (insert_refresh_token j f t u x rb st n s)) = quotas s"
  "revoked_jtis (snd (insert_refresh_token j f t u x rb st n s)) = revoked_jtis s"
  "issued_jtis (snd (insert_refresh_token j f t u x rb st n s)) = issued_jtis s"
  "mfa (snd (insert_refresh_token j f t u x rb st n s)) = mfa s"
  "custom_roles (snd (insert_refresh_token j f t u x rb st n s)) = custom_roles s"
  "menu_matrix (snd (insert_refresh_token j f t u x rb st n s)) = menu_matrix s"
  "sso_tickets (snd (insert_refresh_token j f t u x rb st n s)) = sso_tickets s"
  by (simp_all add: insert_refresh_token_def Let_def)

lemma get_refresh_insert:
  "dget (refresh_tokens (snd (insert_refresh_token j f t u x rb st n s))) k =
    (if k = j then Some \<lparr>rt_jti = j, rt_family_id = f, rt_tenant_id = t, rt_user_id = u, rt_status = st,
        rt_issued_at = n, rt_expires_at = x, rt_replaced_by = rb\<rparr> else dget (refresh_tokens s) k)"
  by (simp add: insert_refresh_token_def Let_def dget_dset)

lemma rotate_refresh_token_frame [simp]:
  "tenants (snd (rotate_refresh_token j k s)) = tenants s" "users (snd (rotate_refresh_token j k s)) = users s"
  "members (snd (rotate_refresh_token j k s)) = members s"
  "revoked_jtis (snd (rotate_refresh_token j k s)) = revoked_jtis s"
  "issued_jtis (snd (rotate_refresh_token j k s)) = issued_jtis s"
  "custom_roles (snd (rotate_refresh_token j k s)) = custom_roles s"
  by (simp_all add: rotate_refresh_token_def split: option.split)

lemma lookups_is_jti_revoked [simp]:
  "get_tenant_status t (snd (is_jti_revoked j n s)) = get_tenant_status t s"
  "get_user_status u (snd (is_jti_revoked j n s)) = get_user_status u s"
  "get_member_role t u (snd (is_jti_revoked j n s)) = get_member_role t u s"
  "get_role t r (snd (is_jti_revoked j n s)) = get_role t r s"
  by (simp_all add: get_tenant_status_def get_user_status_def get_member_role_def get_role_def
      get_role_menus_def split: option.split)

section \<open>What success implies\<close>

lemma authorizeI:
  assumes "\<not> fst (is_jti_revoked (cl_jti c) n s)" "\<not> tenant_blocked (get_tenant_status (cl_tid c) s)"
    "\<not> user_blocked (get_user_status (cl_sub c) s)" "get_member_role (cl_tid c) (cl_sub c) s = Some r"
  shows "authorize c n s = (Inr (r, if cl_role c \<noteq> Some r
      then c\<lparr>cl_role := Some r, cl_scope := Some (role_scopes r)\<rparr> else c), snd (is_jti_revoked (cl_jti c) n s))"
  using assms by (simp add: authorize_def Let_def case_prod_beta)

lemma authorize_ok:
  assumes "authorize c n s = (Inr (r, c'), s1)"
  shows "s1 = snd (is_jti_revoked (cl_jti c) n s)" "\<not> fst (is_jti_revoked (cl_jti c) n s)"
    "\<not> tenant_blocked (get_tenant_status (cl_tid c) s)" "\<not> user_blocked (get_user_status (cl_sub c) s)"
    "get_member_role (cl_tid c) (cl_sub c) s = Some r" "cl_role c' = Some r"
    "cl_tid c' = cl_tid c" "cl_sub c' = cl_sub c" "cl_jti c' = cl_jti c" "cl_exp c' = cl_exp c"
proof -
  let ?rev = "fst (is_jti_revoked (cl_jti c) n s)"
  have g: "\<not> ?rev" "\<not> tenant_blocked (get_tenant_status (cl_tid c) s)"
    "\<not> user_blocked (get_user_status (cl_sub c) s)"
    using assms unfolding authorize_def Let_def case_prod_beta by (simp_all split: if_splits)
  show "\<not> ?rev" "\<not> tenant_blocked (get_tenant_status (cl_tid c) s)"
    "\<not> user_blocked (get_user_status (cl_sub c) s)" by (rule g)+
  show m: "get_member_role (cl_tid c) (cl_sub c) s = Some r"
    using assms g by (cases "get_member_role (cl_tid c) (cl_sub c) s")
      (simp_all add: authorize_def Let_def case_prod_beta split: if_splits)
  show "s1 = snd (is_jti_revoked (cl_jti c) n s)" "cl_role c' = Some r"
    "cl_tid c' = cl_tid c" "cl_sub c' = cl_sub c" "cl_jti c' = cl_jti c" "cl_exp c' = cl_exp c"
    using assms unfolding authorizeI [OF g m] by (auto split: if_splits)
qed

lemma verifyE:
  assumes "verify E A tok n s = (Inr vr, s1)"
  obtains c r c' where "auth_verify E A tok (Some ''access'') n = Inr c" "authorize c n s = (Inr (r, c'), s1)"
    "vr_tid vr = cl_tid c" "vr_role vr = r" "\<exists>v. get_role (cl_tid c) r s1 = Some v \<and>
      vr_write_classes vr = rv_write_classes v \<and> vr_allowed_menus vr = rv_menus v"
proof -
  obtain c where c: "auth_verify E A tok (Some ''access'') n = Inr c"
    using assms by (auto simp: verify_def split: sum.splits)
  obtain r c' s2 where a: "authorize c n s = (Inr (r, c'), s2)"
    using assms c by (auto simp: verify_def split: sum.splits prod.splits)
  have t: "cl_tid c' = cl_tid c" by (rule authorize_ok [OF a])
  obtain v where v: "get_role (cl_tid c) r s2 = Some v" "vr_role vr = r" "vr_tid vr = cl_tid c" "s2 = s1"
      "vr_write_classes vr = rv_write_classes v" "vr_allowed_menus vr = rv_menus v"
    using assms t by (auto simp: verify_def c a split: option.splits)
  show thesis by (rule that [OF c]) (use a v in auto)
qed

lemma auth_verify_decoded:
  assumes "jwt_checks (env_jwt E)" "auth_verify E A tok tt n = Inr c"
  shows "n < of_int (cl_exp c)" "cl_iss c = as_issuer A" "cl_aud c = as_audience A" "tt \<noteq> None \<Longrightarrow> cl_type c = tt"
proof -
  obtain key algs where v: "verify_token (env_jwt E) tok key (as_issuer A) (as_audience A) tt algs n = Inr c"
    using assms(2) by (auto simp: auth_verify_def Let_def split: sum.splits)
  note d = verify_token_ok(1) [OF v]
  show "n < of_int (cl_exp c)" "cl_iss c = as_issuer A" "cl_aud c = as_audience A"
    using assms(1) d unfolding jwt_checks_def by blast+
  show "tt \<noteq> None \<Longrightarrow> cl_type c = tt" by (rule verify_token_ok(2) [OF v])
qed

text \<open>The second factor, where one is enabled, and the rule for administrators.\<close>

definition mfa_passed ::
  "auth_env \<Rightarrow> auth_service \<Rightarrow> login_request \<Rightarrow> user_rec \<Rightarrow> string \<Rightarrow> time \<Rightarrow> store \<Rightarrow> bool" where
  "mfa_passed E A req u role n s \<longleftrightarrow>
    (case get_mfa (u_user_id u) ''totp'' s of
       Some f \<Rightarrow> if f_enabled f
         then truthy_str (lr_mfa_code req) \<and>
              verify_totp E f (upd_opt (lr_mfa_code req) []) (as_kek A) (as_kek_prev A) n = Inr True
         else \<not> (as_mfa_enforce_admin A \<and> role = ''tenant_admin'')
     | None \<Rightarrow> \<not> (as_mfa_enforce_admin A \<and> role = ''tenant_admin''))"

definition logged_in :: "user_rec \<Rightarrow> time \<Rightarrow> store \<Rightarrow> store" where
  "logged_in u n s = snd (update_user (u_user_id u)
     (no_user_update\<lparr>uu_failed_attempts := Some 0, uu_last_login_at := Some n\<rparr>) s)"

lemma login_memberE:
  assumes "login_member E A req u tid d n s = (Inr tr, s')" "\<not> tr_mfa_required tr"
  obtains role where "get_member_role tid (u_user_id u) s = Some role" "mfa_passed E A req u role n s"
    "(tr, s') = issue_login_pair E A u tid role (lr_username req) ''auth.login'' d n (logged_in u n s)"
proof -
  obtain role where r: "get_member_role tid (u_user_id u) s = Some role"
    using assms(1) by (auto simp: login_member_def split: option.splits)
  show thesis
  proof (rule that [OF r])
    show "mfa_passed E A req u role n s"
      using assms by (auto simp: login_member_def r mfa_passed_def Let_def case_prod_beta
          split: option.splits if_splits sum.splits)
    show "(tr, s') = issue_login_pair E A u tid role (lr_username req) ''auth.login'' d n (logged_in u n s)"
      using assms by (auto simp: login_member_def r logged_in_def Let_def case_prod_beta
          split: option.splits if_splits sum.splits)
  qed
qed

definition login_store :: "auth_env \<Rightarrow> login_request \<Rightarrow> user_rec \<Rightarrow> draws \<Rightarrow> store \<Rightarrow> store" where
  "login_store E req u d s = (if snd (check_password E u (lr_password req))
     then rehash E u (lr_password req) (dr_salt d) s else s)"

definition login_tenant :: "login_request \<Rightarrow> user_rec \<Rightarrow> store \<Rightarrow> auth_error + string" where
  "login_tenant req u s = (if truthy_str (lr_tenant_id req) then Inr (upd_opt (lr_tenant_id req) [])
     else resolve_login_tenant u s)"

text \<open>The gates before the membership lookup.\<close>

definition login_admitted ::
  "auth_env \<Rightarrow> auth_service \<Rightarrow> login_request \<Rightarrow> bool \<Rightarrow> user_rec \<Rightarrow> time \<Rightarrow> store \<Rightarrow> bool" where
  "login_admitted E A req sk u n s \<longleftrightarrow>
     (truthy_str (lr_tenant_id req) \<longrightarrow> \<not> tenant_blocked (get_tenant_status (upd_opt (lr_tenant_id req) []) s)) \<and>
     get_user_by_username (lr_username req) s = Some u \<and> \<not> is_locked u n \<and>
     u_status u \<noteq> ''disabled'' \<and> u_status u \<noteq> ''locked'' \<and>
     (as_email_verification_required A \<longrightarrow> sk \<or> u_email_verified u)"

lemma tenant_blocked_active [simp]: "\<not> tenant_blocked (Some ''active'')"
  by (simp add: tenant_blocked_def)

lemma login_admitted_eq:
  assumes "login_admitted E A req sk u n s"
  shows "login E A req sk d n s =
    (if fst (check_password E u (lr_password req))
     then (case login_tenant req u (login_store E req u d s) of
             Inl e \<Rightarrow> raise e (login_store E req u d s)
           | Inr tid \<Rightarrow> login_member E A req u tid d n (login_store E req u d s))
     else raise (unauthorized ''invalid credentials'') (record_failed_login E u (lr_tenant_id req) n s))"
  using assms unfolding login_store_def login_tenant_def
  by (auto simp: login_def login_admitted_def Let_def case_prod_beta split: sum.split)

lemma loginE:
  assumes "login E A req sk d n s = (Inr tr, s')"
  obtains u tid where "login_admitted E A req sk u n s" "fst (check_password E u (lr_password req))"
    "login_tenant req u (login_store E req u d s) = Inr tid"
    "login_member E A req u tid d n (login_store E req u d s) = (Inr tr, s')"
proof -
  obtain u where u: "login_admitted E A req sk u n s"
    using assms by (auto simp: login_def login_admitted_def Let_def case_prod_beta split: if_splits option.splits)
  show thesis
    using assms unfolding login_admitted_eq [OF u]
    by (auto intro: that [OF u] split: if_splits sum.splits)
qed

end
