(* ===== verification/Jwt_Instance.thy ===== *)
theory Jwt_Instance
  imports Jwt
begin

text \<open>
  A token library that meets the contract of PyJWT, so that the hypotheses about it can be
  discharged: a token spells out its header, key and claims with a prefix code, and decoding
  compares the key and checks the registered claims.
\<close>

section \<open>A prefix code\<close>

text \<open>A reader takes a value off the front of a string and returns the rest.\<close>

type_synonym 'a reader = "string \<Rightarrow> ('a \<times> string) option"

definition codes :: "('a \<Rightarrow> string) \<Rightarrow> 'a reader \<Rightarrow> bool" where
  "codes w r \<longleftrightarrow> (\<forall>x rest. r (w x @ rest) = Some (x, rest))"

definition w_nat :: "nat \<Rightarrow> string" where
  "w_nat n = replicate n (CHR ''x'') @ [CHR ''.'']"

fun r_nat :: "nat reader" where
  "r_nat [] = None"
| "r_nat (c # cs) = (if c = CHR ''.'' then Some (0, cs) else map_option (\<lambda>(n, rest). (Suc n, rest)) (r_nat cs))"

lemma codes_nat: "codes w_nat r_nat"
proof -
  have "r_nat (replicate n (CHR ''x'') @ CHR ''.'' # rest) = Some (n, rest)" for n rest
    by (induction n) simp_all
  then show ?thesis by (simp add: codes_def w_nat_def)
qed

definition w_str :: "string \<Rightarrow> string" where
  "w_str s = w_nat (length s) @ s"

definition r_str :: "string reader" where
  "r_str cs = map_option (\<lambda>(n, rest). (take n rest, drop n rest)) (r_nat cs)"

lemma codes_str: "codes w_str r_str"
  using codes_nat by (simp add: codes_def w_str_def r_str_def)

definition w_int :: "int \<Rightarrow> string" where
  "w_int i = (if i < 0 then CHR ''-'' else CHR ''+'') # w_nat (nat \<bar>i\<bar>)"

fun r_int :: "int reader" where
  "r_int [] = None"
| "r_int (c # cs) = map_option (\<lambda>(n, rest). (if c = CHR ''-'' then - int n else int n, rest)) (r_nat cs)"

lemma codes_int: "codes w_int r_int"
  using codes_nat by (simp add: codes_def w_int_def)

definition w_opt :: "('a \<Rightarrow> string) \<Rightarrow> 'a option \<Rightarrow> string" where
  "w_opt w x = (case x of None \<Rightarrow> ''n'' | Some v \<Rightarrow> CHR ''s'' # w v)"

fun r_opt :: "'a reader \<Rightarrow> 'a option reader" where
  "r_opt r [] = None"
| "r_opt r (c # cs) = (if c = CHR ''n'' then Some (None, cs) else map_option (\<lambda>(v, rest). (Some v, rest)) (r cs))"

lemma codes_opt: "codes w r \<Longrightarrow> codes (w_opt w) (r_opt r)"
  by (simp add: codes_def w_opt_def split: option.split)

fun r_many :: "nat \<Rightarrow> 'a reader \<Rightarrow> 'a list reader" where
  "r_many 0 r cs = Some ([], cs)"
| "r_many (Suc n) r cs =
     (case r cs of None \<Rightarrow> None | Some (v, rest) \<Rightarrow> map_option (\<lambda>(vs, rest'). (v # vs, rest')) (r_many n r rest))"

definition w_list :: "('a \<Rightarrow> string) \<Rightarrow> 'a list \<Rightarrow> string" where
  "w_list w xs = w_nat (length xs) @ concat (map w xs)"

definition r_list :: "'a reader \<Rightarrow> 'a list reader" where
  "r_list r cs = (case r_nat cs of None \<Rightarrow> None | Some (n, rest) \<Rightarrow> r_many n r rest)"

lemma codes_list:
  assumes "codes w r"
  shows "codes (w_list w) (r_list r)"
proof -
  have "r_many (length xs) r (concat (map w xs) @ rest) = Some (xs, rest)" for xs rest
    using assms by (induction xs) (simp_all add: codes_def)
  then show ?thesis using codes_nat by (simp add: codes_def w_list_def r_list_def)
qed

definition w_pair :: "('a \<Rightarrow> string) \<Rightarrow> ('b \<Rightarrow> string) \<Rightarrow> 'a \<times> 'b \<Rightarrow> string" where
  "w_pair w v p = w (fst p) @ v (snd p)"

definition r_pair :: "'a reader \<Rightarrow> 'b reader \<Rightarrow> ('a \<times> 'b) reader" where
  "r_pair r q cs =
    (case r cs of None \<Rightarrow> None | Some (x, rest) \<Rightarrow> map_option (\<lambda>(y, rest'). ((x, y), rest')) (q rest))"

lemma codes_pair: "codes w r \<Longrightarrow> codes v q \<Longrightarrow> codes (w_pair w v) (r_pair r q)"
  by (simp add: codes_def w_pair_def r_pair_def)

section \<open>Tokens\<close>

definition w_claims :: "claims \<Rightarrow> string" where
  "w_claims c =
    w_str (cl_sub c) @ w_str (cl_tid c) @ w_opt w_str (cl_tenant c) @ w_opt w_str (cl_role c) @
    w_opt (w_list w_str) (cl_scope c) @ w_int (cl_iat c) @ w_opt w_int (cl_nbf c) @ w_int (cl_exp c) @
    w_str (cl_iss c) @ w_str (cl_aud c) @ w_str (cl_jti c) @ w_opt w_str (cl_type c)"

definition claims_code ::
  "(string \<times> string \<times> string option \<times> string option \<times> string list option \<times> int \<times> int option \<times> int \<times>
    string \<times> string \<times> string \<times> string option) reader" where
  "claims_code =
    r_pair r_str (r_pair r_str (r_pair (r_opt r_str) (r_pair (r_opt r_str) (r_pair (r_opt (r_list r_str))
      (r_pair r_int (r_pair (r_opt r_int) (r_pair r_int (r_pair r_str (r_pair r_str (r_pair r_str (r_opt r_str)))))))))))"

definition r_claims :: "claims reader" where
  "r_claims cs = map_option
    (\<lambda>((sub, tid, tenant, role, scope, iat, nbf, ex, iss, aud, jti, ty), rest).
      (\<lparr>cl_sub = sub, cl_tid = tid, cl_tenant = tenant, cl_role = role, cl_scope = scope, cl_iat = iat,
        cl_nbf = nbf, cl_exp = ex, cl_iss = iss, cl_aud = aud, cl_jti = jti, cl_type = ty\<rparr>, rest)) (claims_code cs)"

lemmas code_facts =
  codes_str [unfolded codes_def, rule_format] codes_int [unfolded codes_def, rule_format]
  codes_opt [OF codes_str, unfolded codes_def, rule_format]
  codes_opt [OF codes_int, unfolded codes_def, rule_format]
  codes_opt [OF codes_list [OF codes_str], unfolded codes_def, rule_format]

lemma codes_claims: "codes w_claims r_claims"
  unfolding codes_def w_claims_def r_claims_def claims_code_def r_pair_def
  by (simp add: code_facts)

definition demo_jwt :: jwt_lib where
  "demo_jwt = \<lparr>
     jw_encode = (\<lambda>c key alg kid. w_str alg @ w_opt w_str kid @ w_str key @ w_claims c),
     jw_header = (\<lambda>t. case r_pair r_str (r_opt r_str) t of
        None \<Rightarrow> None | Some ((alg, kid), rest) \<Rightarrow> Some \<lparr>jh_alg = Some alg, jh_kid = kid\<rparr>),
     jw_decode = (\<lambda>t key algs iss aud now.
        case r_pair r_str (r_pair (r_opt r_str) (r_pair r_str r_claims)) t of
          None \<Rightarrow> None
        | Some ((alg, kid, k, c), rest) \<Rightarrow>
            if k = key \<and> alg \<in> set algs \<and> cl_iss c = iss \<and> cl_aud c = aud \<and> now < of_int (cl_exp c) \<and>
               of_int (cl_iat c) \<le> now \<and> (case cl_nbf c of None \<Rightarrow> True | Some m \<Rightarrow> of_int m \<le> now)
            then Some c else None)\<rparr>"

lemma demo_jwt_header:
  "jw_header demo_jwt (jw_encode demo_jwt c key alg kid) = Some \<lparr>jh_alg = Some alg, jh_kid = kid\<rparr>"
  by (simp add: demo_jwt_def r_pair_def code_facts)

lemma demo_jwt_decode:
  "jw_decode demo_jwt (jw_encode demo_jwt c key alg kid) vkey algs iss aud now =
    (if key = vkey \<and> alg \<in> set algs \<and> cl_iss c = iss \<and> cl_aud c = aud \<and> now < of_int (cl_exp c) \<and>
        of_int (cl_iat c) \<le> now \<and> (case cl_nbf c of None \<Rightarrow> True | Some m \<Rightarrow> of_int m \<le> now)
     then Some c else None)"
proof -
  have c: "r_claims (w_claims c) = Some (c, [])"
    using codes_claims [unfolded codes_def, rule_format, of c "[]"] by simp
  show ?thesis by (simp add: demo_jwt_def r_pair_def code_facts c)
qed

lemma demo_jwt_roundtrip: "jwt_roundtrip demo_jwt (\<lambda>alg key vkey. key = vkey)"
  unfolding jwt_roundtrip_def by (simp add: demo_jwt_header demo_jwt_decode split: if_splits)

lemma demo_jwt_checks: "jwt_checks demo_jwt"
  unfolding jwt_checks_def
  by (auto simp: demo_jwt_def split: option.splits prod.splits if_splits)

end
