(* ===== verification/Login_Properties.thy ===== *)
theory Login_Properties
  imports Auth_Steps Jwt_Instance Store_Properties
begin

text \<open>
  Properties of login: what a successful login has passed, that its tokens are accepted, the
  lockout after repeated failures, and the first login after the bootstrap.
\<close>

section \<open>The store after a login\<close>

lemma issue_login_pair_frame [simp]:
  "tenants (snd (issue_login_pair E A u t r un ac d n s)) = tenants s"
  "users (snd (issue_login_pair E A u t r un ac d n s)) = users s"
  "members (snd (issue_login_pair E A u t r un ac d n s)) = members s"
  "revoked_jtis (snd (issue_login_pair E A u t r un ac d n s)) = revoked_jtis s"
  "custom_roles (snd (issue_login_pair E A u t r un ac d n s)) = custom_roles s"
  by (simp_all add: issue_login_pair_def Let_def)

lemma issue_login_pair_tokens:
  assumes "(tr, s') = issue_login_pair E A u t r un ac d n s"
  shows "tr_access_token tr = sign E A (u_user_id u) t r (as_ttl A) ''access'' (dr_jti d) n"
    "tr_refresh_token tr = sign E A (u_user_id u) t r (as_refresh_ttl A) ''refresh'' (dr_rjti d) n"
    "get_refresh_token (dr_rjti d) s' = Some \<lparr>rt_jti = dr_rjti d, rt_family_id = dr_family d,
       rt_tenant_id = t, rt_user_id = u_user_id u, rt_status = ''active'', rt_issued_at = n,
       rt_expires_at = n + of_int (as_refresh_ttl A), rt_replaced_by = None\<rparr>"
    "dget (issued_jtis s') (dr_jti d) = Some (t, u_user_id u, n + ISSUED_JTI_DEFAULT_TTL)"
  using assms
  by (simp_all add: issue_login_pair_def Let_def get_refresh_token_def get_refresh_insert
      record_issued_jti_def sweep_issued_jtis_def dget_dset)

lemma rehash_frame [simp]:
  "tenants (rehash E u pw sa s) = tenants s" "members (rehash E u pw sa s) = members s"
  "mfa (rehash E u pw sa s) = mfa s" "revoked_jtis (rehash E u pw sa s) = revoked_jtis s"
  "custom_roles (rehash E u pw sa s) = custom_roles s"
  by (simp_all add: rehash_def hash_password_def)

lemma login_store_frame [simp]:
  "tenants (login_store E req u d s) = tenants s" "members (login_store E req u d s) = members s"
  "mfa (login_store E req u d s) = mfa s" "revoked_jtis (login_store E req u d s) = revoked_jtis s"
  "custom_roles (login_store E req u d s) = custom_roles s"
  by (simp_all add: login_store_def)

lemma logged_in_frame [simp]:
  "tenants (logged_in u n s) = tenants s" "members (logged_in u n s) = members s"
  "revoked_jtis (logged_in u n s) = revoked_jtis s" "custom_roles (logged_in u n s) = custom_roles s"
  by (simp_all add: logged_in_def)

lemma login_store_user:
  assumes "dget (users s) (u_user_id u) = Some u"
  obtains v where "dget (users (login_store E req u d s)) (u_user_id u) = Some v"
    "u_status v = u_status u" "u_username v = u_username u"
  using assms
  by (cases "snd (check_password E u (lr_password req))")
    (simp_all add: login_store_def rehash_def hash_password_def users_update_user dget_dset
      apply_user_update_def no_user_update_def)

lemma logged_in_user:
  assumes "dget (users s) (u_user_id u) = Some v"
  shows "dget (users (logged_in u n s)) (u_user_id u) = Some (apply_user_update
    (no_user_update\<lparr>uu_failed_attempts := Some 0, uu_last_login_at := Some n\<rparr>) v)"
  using assms by (simp add: logged_in_def users_update_user dget_dset)

lemma resolve_login_tenant_active:
  assumes "resolve_login_tenant u s = Inr tid"
  shows "get_tenant_status tid s = Some ''active''"
proof -
  define ms where "ms = filter (\<lambda>(t, v, r). get_tenant_status t s = Some ''active'')
    (memberships_for_user (u_user_id u) s)"
  obtain v r where "ms = [(tid, v, r)]"
    using assms unfolding resolve_login_tenant_def Let_def ms_def [symmetric] by (auto split: list.splits)
  then have "(tid, v, r) \<in> set ms" by simp
  then show ?thesis by (simp add: ms_def)
qed

text \<open>A bulk revocation reaches every record it selects, if the selection ignores the status.\<close>

lemma revoke_where_revoked:
  assumes "dget (refresh_tokens (snd (revoke_where P s))) j = Some r" "P r" "\<And>q st. P (q\<lparr>rt_status := st\<rparr>) = P q"
  shows "rt_status r = ''revoked''"
proof -
  obtain q where q: "r = (if P q then q\<lparr>rt_status := ''revoked''\<rparr> else q)"
    using assms(1) unfolding revoke_where_status by blast
  then have "P q" using assms(2,3) by (cases "P q") simp_all
  with q show ?thesis by simp
qed

text \<open>The tenant of a login is neither unknown nor blocked.\<close>

lemma login_tenant_open:
  assumes "login_admitted E A req sk u n s" "login_tenant req u (login_store E req u d s) = Inr tid"
  shows "\<not> tenant_blocked (get_tenant_status tid s)"
proof (cases "truthy_str (lr_tenant_id req)")
  case True
  with assms show ?thesis by (auto simp: login_admitted_def login_tenant_def)
next
  case False
  with assms(2) have "get_tenant_status tid (login_store E req u d s) = Some ''active''"
    by (auto simp: login_tenant_def intro: resolve_login_tenant_active)
  then have "get_tenant_status tid s = Some ''active''" by (simp add: get_tenant_status_def)
  then show ?thesis by simp
qed

lemma login_success:
  assumes "live E s" "login E A req sk d n s = (Inr tr, s')" "\<not> tr_mfa_required tr"
  obtains u tid role v s1 where
    "login_admitted E A req sk u n s" "fst (check_password E u (lr_password req))"
    "\<not> tenant_blocked (get_tenant_status tid s)" "get_member_role tid (u_user_id u) s = Some role"
    "mfa_passed E A req u role n s"
    "(tr, s') = issue_login_pair E A u tid role (lr_username req) ''auth.login'' d n s1"
    "tenants s' = tenants s" "members s' = members s" "revoked_jtis s' = revoked_jtis s"
    "get_user (u_user_id u) s' = Some v" "u_status v = u_status u" "u_failed_attempts v = 0"
proof -
  obtain u tid where u: "login_admitted E A req sk u n s" "fst (check_password E u (lr_password req))"
    "login_tenant req u (login_store E req u d s) = Inr tid"
    "login_member E A req u tid d n (login_store E req u d s) = (Inr tr, s')"
    by (rule loginE [OF assms(2)])
  let ?s1 = "logged_in u n (login_store E req u d s)"
  obtain role where m: "get_member_role tid (u_user_id u) (login_store E req u d s) = Some role"
    "mfa_passed E A req u role n (login_store E req u d s)"
    "(tr, s') = issue_login_pair E A u tid role (lr_username req) ''auth.login'' d n ?s1"
    by (rule login_memberE [OF u(4) assms(3)])
  have filed: "dget (users s) (u_user_id u) = Some u"
    using user_filed(1) [OF assms(1)] u(1) by (auto simp: login_admitted_def)
  obtain v where v: "dget (users (login_store E req u d s)) (u_user_id u) = Some v" "u_status v = u_status u"
    by (rule login_store_user [OF filed])
  have s': "s' = snd (issue_login_pair E A u tid role (lr_username req) ''auth.login'' d n ?s1)"
    using arg_cong [OF m(3), of snd] by simp
  show thesis
  proof (rule that [OF u(1,2) login_tenant_open [OF u(1,3)] _ _ m(3)])
    show "get_member_role tid (u_user_id u) s = Some role" "mfa_passed E A req u role n s"
      using m(1,2) by (simp_all add: get_member_role_def mfa_passed_def get_mfa_def)
    show "tenants s' = tenants s" "members s' = members s" "revoked_jtis s' = revoked_jtis s"
      by (simp_all add: s')
    show "get_user (u_user_id u) s' = Some (apply_user_update
        (no_user_update\<lparr>uu_failed_attempts := Some 0, uu_last_login_at := Some n\<rparr>) v)"
      by (simp add: get_user_def s' logged_in_user [OF v(1)])
  qed (simp_all add: apply_user_update_def no_user_update_def v(2))
qed

text \<open>
  C1 (safety). A login that returns tokens has passed every gate: an existing user that is
  not locked, disabled or waiting for e-mail verification, its password, an open tenant it is
  a member of, the second factor where one is enabled, and an enrolled factor where
  administrators must have one. The tokens carry the role of the membership, the refresh
  token is on record as active, and the failure counter is back at zero.
\<close>

theorem login_passes_every_gate:
  assumes "live E s" "login E A req sk d n s = (Inr tr, s')" "\<not> tr_mfa_required tr"
  shows "\<exists>u tid role. login_admitted E A req sk u n s \<and> fst (check_password E u (lr_password req)) \<and>
    \<not> tenant_blocked (get_tenant_status tid s) \<and> get_member_role tid (u_user_id u) s = Some role \<and>
    mfa_passed E A req u role n s \<and>
    tr_access_token tr = sign E A (u_user_id u) tid role (as_ttl A) ''access'' (dr_jti d) n \<and>
    tr_refresh_token tr = sign E A (u_user_id u) tid role (as_refresh_ttl A) ''refresh'' (dr_rjti d) n \<and>
    (\<exists>r. get_refresh_token (dr_rjti d) s' = Some r \<and> rt_status r = ''active'' \<and>
         rt_user_id r = u_user_id u \<and> rt_tenant_id r = tid) \<and>
    (\<exists>v. get_user (u_user_id u) s' = Some v \<and> u_failed_attempts v = 0)"
proof -
  obtain u tid role v s1 where u: "login_admitted E A req sk u n s"
    "fst (check_password E u (lr_password req))" "\<not> tenant_blocked (get_tenant_status tid s)"
    "get_member_role tid (u_user_id u) s = Some role" "mfa_passed E A req u role n s"
    "(tr, s') = issue_login_pair E A u tid role (lr_username req) ''auth.login'' d n s1"
    "get_user (u_user_id u) s' = Some v" "u_failed_attempts v = 0"
    by (rule login_success [OF assms])
  then show ?thesis
    using issue_login_pair_tokens [OF u(6)]
    by (intro exI [of _ u] exI [of _ tid] exI [of _ role]) simp
qed

section \<open>A login token is accepted\<close>

text \<open>The key that verifies what the ring signs is found under the key id in the header.\<close>

definition ring_pairs :: "(string \<Rightarrow> string \<Rightarrow> string \<Rightarrow> bool) \<Rightarrow> key_ring \<Rightarrow> bool" where
  "ring_pairs pair r \<longleftrightarrow>
    (\<exists>vk. verify_key_for (header_kid (ring_kid r) (kr_algorithm r)) r = Inr vk \<and>
          pair (kr_algorithm r) (signing_key r) vk) \<and> kr_algorithm r \<noteq> ''none''"

lemma sign_verifies:
  assumes "jwt_roundtrip (env_jwt E) pair" "ring_pairs pair (as_key_ring A)"
    "0 \<le> n" "n \<le> n2" "n2 < of_int (py_int n + ttl)"
  shows "auth_verify E A (sign E A sub tid role ttl ty jti n) (Some ty) n2 =
    Inr (token_claims sub tid role (role_scopes role) (as_issuer A) (as_audience A) ttl ty jti n)"
proof -
  let ?c = "token_claims sub tid role (role_scopes role) (as_issuer A) (as_audience A) ttl ty jti n"
  let ?r = "as_key_ring A"
  let ?kid = "header_kid (ring_kid ?r) (kr_algorithm ?r)"
  let ?t = "jw_encode (env_jwt E) ?c (signing_key ?r) (kr_algorithm ?r) ?kid"
  obtain vk where vk: "verify_key_for ?kid ?r = Inr vk" "pair (kr_algorithm ?r) (signing_key ?r) vk"
    using assms(2) by (auto simp: ring_pairs_def)
  have t: "sign E A sub tid role ttl ty jti n = ?t" by (simp add: sign_def issue_token_def)
  have h: "jw_header (env_jwt E) ?t = Some \<lparr>jh_alg = Some (kr_algorithm ?r), jh_kid = ?kid\<rparr>"
    by (rule jwt_roundtripD(1) [OF assms(1)])
  have now: "of_int (py_int n) \<le> n2" using py_int_le [OF assms(3)] assms(4) by linarith
  have "jw_decode (env_jwt E) ?t vk [kr_algorithm ?r] (cl_iss ?c) (cl_aud ?c) n2 = Some ?c"
    by (rule jwt_roundtripD(2) [OF assms(1) vk(2)]) (use now assms(5) in \<open>simp_all add: token_claims_def\<close>)
  then have "verify_token (env_jwt E) ?t vk (as_issuer A) (as_audience A) (Some ty) [kr_algorithm ?r] n2 = Inr ?c"
    using h assms(2) by (intro verify_token_intro) (auto simp: token_claims_def ring_pairs_def)
  with vk(1) h show ?thesis by (simp add: auth_verify_def t)
qed

lemma sign_verifies_only:
  assumes "jwt_roundtrip (env_jwt E) pair" "jwt_checks (env_jwt E)"
    "auth_verify E A (sign E A sub tid role ttl ty jti n) tt n2 = Inr c"
  shows "c = token_claims sub tid role (role_scopes role) (as_issuer A) (as_audience A) ttl ty jti n"
    "n2 < of_int (py_int n + ttl)"
proof -
  obtain key where v: "verify_token (env_jwt E) (sign E A sub tid role ttl ty jti n) key (as_issuer A)
      (as_audience A) tt [kr_algorithm (as_key_ring A)] n2 = Inr c"
    using assms(3) by (auto simp: auth_verify_def Let_def split: sum.splits)
  show c: "c = token_claims sub tid role (role_scopes role) (as_issuer A) (as_audience A) ttl ty jti n"
    using verify_token_ok(1) [OF v] unfolding sign_def issue_token_def fst_conv by (rule jwt_roundtripD(3) [OF assms(1)])
  show "n2 < of_int (py_int n + ttl)"
    using auth_verify_decoded(1) [OF assms(2,3)] by (simp add: c token_claims_def)
qed

lemma member_role_view:
  "reachable K fr s \<Longrightarrow> get_member_role t u s = Some r \<Longrightarrow> \<exists>v. get_role t r s = Some v"
  using reachable_invD(3) get_role_valid unfolding member_roles_ok_def get_member_role_def by fastforce

lemma verify_accepts:
  assumes "live E s" "auth_verify E A tok (Some ''access'') n = Inr c" "\<not> fst (is_jti_revoked (cl_jti c) n s)"
    "\<not> tenant_blocked (get_tenant_status (cl_tid c) s)" "\<not> user_blocked (get_user_status (cl_sub c) s)"
    "get_member_role (cl_tid c) (cl_sub c) s = Some r"
  shows "\<exists>vr s'. verify E A tok n s = (Inr vr, s') \<and> vr_tid vr = cl_tid c \<and> vr_role vr = r"
proof -
  note a = authorizeI [OF assms(3-6)]
  obtain v where "get_role (cl_tid c) r s = Some v" using member_role_view [OF assms(1,6)] by blast
  then show ?thesis by (simp add: verify_def assms(2) a)
qed

lemma login_then_verify:
  assumes "live E s" "jwt_roundtrip (env_jwt E) pair" "ring_pairs pair (as_key_ring A)"
    "login E A req sk d n s = (Inr tr, s')" "\<not> tr_mfa_required tr"
    "dget (revoked_jtis s) (dr_jti d) = None" "0 \<le> n" "n \<le> n2" "n2 < of_int (py_int n + as_ttl A)"
  shows "\<exists>vr s'' u. verify E A (tr_access_token tr) n2 s' = (Inr vr, s'') \<and>
    get_user_by_username (lr_username req) s = Some u \<and>
    get_member_role (vr_tid vr) (u_user_id u) s = Some (vr_role vr)"
proof -
  obtain u tid role v s1 where u: "login_admitted E A req sk u n s"
    "\<not> tenant_blocked (get_tenant_status tid s)" "get_member_role tid (u_user_id u) s = Some role"
    "(tr, s') = issue_login_pair E A u tid role (lr_username req) ''auth.login'' d n s1"
    "tenants s' = tenants s" "members s' = members s" "revoked_jtis s' = revoked_jtis s"
    "get_user (u_user_id u) s' = Some v" "u_status v = u_status u"
    by (rule login_success [OF assms(1,4,5)])
  let ?c = "token_claims (u_user_id u) tid role (role_scopes role) (as_issuer A) (as_audience A) (as_ttl A)
    ''access'' (dr_jti d) n"
  have l: "live E s'" using live_login [OF assms(1), of A req sk d n] assms(4) by simp
  have tok: "auth_verify E A (tr_access_token tr) (Some ''access'') n2 = Inr ?c"
    unfolding issue_login_pair_tokens(1) [OF u(4)] by (rule sign_verifies [OF assms(2,3,7-9)])
  have rev: "\<not> fst (is_jti_revoked (cl_jti ?c) n2 s')"
    using reachable_invD(1) [OF l] assms(6) u(7)
    by (simp add: is_jti_revoked_iff dicts_wf_def token_claims_def)
  have usr: "\<not> user_blocked (get_user_status (cl_sub ?c) s')"
    using u(1,8,9) by (simp add: user_blocked_def get_user_status_def get_user_def token_claims_def login_admitted_def)
  have mem: "get_member_role (cl_tid ?c) (cl_sub ?c) s' = Some role"
    "\<not> tenant_blocked (get_tenant_status (cl_tid ?c) s')"
    using u(2,3,5,6) by (simp_all add: get_member_role_def get_tenant_status_def token_claims_def)
  obtain vr s'' where "verify E A (tr_access_token tr) n2 s' = (Inr vr, s'')" "vr_tid vr = cl_tid ?c"
    "vr_role vr = role"
    using verify_accepts [OF l tok rev mem(2) usr mem(1)] by blast
  then show ?thesis using u(1,3) by (auto simp: login_admitted_def token_claims_def)
qed

text \<open>
  C9 (roundtrip). The access token of a successful login is accepted by \<open>verify\<close> at any time
  before it expires, with the tenant and the role of the membership: the two components
  agree on keys, claims, ledger and tables. What PyJWT decodes is what it encoded.
\<close>

theorem login_token_verifies:
  assumes "live E s" "jwt_roundtrip (env_jwt E) pair" "ring_pairs pair (as_key_ring A)"
    "login E A req sk d n s = (Inr tr, s')" "\<not> tr_mfa_required tr"
    "dget (revoked_jtis s) (dr_jti d) = None" "0 \<le> n" "n \<le> n2" "n2 < of_int (py_int n + as_ttl A)"
  shows "\<exists>vr s'' u. verify E A (tr_access_token tr) n2 s' = (Inr vr, s'') \<and>
    get_user_by_username (lr_username req) s = Some u \<and>
    get_member_role (vr_tid vr) (u_user_id u) s = Some (vr_role vr)"
  using assms by (rule login_then_verify)

section \<open>The first login\<close>

text \<open>The store a bootstrap without extra tenants leaves.\<close>

lemma bootstrap_store:
  assumes "tenants s = []" "dget (users s) ''usr_admin'' = None" "nm \<noteq> []" "pw \<noteq> []"
  obtains s1 t u m where "bootstrap E (Some nm) (Some pw) None salt n s = (Inr (), s1)"
    "tenants s1 = [(''default'', t)]" "t_status t = ''active''"
    "users s1 = users s @ [(''usr_admin'', u)]" "u_user_id u = ''usr_admin''" "u_username u = nm"
    "u_status u = ''active''" "u_locked_until u = None" "u_email_verified u" "u_failed_attempts u = 0"
    "u_password_algo u = ''argon2id''" "u_password_hash_v u = argon2_hash (env_kdf E) pw salt"
    "dget (members s1) (''default'', ''usr_admin'') = Some m" "m_role m = ''tenant_admin''" "mfa s1 = mfa s"
proof -
  have app: "dset k v d = d @ [(k, v)]" if "dget d k = None" for k and v :: user_rec and d
    using that by (induction d) (auto split: if_splits)
  let ?t = "\<lparr>t_tenant_id = ''default'', t_display_name = ''Default Tenant'', t_status = ''active'',
    t_plan = ''team'', t_join_policy = ''invite'', t_created_at = n, t_disabled_at = None, t_deleted_at = None\<rparr>"
  let ?u = "\<lparr>u_user_id = ''usr_admin'', u_username = nm, u_email = None, u_display_name = None,
    u_password_hash = [], u_password_hash_v = argon2_hash (env_kdf E) pw salt, u_salt = salt,
    u_password_algo = ''argon2id'', u_status = ''active'', u_failed_attempts = 0, u_locked_until = None,
    u_must_change_password = False, u_last_login_at = None, u_email_verified = True,
    u_email_verify_token_hash = None, u_email_verify_expires = None,
    u_password_reset_token_hash = None, u_password_reset_expires = None, u_created_at = n\<rparr>"
  let ?m = "\<lparr>m_tenant_id = ''default'', m_user_id = ''usr_admin'', m_role = ''tenant_admin'', m_added_by = None,
    m_added_at = n, m_joined_at = n\<rparr>"
  let ?s1 = "s\<lparr>tenants := [(''default'', ?t)],
    quotas := dset ''default'' \<lparr>q_tenant_id = ''default'', q_updated_at = n, q_body = DEFAULT_QUOTA\<rparr> (quotas s),
    users := users s @ [(''usr_admin'', ?u)], members := dset (''default'', ''usr_admin'') ?m (members s)\<rparr>"
  have "bootstrap E (Some nm) (Some pw) None salt n s = (Inr (), ?s1)"
    using assms by (simp add: bootstrap_def is_empty_tenants_def create_tenant_def JOIN_POLICIES_def
      create_user_def hash_password_def add_member_def is_valid_role_def builtin_role_iff Let_def app)
  then show thesis by (rule that [where t = ?t and u = ?u and m = ?m]) (simp_all add: dget_dset)
qed

lemma find_append:
  "List.find P (xs @ ys) = (case List.find P xs of None \<Rightarrow> List.find P ys | Some x \<Rightarrow> Some x)"
  by (induction xs) auto

lemma check_password_created:
  assumes "argon2_sound (env_kdf E)" "u_password_algo u = ''argon2id''"
    "u_password_hash_v u = argon2_hash (env_kdf E) pw salt"
  shows "fst (check_password E u guess) \<longleftrightarrow> guess = pw"
  using assms by (simp add: check_password_def verify_password_def argon2_sound_def)

lemma bootstrap_login:
  assumes "argon2_sound (env_kdf E)" "tenants s = []" "dget (users s) ''usr_admin'' = None"
    "get_user_by_username nm s = None" "get_mfa ''usr_admin'' ''totp'' s = None" "nm \<noteq> []" "pw \<noteq> []"
    and req: "lr_username req = nm" "lr_password req = pw" "lr_tenant_id req = Some ''default''"
  shows "\<exists>s1. bootstrap E (Some nm) (Some pw) None salt n s = (Inr (), s1) \<and>
    (if as_mfa_enforce_admin A
     then fst (login E A req sk d n2 s1) = Inl (unauthorized ''mfa enrollment required for admin'')
     else \<exists>tr s2. login E A req sk d n2 s1 = (Inr tr, s2) \<and> \<not> tr_mfa_required tr)"
proof -
  obtain s1 t u m where b: "bootstrap E (Some nm) (Some pw) None salt n s = (Inr (), s1)"
    "tenants s1 = [(''default'', t)]" "t_status t = ''active''"
    "users s1 = users s @ [(''usr_admin'', u)]" "u_user_id u = ''usr_admin''" "u_username u = nm"
    "u_status u = ''active''" "u_locked_until u = None" "u_email_verified u"
    "u_password_algo u = ''argon2id''" "u_password_hash_v u = argon2_hash (env_kdf E) pw salt"
    "dget (members s1) (''default'', ''usr_admin'') = Some m" "m_role m = ''tenant_admin''" "mfa s1 = mfa s"
    by (rule bootstrap_store [OF assms(2,3,6,7)])
  have find: "get_user_by_username nm s1 = Some u"
    using assms(4) by (simp add: get_user_by_username_def b find_append)
  have adm: "login_admitted E A req sk u n2 s1"
    using find b(2,3,7-9) by (simp add: login_admitted_def req is_locked_def get_tenant_status_def)
  have pw: "fst (check_password E u (lr_password req))"
    by (simp add: check_password_created [OF assms(1) b(10,11)] req)
  have mem: "get_member_role ''default'' (u_user_id u) (login_store E req u d s1) = Some ''tenant_admin''"
    "get_mfa (u_user_id u) ''totp'' (login_store E req u d s1) = None"
    using assms(5) by (simp_all add: get_member_role_def get_mfa_def b)
  have "login E A req sk d n2 s1 = login_member E A req u ''default'' d n2 (login_store E req u d s1)"
    using pw by (simp add: login_admitted_eq [OF adm] login_tenant_def req)
  with mem b(1) show ?thesis
    by (auto simp: login_member_def Let_def case_prod_beta issue_login_pair_def)
qed

text \<open>
  C34 (liveness). After a bootstrap the administrator it created can log in with the
  configured password at once. Not so where administrators must have a second factor: the
  login is refused until a factor is enrolled, and enrolling needs a login.
\<close>

theorem bootstrap_first_login:
  assumes "argon2_sound (env_kdf E)" "tenants s = []" "dget (users s) ''usr_admin'' = None"
    "get_user_by_username nm s = None" "get_mfa ''usr_admin'' ''totp'' s = None" "nm \<noteq> []" "pw \<noteq> []"
    "lr_username req = nm" "lr_password req = pw" "lr_tenant_id req = Some ''default''"
  shows "\<exists>s1. bootstrap E (Some nm) (Some pw) None salt n s = (Inr (), s1) \<and>
    (if as_mfa_enforce_admin A
     then fst (login E A req sk d n2 s1) = Inl (unauthorized ''mfa enrollment required for admin'')
     else \<exists>tr s2. login E A req sk d n2 s1 = (Inr tr, s2) \<and> \<not> tr_mfa_required tr)"
  using assms by (rule bootstrap_login)

section \<open>Instances\<close>

definition demo_env :: auth_env where
  "demo_env = \<lparr>env_kdf = demo_kdf, env_fr = demo_fr, env_jwt = demo_jwt, env_aead = demo_aead,
     env_totp = (\<lambda>raw code t. code = raw), env_totp_uri = (\<lambda>raw nm iss. raw)\<rparr>"

definition demo_service :: auth_service where
  "demo_service = AuthService ''key'' ''iss'' ''aud'' 900 3600 None None None False False 60"

definition demo_draws :: draws where
  "demo_draws = \<lparr>dr_jti = ''j1'', dr_rjti = ''r1'', dr_family = ''f1'', dr_salt = ''s''\<rparr>"

definition demo_request :: login_request where
  "demo_request = \<lparr>lr_username = ''root'', lr_password = ''pw'', lr_tenant_id = Some ''default'',
     lr_mfa_code = None\<rparr>"

definition demo_boot :: store where
  "demo_boot = snd (bootstrap demo_env (Some ''root'') (Some ''pw'') None ''s'' 1 empty_store)"

lemma demo_kdf_sound: "argon2_sound demo_kdf"
  by (simp add: argon2_sound_def demo_kdf_def)

lemma demo_env_simps [simp]:
  "env_kdf demo_env = demo_kdf" "env_fr demo_env = demo_fr" "env_jwt demo_env = demo_jwt"
  "env_aead demo_env = demo_aead"
  by (simp_all add: demo_env_def)

lemma demo_boot_live: "live demo_env demo_boot"
  unfolding demo_boot_def by (rule live_bootstrap) (rule reachable.init)

lemma demo_empty:
  "tenants empty_store = []" "dget (users empty_store) u = None" "get_user_by_username nm empty_store = None"
  "get_mfa u m empty_store = None" "revoked_jtis empty_store = []"
  by (simp_all add: empty_store_def get_user_by_username_def get_mfa_def)

lemma demo_login:
  obtains tr s' where "login demo_env demo_service demo_request False demo_draws 10 demo_boot = (Inr tr, s')"
    "\<not> tr_mfa_required tr"
proof -
  have s: "argon2_sound (env_kdf demo_env)" using demo_kdf_sound by simp
  have "\<exists>s1. bootstrap demo_env (Some ''root'') (Some ''pw'') None ''s'' 1 empty_store = (Inr (), s1) \<and>
    (if as_mfa_enforce_admin demo_service
     then fst (login demo_env demo_service demo_request False demo_draws 10 s1) =
       Inl (unauthorized ''mfa enrollment required for admin'')
     else \<exists>tr s2. login demo_env demo_service demo_request False demo_draws 10 s1 = (Inr tr, s2) \<and>
       \<not> tr_mfa_required tr)"
    by (rule bootstrap_login [OF s]) (simp_all add: demo_empty demo_request_def)
  then show thesis using that by (auto simp: demo_boot_def demo_service_def AuthService_def)
qed

lemma demo_ring: "ring_pairs (\<lambda>alg key vkey. key = vkey) (as_key_ring demo_service)"
  by (simp add: ring_pairs_def demo_service_def AuthService_def hs256_def verify_key_for_def signing_key_def)

theorem login_passes_every_gate_witness:
  "\<exists>tr s' u. login demo_env demo_service demo_request False demo_draws 10 demo_boot = (Inr tr, s') \<and>
    login_admitted demo_env demo_service demo_request False u 10 demo_boot"
proof -
  obtain tr s' where l: "login demo_env demo_service demo_request False demo_draws 10 demo_boot = (Inr tr, s')"
    "\<not> tr_mfa_required tr" by (rule demo_login)
  from login_passes_every_gate [OF demo_boot_live l] l(1) show ?thesis by blast
qed

lemma demo_boot_revoked: "revoked_jtis demo_boot = []"
  by (simp add: demo_boot_def bootstrap_def is_empty_tenants_def create_tenant_def JOIN_POLICIES_def
      create_user_def hash_password_def add_member_def is_valid_role_def builtin_role_iff Let_def demo_empty)

lemma demo_token_verifies:
  assumes "login demo_env demo_service demo_request False demo_draws 10 demo_boot = (Inr tr, s')"
    "\<not> tr_mfa_required tr"
  shows "\<exists>vr s'' u. verify demo_env demo_service (tr_access_token tr) 500 s' = (Inr vr, s'') \<and>
    get_user_by_username (lr_username demo_request) demo_boot = Some u \<and>
    get_member_role (vr_tid vr) (u_user_id u) demo_boot = Some (vr_role vr)"
  by (rule login_then_verify [OF demo_boot_live _ demo_ring assms])
    (simp_all add: demo_jwt_roundtrip demo_boot_revoked demo_service_def AuthService_def py_int_def)

theorem login_token_verifies_witness:
  "\<exists>tr s' vr s''. login demo_env demo_service demo_request False demo_draws 10 demo_boot = (Inr tr, s') \<and>
    verify demo_env demo_service (tr_access_token tr) 500 s' = (Inr vr, s'')"
proof -
  obtain tr s' where l: "login demo_env demo_service demo_request False demo_draws 10 demo_boot = (Inr tr, s')"
    "\<not> tr_mfa_required tr" by (rule demo_login)
  have "\<exists>vr s'' u. verify demo_env demo_service (tr_access_token tr) 500 s' = (Inr vr, s'') \<and>
    get_user_by_username (lr_username demo_request) demo_boot = Some u \<and>
    get_member_role (vr_tid vr) (u_user_id u) demo_boot = Some (vr_role vr)"
    by (rule login_token_verifies [OF demo_boot_live _ demo_ring l])
      (simp_all add: demo_jwt_roundtrip demo_boot_revoked demo_service_def AuthService_def py_int_def)
  with l(1) show ?thesis by blast
qed

theorem bootstrap_first_login_witness:
  "\<exists>s1 tr s2. bootstrap demo_env (Some ''root'') (Some ''pw'') None ''s'' 1 empty_store = (Inr (), s1) \<and>
    login demo_env demo_service demo_request False demo_draws 10 s1 = (Inr tr, s2)"
proof -
  have s: "argon2_sound (env_kdf demo_env)" using demo_kdf_sound by simp
  have "\<exists>s1. bootstrap demo_env (Some ''root'') (Some ''pw'') None ''s'' 1 empty_store = (Inr (), s1) \<and>
    (if as_mfa_enforce_admin demo_service
     then fst (login demo_env demo_service demo_request False demo_draws 10 s1) =
       Inl (unauthorized ''mfa enrollment required for admin'')
     else \<exists>tr s2. login demo_env demo_service demo_request False demo_draws 10 s1 = (Inr tr, s2) \<and>
       \<not> tr_mfa_required tr)"
    by (rule bootstrap_first_login [OF s]) (simp_all add: demo_empty demo_request_def)
  then show ?thesis by (auto simp: demo_service_def AuthService_def)
qed

end
