(* ===== verification/Token_Properties.thy ===== *)
theory Token_Properties
  imports Login_Properties
begin

text \<open>
  Properties of tokens after they were issued: verification fails closed, refresh tokens
  rotate and are revoked by family, logout and revocation, user deletion, SSO tickets.
\<close>

section \<open>Verification\<close>

text \<open>
  C2 (safety). \<open>verify\<close> fails closed: an answer is given only for a decoded, unexpired access
  token of this issuer and audience whose id is not revoked, whose tenant and user exist and
  are not disabled, deleted or locked, and whose user is still a member; the role in the
  answer is the one in the database, whatever the token says, and its write classes and
  menus are those of that role.
\<close>

theorem verify_fails_closed:
  assumes "jwt_checks (env_jwt E)" "verify E A tok n s = (Inr vr, s')"
  shows "\<exists>c v. auth_verify E A tok (Some ''access'') n = Inr c \<and> n < of_int (cl_exp c) \<and>
    cl_iss c = as_issuer A \<and> cl_aud c = as_audience A \<and> cl_type c = Some ''access'' \<and>
    \<not> fst (is_jti_revoked (cl_jti c) n s) \<and> vr_tid vr = cl_tid c \<and>
    get_tenant_status (cl_tid c) s \<notin> {None, Some ''disabled'', Some ''deleted''} \<and>
    get_user_status (cl_sub c) s \<notin> {None, Some ''disabled'', Some ''locked''} \<and>
    get_member_role (cl_tid c) (cl_sub c) s = Some (vr_role vr) \<and>
    get_role (cl_tid c) (vr_role vr) s = Some v \<and>
    vr_write_classes vr = rv_write_classes v \<and> vr_allowed_menus vr = rv_menus v"
proof -
  obtain c r c' where v: "auth_verify E A tok (Some ''access'') n = Inr c"
    "authorize c n s = (Inr (r, c'), s')" "vr_tid vr = cl_tid c" "vr_role vr = r"
    "\<exists>v. get_role (cl_tid c) r s' = Some v \<and> vr_write_classes vr = rv_write_classes v \<and>
      vr_allowed_menus vr = rv_menus v"
    by (rule verifyE [OF assms(2)])
  note a = authorize_ok [OF v(2)]
  note d = auth_verify_decoded [OF assms(1) v(1)]
  from v(5) obtain w where w: "get_role (cl_tid c) r s = Some w" "vr_write_classes vr = rv_write_classes w"
    "vr_allowed_menus vr = rv_menus w" unfolding a(1) by auto
  show ?thesis
    using v(1,3,4) d a(2-5) w unfolding tenant_blocked_def user_blocked_def
    by (intro exI [of _ c] exI [of _ w]) simp
qed

theorem verify_fails_closed_witness:
  "\<exists>tr s1 vr s2 c. login demo_env demo_service demo_request False demo_draws 10 demo_boot = (Inr tr, s1) \<and>
    verify demo_env demo_service (tr_access_token tr) 500 s1 = (Inr vr, s2) \<and>
    auth_verify demo_env demo_service (tr_access_token tr) (Some ''access'') 500 = Inr c \<and>
    get_member_role (cl_tid c) (cl_sub c) s1 = Some (vr_role vr)"
proof -
  obtain tr s1 where l: "login demo_env demo_service demo_request False demo_draws 10 demo_boot = (Inr tr, s1)"
    "\<not> tr_mfa_required tr" by (rule demo_login)
  obtain vr s2 where v: "verify demo_env demo_service (tr_access_token tr) 500 s1 = (Inr vr, s2)"
    using demo_token_verifies [OF l] by blast
  have "jwt_checks (env_jwt demo_env)" using demo_jwt_checks by simp
  from verify_fails_closed [OF this v] l v show ?thesis by blast
qed

section \<open>Refresh\<close>

lemma refresh_commit_ok:
  assumes "refresh_commit E A c role f d n s = (Inr tr, s')"
  shows "get_refresh_token (cl_jti c) s \<noteq> None"
    "dr_rjti d \<noteq> cl_jti c \<Longrightarrow> \<exists>r. get_refresh_token (cl_jti c) s' = Some r \<and> rt_status r = ''rotated'' \<and>
       (\<forall>r0. get_refresh_token (cl_jti c) s = Some r0 \<longrightarrow> rt_family_id r = rt_family_id r0)"
    "\<exists>r. get_refresh_token (dr_rjti d) s' = Some r \<and> rt_status r = ''active'' \<and> rt_family_id r = f"
proof -
  let ?p = "rotate_refresh_token (cl_jti c) (dr_rjti d) s"
  have ok: "fst ?p"
    using assms by (simp add: refresh_commit_def refuse_reuse_def Let_def case_prod_beta split: if_splits)
  then obtain r0 where r0: "dget (refresh_tokens s) (cl_jti c) = Some r0" "rt_status r0 = ''active''"
    by (simp add: rotate_refresh_token_def split: option.splits if_splits)
  then show "get_refresh_token (cl_jti c) s \<noteq> None" by (simp add: get_refresh_token_def)
  have s': "refresh_tokens s' = refresh_tokens (snd (insert_refresh_token (dr_rjti d) f (cl_tid c) (cl_sub c)
      (n + of_int (as_refresh_ttl A)) None ''active'' n
      (record_issued_jti (dr_jti d) (cl_tid c) (cl_sub c) n (snd ?p))))"
    using assms ok by (auto simp: refresh_commit_def Let_def case_prod_beta)
  show "\<exists>r. get_refresh_token (dr_rjti d) s' = Some r \<and> rt_status r = ''active'' \<and> rt_family_id r = f"
    by (simp add: get_refresh_token_def s' get_refresh_insert)
  show "\<exists>r. get_refresh_token (cl_jti c) s' = Some r \<and> rt_status r = ''rotated'' \<and>
       (\<forall>r0. get_refresh_token (cl_jti c) s = Some r0 \<longrightarrow> rt_family_id r = rt_family_id r0)"
    if "dr_rjti d \<noteq> cl_jti c"
    using that r0 by (simp add: get_refresh_token_def s' get_refresh_insert rotate_refresh_token_def dget_dset)
qed

lemma refreshE:
  assumes "refresh E A tok d n s = (Inr tr, s')"
  obtains c rt role where "auth_verify E A tok (Some ''refresh'') n = Inr c"
    "get_refresh_token (cl_jti c) s = Some rt" "rt_status rt \<noteq> ''revoked''" "rt_status rt \<noteq> ''rotated''"
    "\<not> tenant_blocked (get_tenant_status (cl_tid c) s)" "\<not> user_blocked (get_user_status (cl_sub c) s)"
    "get_member_role (cl_tid c) (cl_sub c) s = Some role"
    "refresh_commit E A c role (rt_family_id rt) d n s = (Inr tr, s')"
proof -
  obtain c where c: "auth_verify E A tok (Some ''refresh'') n = Inr c"
    using assms by (auto simp: refresh_def split: sum.splits)
  obtain rt where rt: "get_refresh_token (cl_jti c) s = Some rt"
    using assms by (auto simp: refresh_def c split: option.splits)
  have g: "rt_status rt \<noteq> ''revoked''" "rt_status rt \<noteq> ''rotated''"
    "\<not> tenant_blocked (get_tenant_status (cl_tid c) s)" "\<not> user_blocked (get_user_status (cl_sub c) s)"
    using assms by (simp_all add: refresh_def c rt refuse_reuse_def split: if_splits)
  obtain role where r: "get_member_role (cl_tid c) (cl_sub c) s = Some role"
    using assms g by (cases "get_member_role (cl_tid c) (cl_sub c) s") (simp_all add: refresh_def c rt)
  from assms g have "refresh_commit E A c role (rt_family_id rt) d n s = (Inr tr, s')"
    by (simp add: refresh_def c rt r)
  then show thesis by (rule that [OF c rt g r])
qed

lemma refuse_reuse_family:
  assumes "get_refresh_token j (snd (refuse_reuse E c f de n s)) = Some r" "rt_family_id r = f"
  shows "rt_status r = ''revoked''"
  by (rule revoke_where_revoked [of "\<lambda>r. rt_family_id r = f" s j])
    (use assms in \<open>simp_all add: get_refresh_token_def refuse_reuse_def revoke_refresh_family_def\<close>)

text \<open>
  C6 (safety). A refresh token works once, and using it again gives the session away: the
  second use is refused and revokes the whole family, the token the first use returned
  included, so that redeeming any of them is refused from then on.
\<close>

theorem reused_refresh_revokes_family:
  assumes "refresh E A tok d n s = (Inr tr, s1)" "auth_verify E A tok (Some ''refresh'') n = Inr c"
    "dr_rjti d \<noteq> cl_jti c" "auth_verify E A tok (Some ''refresh'') n2 = Inr c"
    "refresh E A tok d2 n2 s1 = (res, s2)"
  shows "res = Inl (unauthorized ''refresh token reuse detected'') \<and>
    (\<exists>f r. get_refresh_token (dr_rjti d) s2 = Some r \<and> rt_family_id r = f \<and>
       (\<forall>j r'. get_refresh_token j s2 = Some r' \<and> rt_family_id r' = f \<longrightarrow> rt_status r' = ''revoked'') \<and>
       (\<forall>tok' c' n' d'. auth_verify E A tok' (Some ''refresh'') n' = Inr c' \<and> cl_jti c' = dr_rjti d \<longrightarrow>
          refresh E A tok' d' n' s2 = raise (unauthorized ''revoked refresh token'') s2))"
proof -
  obtain rt role where rt: "get_refresh_token (cl_jti c) s = Some rt"
    "refresh_commit E A c role (rt_family_id rt) d n s = (Inr tr, s1)"
    using refreshE [OF assms(1)] assms(2) by (metis sum.inject(2))
  let ?f = "rt_family_id rt"
  obtain r1 where r1: "get_refresh_token (cl_jti c) s1 = Some r1" "rt_status r1 = ''rotated''" "rt_family_id r1 = ?f"
    using refresh_commit_ok(2) [OF rt(2) assms(3)] rt(1) by blast
  obtain r2 where r2: "get_refresh_token (dr_rjti d) s1 = Some r2" "rt_family_id r2 = ?f"
    using refresh_commit_ok(3) [OF rt(2)] by blast
  have eq: "refresh E A tok d2 n2 s1 = refuse_reuse E c ?f (JObj [(''family_id'', JStr ?f)]) n2 s1"
    using r1 by (simp add: refresh_def assms(4))
  then have res: "res = Inl (unauthorized ''refresh token reuse detected'')"
    and s2: "s2 = snd (refuse_reuse E c ?f (JObj [(''family_id'', JStr ?f)]) n2 s1)"
    using assms(5) by (auto simp: refuse_reuse_def)
  have fam: "rt_status r' = ''revoked''" if "get_refresh_token j s2 = Some r'" "rt_family_id r' = ?f" for j r'
    using that unfolding s2 by (rule refuse_reuse_family)
  have new: "get_refresh_token (dr_rjti d) s2 = Some (r2\<lparr>rt_status := ''revoked''\<rparr>)"
    using r2 by (simp add: s2 refuse_reuse_def get_refresh_token_def revoke_refresh_family_def revoke_where_status)
  have "refresh E A tok' d' n' s2 = raise (unauthorized ''revoked refresh token'') s2"
    if "auth_verify E A tok' (Some ''refresh'') n' = Inr c'" "cl_jti c' = dr_rjti d" for tok' c' n' d'
    using that new by (simp add: refresh_def)
  with res fam new r2(2) show ?thesis by (intro conjI exI [of _ ?f] exI [of _ "r2\<lparr>rt_status := ''revoked''\<rparr>"]) auto
qed

text \<open>A login can be refreshed.\<close>

lemma login_then_refresh:
  assumes "live E s" "jwt_roundtrip (env_jwt E) pair" "ring_pairs pair (as_key_ring A)"
    "login E A req sk d n s = (Inr tr, s')" "\<not> tr_mfa_required tr"
    "0 \<le> n" "n \<le> n2" "n2 < of_int (py_int n + as_refresh_ttl A)"
  shows "\<exists>c tr2 s2. auth_verify E A (tr_refresh_token tr) (Some ''refresh'') n2 = Inr c \<and>
    cl_jti c = dr_rjti d \<and> refresh E A (tr_refresh_token tr) d2 n2 s' = (Inr tr2, s2)"
proof -
  obtain u tid role v s1 where u: "login_admitted E A req sk u n s"
    "\<not> tenant_blocked (get_tenant_status tid s)" "get_member_role tid (u_user_id u) s = Some role"
    "(tr, s') = issue_login_pair E A u tid role (lr_username req) ''auth.login'' d n s1"
    "tenants s' = tenants s" "members s' = members s"
    "get_user (u_user_id u) s' = Some v" "u_status v = u_status u"
    by (rule login_success [OF assms(1,4,5)])
  let ?c = "token_claims (u_user_id u) tid role (role_scopes role) (as_issuer A) (as_audience A) (as_refresh_ttl A)
    ''refresh'' (dr_rjti d) n"
  note tk = issue_login_pair_tokens [OF u(4)]
  have tok: "auth_verify E A (tr_refresh_token tr) (Some ''refresh'') n2 = Inr ?c"
    unfolding tk(2) by (rule sign_verifies [OF assms(2,3,6-8)])
  have cl: "cl_jti ?c = dr_rjti d" "cl_tid ?c = tid" "cl_sub ?c = u_user_id u" by (simp_all add: token_claims_def)
  have usr: "\<not> user_blocked (get_user_status (u_user_id u) s')"
    using u(1,7,8) by (simp add: user_blocked_def get_user_status_def get_user_def login_admitted_def)
  have mem: "get_member_role tid (u_user_id u) s' = Some role" "\<not> tenant_blocked (get_tenant_status tid s')"
    using u(2,3,5,6) by (simp_all add: get_member_role_def get_tenant_status_def)
  have "refresh E A (tr_refresh_token tr) d2 n2 s' = refresh_commit E A ?c role (dr_family d) d2 n2 s'"
    using tk(3) usr mem by (simp add: refresh_def tok cl)
  moreover have "\<exists>tr2 s2. refresh_commit E A ?c role (dr_family d) d2 n2 s' = (Inr tr2, s2)"
    using tk(3) by (simp add: refresh_commit_def rotate_refresh_token_def Let_def case_prod_beta cl get_refresh_token_def)
  ultimately show ?thesis using tok cl(1) by auto
qed

lemma demo_refresh:
  assumes "login demo_env demo_service demo_request False demo_draws 10 demo_boot = (Inr tr, s')"
    "\<not> tr_mfa_required tr" "10 \<le> n2" "n2 < 3610"
  shows "\<exists>c tr2 s2. auth_verify demo_env demo_service (tr_refresh_token tr) (Some ''refresh'') n2 = Inr c \<and>
    cl_jti c = dr_rjti demo_draws \<and> refresh demo_env demo_service (tr_refresh_token tr) d2 n2 s' = (Inr tr2, s2)"
  by (rule login_then_refresh [OF demo_boot_live _ demo_ring assms(1,2)])
    (use assms(3,4) in \<open>simp_all add: demo_jwt_roundtrip demo_service_def AuthService_def py_int_def\<close>)

lemma sign_verifies_once:
  assumes "jwt_roundtrip (env_jwt E) pair" "ring_pairs pair (as_key_ring A)" "login E A req sk d n s = (Inr tr, s')"
    "\<not> tr_mfa_required tr" "live E s" "0 \<le> n" "n \<le> n1" "n1 \<le> n2" "n2 < of_int (py_int n + as_refresh_ttl A)"
  shows "auth_verify E A (tr_refresh_token tr) (Some ''refresh'') n1 =
    auth_verify E A (tr_refresh_token tr) (Some ''refresh'') n2"
proof -
  obtain u tid role v s1 where
    u: "(tr, s') = issue_login_pair E A u tid role (lr_username req) ''auth.login'' d n s1"
    by (rule login_success [OF assms(5,3,4)])
  have "auth_verify E A (tr_refresh_token tr) (Some ''refresh'') t = Inr (token_claims (u_user_id u) tid role
      (role_scopes role) (as_issuer A) (as_audience A) (as_refresh_ttl A) ''refresh'' (dr_rjti d) n)"
    if "n \<le> t" "t < of_int (py_int n + as_refresh_ttl A)" for t
    unfolding issue_login_pair_tokens(2) [OF u] by (rule sign_verifies [OF assms(1,2,6) that])
  then show ?thesis using assms(7-9) by simp
qed

theorem reused_refresh_revokes_family_witness:
  "\<exists>tr s0 tr1 s1 s2. login demo_env demo_service demo_request False demo_draws 10 demo_boot = (Inr tr, s0) \<and>
    refresh demo_env demo_service (tr_refresh_token tr) (demo_draws\<lparr>dr_rjti := ''r2''\<rparr>) 20 s0 = (Inr tr1, s1) \<and>
    refresh demo_env demo_service (tr_refresh_token tr) demo_draws 30 s1 =
      (Inl (unauthorized ''refresh token reuse detected''), s2)"
proof -
  obtain tr s0 where l: "login demo_env demo_service demo_request False demo_draws 10 demo_boot = (Inr tr, s0)"
    "\<not> tr_mfa_required tr" by (rule demo_login)
  obtain c tr1 s1 where r: "auth_verify demo_env demo_service (tr_refresh_token tr) (Some ''refresh'') 20 = Inr c"
    "cl_jti c = dr_rjti demo_draws"
    "refresh demo_env demo_service (tr_refresh_token tr) (demo_draws\<lparr>dr_rjti := ''r2''\<rparr>) 20 s0 = (Inr tr1, s1)"
    using demo_refresh [OF l, of 20 "demo_draws\<lparr>dr_rjti := ''r2''\<rparr>"] by auto
  have jr: "jwt_roundtrip (env_jwt demo_env) (\<lambda>alg key vkey. key = vkey)" using demo_jwt_roundtrip by simp
  have "auth_verify demo_env demo_service (tr_refresh_token tr) (Some ''refresh'') 20 =
      auth_verify demo_env demo_service (tr_refresh_token tr) (Some ''refresh'') 30"
    by (rule sign_verifies_once [OF jr demo_ring l demo_boot_live])
      (simp_all add: demo_service_def AuthService_def py_int_def)
  with r(1) have c: "auth_verify demo_env demo_service (tr_refresh_token tr) (Some ''refresh'') 30 = Inr c" by simp
  obtain res s2 where two: "refresh demo_env demo_service (tr_refresh_token tr) demo_draws 30 s1 = (res, s2)"
    by fastforce
  have "dr_rjti (demo_draws\<lparr>dr_rjti := ''r2''\<rparr>) \<noteq> cl_jti c" by (simp add: r(2)) (simp add: demo_draws_def)
  from reused_refresh_revokes_family [OF r(3,1) this c two] l(1) r(3) two show ?thesis by blast
qed

section \<open>Logout and revocation\<close>

lemma live_dict_wf: "live E s \<Longrightarrow> dict_wf (revoked_jtis s)"
  using reachable_invD(1) by (simp add: dicts_wf_def)

lemma revoked_verify:
  assumes "live E s" "dget (revoked_jtis s) (cl_jti c) = Some r" "n \<le> r_expires_at r"
  shows "auth_verify E A tok (Some ''access'') n = Inr c \<Longrightarrow>
      fst (verify E A tok n s) = Inl (unauthorized ''revoked token'')"
    "auth_verify E A tok (Some ''session'') n = Inr c \<Longrightarrow>
      fst (verify_session_token E A tok n s) = Inl (unauthorized ''revoked token'')"
    "auth_verify E A tok (Some ''access'') n = Inr c \<Longrightarrow> fst (introspect E A tok n s) = None"
proof -
  have rev: "fst (is_jti_revoked (cl_jti c) n s)"
    using is_jti_revoked_iff [OF live_dict_wf [OF assms(1)]] assms(2,3) by blast
  then have a: "authorize c n s = raise (unauthorized ''revoked token'') (snd (is_jti_revoked (cl_jti c) n s))"
    by (simp add: authorize_def Let_def case_prod_beta)
  show "auth_verify E A tok (Some ''access'') n = Inr c \<Longrightarrow>
      fst (verify E A tok n s) = Inl (unauthorized ''revoked token'')"
    "auth_verify E A tok (Some ''access'') n = Inr c \<Longrightarrow> fst (introspect E A tok n s) = None"
    by (simp_all add: verify_def introspect_def a)
  show "auth_verify E A tok (Some ''session'') n = Inr c \<Longrightarrow>
      fst (verify_session_token E A tok n s) = Inl (unauthorized ''revoked token'')"
    using rev by (simp add: verify_session_token_def Let_def case_prod_beta)
qed

lemma logout_ledger:
  assumes "cl_exp c \<noteq> 0"
  shows "\<exists>r. dget (revoked_jtis (logout E A c rt n s)) (cl_jti c) = Some r \<and> r_expires_at r = of_int (cl_exp c)"
proof -
  have fam: "revoked_jtis (snd (revoke_refresh_family f s')) = revoked_jtis s'" for f s'
    by (simp add: revoke_refresh_family_def revoke_where_def)
  show ?thesis
    using assms by (simp add: logout_def Let_def fam dget_revoke_jti split: sum.split option.split)
qed

text \<open>
  C10 (safety). Logging out ends a token for good: \<open>verify\<close> and \<open>introspect\<close> refuse every token
  with its id and expiry at every later time, since the ledger entry lasts as long as the
  token could decode.
\<close>

theorem logout_ends_token:
  assumes "live E s" "jwt_checks (env_jwt E)" "cl_exp c \<noteq> 0"
    "auth_verify E A tok (Some ''access'') n2 = Inr c2" "cl_jti c2 = cl_jti c" "cl_exp c2 = cl_exp c"
  shows "fst (verify E A tok n2 (logout E A c rt n s)) = Inl (unauthorized ''revoked token'') \<and>
    fst (introspect E A tok n2 (logout E A c rt n s)) = None"
proof -
  let ?s = "logout E A c rt n s"
  have l: "live E ?s" by (rule live_logout [OF assms(1)])
  obtain r where r: "dget (revoked_jtis ?s) (cl_jti c2) = Some r" "r_expires_at r = of_int (cl_exp c)"
    using logout_ledger [OF assms(3)] assms(5) by metis
  have "n2 \<le> r_expires_at r" using auth_verify_decoded(1) [OF assms(2,4)] r(2) assms(6) by simp
  from revoked_verify(1,3) [OF l r(1) this assms(4)] show ?thesis by blast
qed

theorem logout_ends_token_witness:
  "\<exists>tr s1 c. login demo_env demo_service demo_request False demo_draws 10 demo_boot = (Inr tr, s1) \<and>
    auth_verify demo_env demo_service (tr_access_token tr) (Some ''access'') 500 = Inr c \<and>
    fst (verify demo_env demo_service (tr_access_token tr) 500 (logout demo_env demo_service c None 400 s1))
      = Inl (unauthorized ''revoked token'')"
proof -
  obtain tr s1 where l: "login demo_env demo_service demo_request False demo_draws 10 demo_boot = (Inr tr, s1)"
    "\<not> tr_mfa_required tr" by (rule demo_login)
  obtain vr s2 where v: "verify demo_env demo_service (tr_access_token tr) 500 s1 = (Inr vr, s2)"
    using demo_token_verifies [OF l] by blast
  obtain c r c' where c: "auth_verify demo_env demo_service (tr_access_token tr) (Some ''access'') 500 = Inr c"
    by (rule verifyE [OF v])
  have j: "jwt_checks (env_jwt demo_env)" using demo_jwt_checks by simp
  have live: "live demo_env s1" using live_login [OF demo_boot_live, of demo_service demo_request False demo_draws 10] l
    by simp
  have "cl_exp c \<noteq> 0" using auth_verify_decoded(1) [OF j c] by auto
  from logout_ends_token [OF live j this c refl refl, of None 400] l(1) c show ?thesis by blast
qed

text \<open>
  C29 (safety). Revocation is bound to the tenant that owns the token: a caller of another
  tenant, or an id nobody owns, is refused and nothing changes; a caller of the owning
  tenant gets the id refused by \<open>verify\<close> and by the session check for the next 24 hours.
\<close>

theorem revoke_is_tenant_bound:
  assumes "live E s"
  shows "(get_jti_owner jti n s = None \<or> (\<exists>o' w. get_jti_owner jti n s = Some (o', w) \<and> o' \<noteq> tid) \<longrightarrow>
      revoke E jti tid uid n s = raise (forbidden ''jti does not belong to caller tenant'') s) \<and>
    (get_jti_owner jti n s = Some (tid, w) \<longrightarrow>
      (\<exists>s'. revoke E jti tid uid n s = (Inr (), s') \<and>
        (\<forall>A tok c n2. cl_jti c = jti \<and> n2 \<le> n + 86400 \<longrightarrow>
          (auth_verify E A tok (Some ''access'') n2 = Inr c \<longrightarrow>
             fst (verify E A tok n2 s') = Inl (unauthorized ''revoked token'')) \<and>
          (auth_verify E A tok (Some ''session'') n2 = Inr c \<longrightarrow>
             fst (verify_session_token E A tok n2 s') = Inl (unauthorized ''revoked token'')))))"
proof (intro conjI impI)
  show "revoke E jti tid uid n s = raise (forbidden ''jti does not belong to caller tenant'') s"
    if "get_jti_owner jti n s = None \<or> (\<exists>o' w. get_jti_owner jti n s = Some (o', w) \<and> o' \<noteq> tid)"
    using that by (auto simp: revoke_def)
next
  assume o: "get_jti_owner jti n s = Some (tid, w)"
  let ?s = "snd (revoke E jti tid uid n s)"
  have ok: "revoke E jti tid uid n s = (Inr (), ?s)" using o by (simp add: revoke_def)
  have l: "live E ?s" by (rule live_revoke [OF assms])
  obtain r where r: "dget (revoked_jtis ?s) jti = Some r" "r_expires_at r = n + 86400"
    using o by (simp add: revoke_def dget_revoke_jti)
  have "(auth_verify E A tok (Some ''access'') n2 = Inr c \<longrightarrow>
      fst (verify E A tok n2 ?s) = Inl (unauthorized ''revoked token'')) \<and>
    (auth_verify E A tok (Some ''session'') n2 = Inr c \<longrightarrow>
      fst (verify_session_token E A tok n2 ?s) = Inl (unauthorized ''revoked token''))"
    if "cl_jti c = jti \<and> n2 \<le> n + 86400" for A tok c n2
  proof -
    have "dget (revoked_jtis ?s) (cl_jti c) = Some r" "n2 \<le> r_expires_at r" using r that by simp_all
    from revoked_verify(1,2) [OF l this] show ?thesis by blast
  qed
  with ok show "\<exists>s'. revoke E jti tid uid n s = (Inr (), s') \<and>
      (\<forall>A tok c n2. cl_jti c = jti \<and> n2 \<le> n + 86400 \<longrightarrow>
        (auth_verify E A tok (Some ''access'') n2 = Inr c \<longrightarrow>
           fst (verify E A tok n2 s') = Inl (unauthorized ''revoked token'')) \<and>
        (auth_verify E A tok (Some ''session'') n2 = Inr c \<longrightarrow>
           fst (verify_session_token E A tok n2 s') = Inl (unauthorized ''revoked token'')))"
    by (intro exI [of _ ?s]) blast
qed

theorem revoke_is_tenant_bound_witness:
  "let s = record_issued_jti ''j1'' ''default'' ''usr_admin'' 5 demo_boot in
     revoke demo_env ''j1'' ''other'' None 6 s = raise (forbidden ''jti does not belong to caller tenant'') s \<and>
     fst (revoke demo_env ''j1'' ''default'' None 6 s) = Inr ()"
proof -
  let ?s = "record_issued_jti ''j1'' ''default'' ''usr_admin'' 5 demo_boot"
  have l: "live demo_env ?s" by (rule live_store_ops(11) [OF demo_boot_live])
  have o: "get_jti_owner ''j1'' 6 ?s = Some (''default'', Some ''usr_admin'')"
    by (simp add: get_jti_owner_def issued_owner_def record_issued_jti_def sweep_issued_jtis_def Let_def
        dget_dset demo_boot_revoked ISSUED_JTI_DEFAULT_TTL_def)
  have "revoke demo_env ''j1'' ''other'' None 6 ?s = raise (forbidden ''jti does not belong to caller tenant'') ?s"
    using revoke_is_tenant_bound [OF l, of "''j1''" 6 "''other''"] o by simp
  moreover have "fst (revoke demo_env ''j1'' ''default'' None 6 ?s) = Inr ()"
    using revoke_is_tenant_bound [OF l, of "''j1''" 6 "''default''" None "Some ''usr_admin''"] o by auto
  ultimately show ?thesis by (simp add: Let_def)
qed

end
