(* ===== verification/Lockout_Properties.thy ===== *)
theory Lockout_Properties
  imports Login_Properties
begin

text \<open>Properties of the failure counter, the lock it sets, and the password change.\<close>

section \<open>Counting failures\<close>

definition after_failure :: "time \<Rightarrow> user_rec \<Rightarrow> user_rec" where
  "after_failure n u = u\<lparr>u_failed_attempts := u_failed_attempts u + 1,
     u_locked_until := (if u_failed_attempts u + 1 \<ge> LOCK_THRESHOLD then Some (n + LOCK_DURATION_SECONDS)
                        else u_locked_until u)\<rparr>"

lemma record_failed_login_users:
  assumes "dget (users s) (u_user_id u) = Some u"
  shows "users (record_failed_login E u t n s) = dset (u_user_id u) (after_failure n u) (users s)"
  using assms
  by (simp add: record_failed_login_def Let_def users_update_user apply_user_update_def no_user_update_def
      after_failure_def)

lemma record_failed_login_frame [simp]:
  "tenants (record_failed_login E u t n s) = tenants s" "members (record_failed_login E u t n s) = members s"
  "refresh_tokens (record_failed_login E u t n s) = refresh_tokens s"
  by (simp_all add: record_failed_login_def Let_def)

lemma check_password_after_failure [simp]:
  "check_password E (after_failure n u) pw = check_password E u pw"
  by (simp add: check_password_def after_failure_def)

lemma find_dset:
  assumes "List.find P (dvals d) = Some u" "keyed d" "dict_wf d" "P v"
  shows "List.find P (dvals (dset (u_user_id u) v d)) = Some v"
  using assms
proof (induction d)
  case Nil
  then show ?case by simp
next
  case (Cons p d)
  obtain k w where p: "p = (k, w)" by (cases p)
  show ?case
  proof (cases "P w")
    case True
    with Cons.prems p show ?thesis by (simp add: keyed_def)
  next
    case False
    then have f: "List.find P (dvals d) = Some u" using Cons.prems(1) p by simp
    then obtain i where "(i, u) \<in> set d" using find_SomeD(1) [OF f] by auto
    moreover have "keyed d" using Cons.prems(2) by (simp add: keyed_def)
    ultimately have "(u_user_id u, u) \<in> set d" by (auto simp: keyed_def list_all_iff)
    then have "u_user_id u \<noteq> k" using Cons.prems(3) p by (auto simp: image_iff)
    with Cons.IH [OF f] Cons.prems False p show ?thesis by (simp add: keyed_def)
  qed
qed

lemma failed_login:
  assumes "live E s" "login_admitted E A req sk u n s" "\<not> fst (check_password E u (lr_password req))"
  shows "live E (snd (login E A req sk d n s))" "tenants (snd (login E A req sk d n s)) = tenants s"
    "get_user_by_username (lr_username req) (snd (login E A req sk d n s)) = Some (after_failure n u)"
proof -
  have g: "get_user_by_username (lr_username req) s = Some u"
    using assms(2) by (simp add: login_admitted_def)
  note filed = user_filed [OF assms(1) g]
  have wf: "dict_wf (users s)" using reachable_invD(1) [OF assms(1)] by (simp add: dicts_wf_def)
  show "live E (snd (login E A req sk d n s))" by (rule live_login [OF assms(1)])
  have eq: "snd (login E A req sk d n s) = record_failed_login E u (lr_tenant_id req) n s"
    using assms(3) by (simp add: login_admitted_eq [OF assms(2)])
  show "tenants (snd (login E A req sk d n s)) = tenants s" by (simp add: eq)
  show "get_user_by_username (lr_username req) (snd (login E A req sk d n s)) = Some (after_failure n u)"
    unfolding eq get_user_by_username_def record_failed_login_users [OF filed(1)]
    by (rule find_dset [OF g [unfolded get_user_by_username_def] reachable_users_keyed [OF assms(1)] wf])
      (simp add: after_failure_def filed(2))
qed

fun login_run :: "auth_env \<Rightarrow> auth_service \<Rightarrow> (login_request \<times> bool \<times> draws \<times> time) list \<Rightarrow> store \<Rightarrow> store" where
  "login_run E A [] s = s"
| "login_run E A ((req, sk, d, n) # rest) s = login_run E A rest (snd (login E A req sk d n s))"

text \<open>A wrong password for a given user, under a tenant that is open.\<close>

definition wrong_attempt :: "auth_env \<Rightarrow> user_rec \<Rightarrow> string \<Rightarrow> store \<Rightarrow> login_request \<Rightarrow> bool" where
  "wrong_attempt E u nm s req \<longleftrightarrow> lr_username req = nm \<and> \<not> fst (check_password E u (lr_password req)) \<and>
     (truthy_str (lr_tenant_id req) \<longrightarrow> \<not> tenant_blocked (get_tenant_status (upd_opt (lr_tenant_id req) []) s))"

definition may_log_in :: "auth_service \<Rightarrow> user_rec \<Rightarrow> bool" where
  "may_log_in A u \<longleftrightarrow> u_status u \<noteq> ''disabled'' \<and> u_status u \<noteq> ''locked'' \<and>
     (as_email_verification_required A \<longrightarrow> u_email_verified u)"

lemma failures_count:
  assumes "live E s" "get_user_by_username nm s = Some u" "may_log_in A u" "u_locked_until u = None"
    "0 \<le> u_failed_attempts u" "u_failed_attempts u + int (length atts) \<le> LOCK_THRESHOLD"
    "list_all (\<lambda>(req, sk, d, n). wrong_attempt E u nm s req) atts"
  shows "get_user_by_username nm (login_run E A atts s) =
      Some (u\<lparr>u_failed_attempts := u_failed_attempts u + int (length atts),
              u_locked_until := (if atts \<noteq> [] \<and> u_failed_attempts u + int (length atts) = LOCK_THRESHOLD
                 then Some (snd (snd (snd (last atts))) + LOCK_DURATION_SECONDS) else None)\<rparr>) \<and>
    tenants (login_run E A atts s) = tenants s"
  using assms
proof (induction atts arbitrary: s u)
  case Nil
  then show ?case by simp
next
  case (Cons a atts)
  obtain req sk d n where a: "a = (req, sk, d, n)" by (cases a) auto
  have w: "wrong_attempt E u nm s req" using Cons.prems(7) by (simp add: a)
  have adm: "login_admitted E A req sk u n s"
    using w Cons.prems(2,3,4) by (auto simp: wrong_attempt_def may_log_in_def login_admitted_def is_locked_def)
  let ?s1 = "snd (login E A req sk d n s)"
  have nm: "lr_username req = nm" "\<not> fst (check_password E u (lr_password req))"
    using w by (simp_all add: wrong_attempt_def)
  note f = failed_login [OF Cons.prems(1) adm nm(2), where d = d, unfolded nm(1)]
  have w': "wrong_attempt E (after_failure n u) nm ?s1 r = wrong_attempt E u nm s r" for r
    using f(2) by (simp add: wrong_attempt_def get_tenant_status_def)
  show ?case
  proof (cases "atts = []")
    case True
    then show ?thesis using f Cons.prems(6) by (simp add: a after_failure_def Cons.prems(4))
  next
    case False
    then have lt: "u_failed_attempts u + 1 < LOCK_THRESHOLD" using Cons.prems(6) by (cases atts) auto
    have af: "after_failure n u = u\<lparr>u_failed_attempts := u_failed_attempts u + 1\<rparr>"
      using lt Cons.prems(4) by (simp add: after_failure_def)
    have "get_user_by_username nm (login_run E A atts ?s1) =
        Some ((after_failure n u)\<lparr>u_failed_attempts := u_failed_attempts (after_failure n u) + int (length atts),
          u_locked_until := (if atts \<noteq> [] \<and> u_failed_attempts (after_failure n u) + int (length atts) = LOCK_THRESHOLD
             then Some (snd (snd (snd (last atts))) + LOCK_DURATION_SECONDS) else None)\<rparr>) \<and>
      tenants (login_run E A atts ?s1) = tenants ?s1"
      by (rule Cons.IH [OF f(1) f(3)])
        (use Cons.prems in \<open>simp_all add: af may_log_in_def a w' [unfolded af]\<close>)
    with False f(2) show ?thesis by (simp add: a af add_ac)
  qed
qed

text \<open>No other answer of \<open>login\<close> is the one for a locked account.\<close>

lemma login_not_locked_out:
  assumes "login_admitted E A req sk u n s"
  shows "fst (login E A req sk d n s) \<noteq> Inl locked_out"
proof -
  have "fst (login_member E A req u tid d n s1) \<noteq> Inl locked_out" for tid s1
    by (auto simp: login_member_def Let_def case_prod_beta locked_out_def unauthorized_def
        split: option.splits sum.splits)
  moreover have "login_tenant req u s1 \<noteq> Inl locked_out" for s1
    by (auto simp: login_tenant_def resolve_login_tenant_def Let_def locked_out_def unauthorized_def
        split: list.splits)
  ultimately show ?thesis
    by (auto simp: login_admitted_eq [OF assms] locked_out_def unauthorized_def split: sum.splits)
qed

text \<open>
  C14 (bounds). From a clean counter, the fifth wrong password in a row locks the account and
  no earlier one does: within fifteen minutes of the last of \<open>k \<le> 5\<close> failures, a further
  login, even with the right password, is answered with \<open>429\<close> exactly if \<open>k = 5\<close>.
\<close>

theorem fifth_failure_locks:
  assumes "live E s" "get_user_by_username nm s = Some u" "may_log_in A u" "u_locked_until u = None"
    "u_failed_attempts u = 0" "atts \<noteq> []" "int (length atts) \<le> LOCK_THRESHOLD"
    "list_all (\<lambda>(req, sk, d, n). wrong_attempt E u nm s req) atts"
    "lr_username req = nm"
    "truthy_str (lr_tenant_id req) \<longrightarrow> \<not> tenant_blocked (get_tenant_status (upd_opt (lr_tenant_id req) []) s)"
    "now < snd (snd (snd (last atts))) + LOCK_DURATION_SECONDS"
  shows "fst (login E A req sk d now (login_run E A atts s)) = Inl locked_out \<longleftrightarrow> length atts = 5"
proof -
  let ?s = "login_run E A atts s"
  let ?u = "u\<lparr>u_failed_attempts := int (length atts),
    u_locked_until := (if int (length atts) = LOCK_THRESHOLD
       then Some (snd (snd (snd (last atts))) + LOCK_DURATION_SECONDS) else None)\<rparr>"
  have g: "get_user_by_username nm ?s = Some ?u" "tenants ?s = tenants s"
    using failures_count [OF assms(1-4) _ _ assms(8)] assms(5-7) by simp_all
  have open_t: "truthy_str (lr_tenant_id req) \<longrightarrow> \<not> tenant_blocked (get_tenant_status (upd_opt (lr_tenant_id req) []) ?s)"
    using assms(10) g(2) by (simp add: get_tenant_status_def)
  show ?thesis
  proof (cases "length atts = 5")
    case True
    then have "is_locked ?u now" using assms(11) by (simp add: is_locked_def LOCK_THRESHOLD_def)
    then have "login E A req sk d now ?s = raise locked_out ?s"
      using open_t g(1) by (simp add: login_def Let_def assms(9))
    then show ?thesis using True by simp
  next
    case False
    then have "login_admitted E A req sk ?u now ?s"
      using open_t g(1) assms(3,7,9)
      by (simp add: login_admitted_def is_locked_def may_log_in_def LOCK_THRESHOLD_def)
    from login_not_locked_out [OF this] False show ?thesis by simp
  qed
qed

lemma demo_admin:
  obtains u where "get_user_by_username ''root'' demo_boot = Some u" "dget (users demo_boot) ''usr_admin'' = Some u"
    "u_user_id u = ''usr_admin''" "may_log_in demo_service u" "u_locked_until u = None" "u_failed_attempts u = 0"
    "\<And>guess. fst (check_password demo_env u guess) \<longleftrightarrow> guess = ''pw''"
    "get_tenant_status ''default'' demo_boot = Some ''active''"
proof -
  obtain s1 t u m where b: "bootstrap demo_env (Some ''root'') (Some ''pw'') None ''s'' 1 empty_store = (Inr (), s1)"
    "tenants s1 = [(''default'', t)]" "t_status t = ''active''"
    "users s1 = users empty_store @ [(''usr_admin'', u)]" "u_user_id u = ''usr_admin''" "u_username u = ''root''"
    "u_status u = ''active''" "u_locked_until u = None" "u_email_verified u" "u_failed_attempts u = 0"
    "u_password_algo u = ''argon2id''" "u_password_hash_v u = argon2_hash (env_kdf demo_env) ''pw'' ''s''"
    by (rule bootstrap_store [of empty_store "''root''" "''pw''" demo_env "''s''" 1]) (simp_all add: demo_empty)
  have s: "argon2_sound (env_kdf demo_env)" using demo_kdf_sound by simp
  have u: "users s1 = [(''usr_admin'', u)]" "demo_boot = s1" using b(1,4) by (simp_all add: demo_boot_def empty_store_def)
  show thesis
    by (rule that [of u])
      (use b in \<open>simp_all add: u get_user_by_username_def may_log_in_def get_tenant_status_def
        check_password_created [OF s b(11,12)]\<close>)
qed

theorem fifth_failure_locks_witness:
  "let bad = demo_request\<lparr>lr_password := ''no''\<rparr>;
       s5 = login_run demo_env demo_service (replicate 5 (bad, False, demo_draws, 10)) demo_boot;
       s4 = login_run demo_env demo_service (replicate 4 (bad, False, demo_draws, 10)) demo_boot
   in fst (login demo_env demo_service demo_request False demo_draws 20 s5) = Inl locked_out \<and>
      fst (login demo_env demo_service demo_request False demo_draws 20 s4) \<noteq> Inl locked_out"
proof -
  obtain u where u: "get_user_by_username ''root'' demo_boot = Some u" "may_log_in demo_service u"
    "u_locked_until u = None" "u_failed_attempts u = 0"
    "\<And>guess. fst (check_password demo_env u guess) \<longleftrightarrow> guess = ''pw''"
    "get_tenant_status ''default'' demo_boot = Some ''active''"
    by (rule demo_admin) blast
  let ?bad = "demo_request\<lparr>lr_password := ''no''\<rparr>"
  have "fst (login demo_env demo_service demo_request False demo_draws 20
      (login_run demo_env demo_service (replicate k (?bad, False, demo_draws, 10)) demo_boot)) = Inl locked_out
    \<longleftrightarrow> length (replicate k (?bad, False, demo_draws, (10::time))) = 5" if k: "k \<noteq> 0" "k \<le> 5" for k
    by (rule fifth_failure_locks [OF demo_boot_live u(1-4)])
      (use k u(5,6) in \<open>simp_all add: list_all_length wrong_attempt_def demo_request_def LOCK_THRESHOLD_def
        LOCK_DURATION_SECONDS_def\<close>)
  from this [of 5] this [of 4] show ?thesis by (simp add: Let_def)
qed

section \<open>Changing the password\<close>

lemma users_revoke_user_sessions [simp]: "users (snd (revoke_user_sessions uid s)) = users s"
  by (simp add: revoke_user_sessions_def revoke_where_def)

lemma change_password_ok:
  assumes "get_user uid s = Some u" "fst (check_password E u old)"
  shows "fst (change_password E uid old new tid salt n s) = Inr ()"
    "users (snd (change_password E uid old new tid salt n s)) = dset uid (u\<lparr>u_password_hash_v :=
       argon2_hash (env_kdf E) new salt, u_salt := salt, u_password_algo := ''argon2id'',
       u_must_change_password := False\<rparr>) (users s)"
    "refresh_tokens (snd (change_password E uid old new tid salt n s)) =
       refresh_tokens (snd (revoke_user_sessions uid s))"
proof -
  let ?upd = "no_user_update\<lparr>uu_password_hash_v := Some (argon2_hash (env_kdf E) new salt), uu_salt := Some salt,
    uu_password_algo := Some ''argon2id'', uu_must_change_password := Some False\<rparr>"
  let ?s1 = "snd (update_user uid ?upd s)"
  have c: "change_password E uid old new tid salt n s = (Inr (), audit_entry E tid (Some uid) None None
      ''auth.password_change'' (Some ''session'')
      (JObj [(''revoked_sessions'', JInt (int (fst (revoke_user_sessions uid ?s1))))]) n
      (snd (revoke_user_sessions uid ?s1)))"
    using assms by (simp add: change_password_def hash_password_def Let_def case_prod_beta)
  show "fst (change_password E uid old new tid salt n s) = Inr ()" by (simp add: c)
  show "users (snd (change_password E uid old new tid salt n s)) = dset uid (u\<lparr>u_password_hash_v :=
       argon2_hash (env_kdf E) new salt, u_salt := salt, u_password_algo := ''argon2id'',
       u_must_change_password := False\<rparr>) (users s)"
    using assms(1) by (simp add: c get_user_def users_update_user apply_user_update_def no_user_update_def)
  show "refresh_tokens (snd (change_password E uid old new tid salt n s)) =
       refresh_tokens (snd (revoke_user_sessions uid s))"
    unfolding c by (simp add: revoke_user_sessions_def revoke_where_def)
qed

lemma change_password_bad:
  assumes "get_user uid s = Some u" "\<not> fst (check_password E u old)"
  shows "change_password E uid old new tid salt n s =
    raise (unauthorized ''invalid credentials'') (record_failed_login E u (Some tid) n s)"
  using assms by (simp add: change_password_def)

lemma revoked_user_sessions:
  assumes "refresh_tokens s' = refresh_tokens (snd (revoke_user_sessions uid s))"
    "get_refresh_token j s' = Some r" "rt_user_id r = uid"
  shows "rt_status r = ''revoked''"
  by (rule revoke_where_revoked [of "\<lambda>r. rt_user_id r = uid" s j])
    (use assms in \<open>simp_all add: get_refresh_token_def revoke_user_sessions_def\<close>)

text \<open>
  C16 (functional). A successful password change leaves a record that accepts the new password
  and no other, and every refresh token of the user is revoked: redeeming one is refused.
\<close>

theorem change_password_ends_sessions:
  assumes "argon2_sound (env_kdf E)" "change_password E uid old new tid salt n s = (Inr (), s')"
  shows "\<exists>u. get_user uid s' = Some u \<and> (\<forall>guess. fst (check_password E u guess) \<longleftrightarrow> guess = new) \<and>
    \<not> u_must_change_password u \<and>
    (\<forall>j r. get_refresh_token j s' = Some r \<and> rt_user_id r = uid \<longrightarrow> rt_status r = ''revoked'') \<and>
    (\<forall>A tok c d t r. auth_verify E A tok (Some ''refresh'') t = Inr c \<and>
       get_refresh_token (cl_jti c) s' = Some r \<and> rt_user_id r = uid \<longrightarrow>
       refresh E A tok d t s' = raise (unauthorized ''revoked refresh token'') s')"
proof -
  obtain u where u: "get_user uid s = Some u" "fst (check_password E u old)"
    using assms(2) by (auto simp: change_password_def split: option.splits if_splits)
  note c = change_password_ok [OF u, where new = new and tid = tid and salt = salt and n = n]
  have s': "s' = snd (change_password E uid old new tid salt n s)" by (simp add: assms(2))
  have rt: "rt_status r = ''revoked''" if "get_refresh_token j s' = Some r" "rt_user_id r = uid" for j r
    by (rule revoked_user_sessions [OF _ that]) (simp add: s' c(3))
  let ?u = "u\<lparr>u_password_hash_v := argon2_hash (env_kdf E) new salt, u_salt := salt,
    u_password_algo := ''argon2id'', u_must_change_password := False\<rparr>"
  have g: "get_user uid s' = Some ?u" by (simp add: get_user_def s' c(2) dget_dset)
  have "fst (check_password E ?u guess) \<longleftrightarrow> guess = new" for guess
    by (rule check_password_created [OF assms(1)]) simp_all
  moreover have "refresh E A tok d t s' = raise (unauthorized ''revoked refresh token'') s'"
    if "auth_verify E A tok (Some ''refresh'') t = Inr cc" "get_refresh_token (cl_jti cc) s' = Some r"
      "rt_user_id r = uid" for A tok cc d t r
    using that rt [OF that(2,3)] by (simp add: refresh_def)
  ultimately show ?thesis using g rt by (intro exI [of _ ?u]) auto
qed

theorem change_password_ends_sessions_witness:
  "\<exists>s' u. change_password demo_env ''usr_admin'' ''pw'' ''new'' ''default'' ''x'' 5 demo_boot = (Inr (), s') \<and>
    get_user ''usr_admin'' s' = Some u \<and> fst (check_password demo_env u ''new'') \<and>
    \<not> fst (check_password demo_env u ''pw'')"
proof -
  obtain u where u: "dget (users demo_boot) ''usr_admin'' = Some u"
    "\<And>guess. fst (check_password demo_env u guess) \<longleftrightarrow> guess = ''pw''"
    by (rule demo_admin) blast
  have s: "argon2_sound (env_kdf demo_env)" using demo_kdf_sound by simp
  have "fst (change_password demo_env ''usr_admin'' ''pw'' ''new'' ''default'' ''x'' 5 demo_boot) = Inr ()"
    by (rule change_password_ok(1) [of _ _ u]) (use u in \<open>simp_all add: get_user_def\<close>)
  then obtain s' where c: "change_password demo_env ''usr_admin'' ''pw'' ''new'' ''default'' ''x'' 5 demo_boot
      = (Inr (), s')" by (metis prod.collapse)
  obtain v where "get_user ''usr_admin'' s' = Some v"
    "\<forall>guess. fst (check_password demo_env v guess) \<longleftrightarrow> guess = ''new''"
    using change_password_ends_sessions [OF s c] by blast
  with c show ?thesis by (intro exI [of _ s'] exI [of _ v]) simp
qed

fun guess_run ::
  "auth_env \<Rightarrow> string \<Rightarrow> (string \<times> string \<times> string \<times> string \<times> time) list \<Rightarrow> store \<Rightarrow> store" where
  "guess_run E uid [] s = s"
| "guess_run E uid ((old, new, tid, salt, n) # rest) s =
     guess_run E uid rest (snd (change_password E uid old new tid salt n s))"

lemma guess_run_user:
  assumes "get_user uid s = Some u" "u_user_id u = uid"
    "list_all (\<lambda>(old, new, tid, salt, n). \<not> fst (check_password E u old)) gs"
  shows "\<exists>v. get_user uid (guess_run E uid gs s) = Some v \<and> u_user_id v = uid \<and>
    (\<forall>pw. check_password E v pw = check_password E u pw)"
  using assms
proof (induction gs arbitrary: s u)
  case Nil
  then show ?case by auto
next
  case (Cons g gs)
  obtain old new tid salt n where g: "g = (old, new, tid, salt, n)" by (cases g) auto
  let ?s1 = "snd (change_password E uid old new tid salt n s)"
  have "get_user uid ?s1 = Some (after_failure n u)" "u_user_id (after_failure n u) = uid"
    using Cons.prems record_failed_login_users [of s u E "Some tid" n]
    by (simp_all add: change_password_bad [OF Cons.prems(1)] g get_user_def dget_dset after_failure_def)
  from Cons.IH [OF this] Cons.prems(3) show ?case by (simp add: g)
qed

text \<open>
  C37 (error). The lock does not protect the password change: after any number of wrong
  guesses at the old password, however many locks they set, the right one still succeeds,
  while the lock is in force.
\<close>

theorem change_password_ignores_lock:
  assumes "get_user uid s = Some u" "u_user_id u = uid"
    "list_all (\<lambda>(old, new, tid, salt, n). \<not> fst (check_password E u old)) gs"
    "fst (check_password E u pw)"
  shows "fst (change_password E uid pw new tid salt n (guess_run E uid gs s)) = Inr ()"
proof -
  obtain v where "get_user uid (guess_run E uid gs s) = Some v" "check_password E v pw = check_password E u pw"
    using guess_run_user [OF assms(1-3)] by blast
  then show ?thesis by (simp add: change_password_ok(1) assms(4))
qed

theorem change_password_ignores_lock_witness:
  "fst (change_password demo_env ''usr_admin'' ''pw'' ''new'' ''default'' ''x'' 20
     (guess_run demo_env ''usr_admin'' (replicate 1000 (''no'', ''evil'', ''default'', ''x'', 10)) demo_boot)) = Inr ()"
proof -
  obtain u where u: "dget (users demo_boot) ''usr_admin'' = Some u" "u_user_id u = ''usr_admin''"
    "\<And>guess. fst (check_password demo_env u guess) \<longleftrightarrow> guess = ''pw''"
    by (rule demo_admin) blast
  show ?thesis
    by (rule change_password_ignores_lock [OF _ u(2)])
      (simp_all add: get_user_def u list_all_iff)
qed

end
