(* ===== verification/Session_Properties.thy ===== *)
theory Session_Properties
  imports Token_Properties Lockout_Properties
begin

text \<open>
  Properties of session tokens, user deletion and SSO exchange, and the invariant of the store
  under every operation of the service.
\<close>

section \<open>The revocation loop of user deletion\<close>

lemma revoke_issued_loop_expiry:
  assumes "(j, tid, u, e) \<in> set xs" "distinct (map fst xs)" "now < e" "e \<noteq> 0" "dget (revoked_jtis s) j = None"
  shows "\<exists>r. dget (revoked_jtis (snd (revoke_issued_loop u (Some tid) reason now xs c s))) j = Some r \<and>
    r_expires_at r = e"
  using assms
proof (induction xs arbitrary: c s)
  case Nil
  then show ?case by simp
next
  case (Cons x xs)
  obtain j' tid' u' e' where x: "x = (j', tid', u', e')" by (cases x) auto
  show ?case
  proof (cases "j' = j")
    case True
    have "j \<notin> fst ` set xs" using Cons.prems(2) True by (simp add: x)
    then have same: "tid' = tid" "u' = u" "e' = e" using Cons.prems(1) True by (force simp: x)+
    have "dget (revoked_jtis (revoke_jti j tid (Some u) reason (Some e) now s)) j =
        Some \<lparr>r_jti = j, r_tenant_id = tid, r_user_id = Some u, r_reason = reason, r_expires_at = e,
              r_revoked_at = now\<rparr>"
      using Cons.prems(4) by (simp add: dget_revoke_jti)
    from revoke_issued_loop_keeps [OF this, of u "Some tid" reason now xs "c + 1"] show ?thesis
      using Cons.prems(3,5) True same by (simp add: x)
  next
    case False
    have d: "distinct (map fst xs)" "(j, tid, u, e) \<in> set xs" using Cons.prems(1,2) False by (auto simp: x)
    have "dget (revoked_jtis (revoke_jti j' tid' (Some u') reason (Some e') now s)) j = None"
      using Cons.prems(5) False by (simp add: dget_revoke_jti)
    with Cons.IH [OF d(2,1) Cons.prems(3,4)] Cons.prems(5) show ?thesis
      by (cases "u' \<noteq> u \<or> (Some tid \<noteq> None \<and> Some tid \<noteq> Some tid') \<or> e' \<le> now \<or> dget (revoked_jtis s) j' \<noteq> None")
        (simp_all only: x revoke_issued_loop.simps if_True if_False)
  qed
qed

lemma revoke_issued_loop_skips:
  assumes "\<And>tid' u' e'. (j, tid', u', e') \<in> set xs \<Longrightarrow> e' \<le> now"
  shows "dget (revoked_jtis (snd (revoke_issued_loop u t reason now xs c s))) j = dget (revoked_jtis s) j"
  using assms
proof (induction xs arbitrary: c s)
  case Nil
  then show ?case by simp
next
  case (Cons x xs)
  obtain j' tid' u' e' where x: "x = (j', tid', u', e')" by (cases x) auto
  have rest: "dget (revoked_jtis (snd (revoke_issued_loop u t reason now xs c' s'))) j = dget (revoked_jtis s') j" for c' s'
    by (rule Cons.IH) (use Cons.prems in \<open>auto simp: x\<close>)
  show ?case
  proof (cases "u' \<noteq> u \<or> (t \<noteq> None \<and> t \<noteq> Some tid') \<or> e' \<le> now \<or> dget (revoked_jtis s) j' \<noteq> None")
    case True
    then show ?thesis by (simp only: x revoke_issued_loop.simps if_True rest)
  next
    case False
    then have "j' \<noteq> j" using Cons.prems [of tid' u' e'] by (auto simp: x)
    then have same: "dget (revoked_jtis (revoke_jti j' tid' (Some u') reason (Some e') now s)) j = dget (revoked_jtis s) j"
      by (simp add: dget_revoke_jti)
    from False show ?thesis by (simp only: x revoke_issued_loop.simps if_False rest same)
  qed
qed

lemma deletion_store:
  assumes "revoke_user_sessions_and_tokens E sub tid n s = (Inr k, s')"
  shows "revoked_jtis s' = revoked_jtis (snd (revoke_user_issued_jtis sub (Some tid) ''user_deletion'' n s))"
    "refresh_tokens s' = refresh_tokens (snd (revoke_user_sessions sub
       (snd (revoke_user_issued_jtis sub (Some tid) ''user_deletion'' n s))))"
    "tenants s' = tenants s"
proof -
  let ?s1 = "snd (revoke_user_issued_jtis sub (Some tid) ''user_deletion'' n s)"
  have t: "tenants ?s1 = tenants s" by (subst revoke_user_issued_frame) simp
  have "get_tenant_status tid s \<noteq> None"
    using assms by (auto simp: revoke_user_sessions_and_tokens_def split: if_splits)
  then show "revoked_jtis s' = revoked_jtis ?s1" "refresh_tokens s' = refresh_tokens (snd (revoke_user_sessions sub ?s1))"
    "tenants s' = tenants s"
    using assms t
    by (auto simp: revoke_user_sessions_and_tokens_def Let_def case_prod_beta revoke_user_sessions_def revoke_where_def)
qed

lemma revoke_issued_loop_others:
  assumes "\<And>tid' u' e'. (j, tid', u', e') \<in> set xs \<Longrightarrow> u' \<noteq> u \<or> tid' \<noteq> tid"
  shows "dget (revoked_jtis (snd (revoke_issued_loop u (Some tid) reason now xs c s))) j = dget (revoked_jtis s) j"
  using assms
proof (induction xs arbitrary: c s)
  case Nil
  then show ?case by simp
next
  case (Cons x xs)
  obtain j' tid' u' e' where x: "x = (j', tid', u', e')" by (cases x) auto
  have rest: "dget (revoked_jtis (snd (revoke_issued_loop u (Some tid) reason now xs c' s'))) j = dget (revoked_jtis s') j"
    for c' s' by (rule Cons.IH) (use Cons.prems in \<open>auto simp: x\<close>)
  show ?case
  proof (cases "u' \<noteq> u \<or> tid' \<noteq> tid")
    case True
    then show ?thesis by (elim disjE) (simp_all add: x rest)
  next
    case False
    then have eq: "u' = u" "tid' = tid" by simp_all
    then have "j' \<noteq> j" using Cons.prems [of tid' u' e'] by (auto simp: x)
    then show ?thesis by (simp add: x eq rest dget_revoke_jti)
  qed
qed

text \<open>
  C15 (safety). Deleting a user in a tenant ends its sessions there. Every token id that the
  issue ledger holds for that user and that tenant, unless it is expired there or revoked
  already, is refused from then on until its expiry in the ledger; no other token id changes
  its standing, in particular not one of the same user in another tenant; and every refresh
  token of the user is revoked.
\<close>

theorem user_deletion_revokes:
  assumes "live E s" "revoke_user_sessions_and_tokens E sub tid n s = (Inr k, s')"
  shows "(dget (issued_jtis s) (cl_jti c) = Some (tid, sub, e) \<and> n < e \<and> 0 < e \<and>
      dget (revoked_jtis s) (cl_jti c) = None \<and> n2 \<le> e \<longrightarrow>
      (auth_verify E A tok (Some ''access'') n2 = Inr c \<longrightarrow>
         fst (verify E A tok n2 s') = Inl (unauthorized ''revoked token'')) \<and>
      (auth_verify E A tok (Some ''session'') n2 = Inr c \<longrightarrow>
         fst (verify_session_token E A tok n2 s') = Inl (unauthorized ''revoked token''))) \<and>
    ((\<forall>e'. dget (issued_jtis s) i \<noteq> Some (tid, sub, e')) \<longrightarrow>
      fst (is_jti_revoked i n2 s') = fst (is_jti_revoked i n2 s)) \<and>
    (get_refresh_token j s' = Some r \<and> rt_user_id r = sub \<longrightarrow> rt_status r = ''revoked'')"
proof (intro conjI impI)
  have l: "live E s'" using live_session(2) [OF assms(1), of sub tid n] assms(2) by simp
  note st = deletion_store [OF assms(2)]
  have wf: "distinct (map fst (issued_jtis s))" using reachable_invD(1) [OF assms(1)] by (simp add: dicts_wf_def)
  {
    assume a: "dget (issued_jtis s) (cl_jti c) = Some (tid, sub, e) \<and> n < e \<and> 0 < e \<and>
        dget (revoked_jtis s) (cl_jti c) = None \<and> n2 \<le> e"
    have "(cl_jti c, tid, sub, e) \<in> set (issued_jtis s)" using a by (auto dest: map_of_SomeD)
    from revoke_issued_loop_expiry [OF this wf] a obtain q where
      q: "dget (revoked_jtis s') (cl_jti c) = Some q" "r_expires_at q = e"
      unfolding st(1) revoke_user_issued_jtis_def by blast
    then have le: "n2 \<le> r_expires_at q" using a by simp
    show "fst (verify E A tok n2 s') = Inl (unauthorized ''revoked token'')"
      if "auth_verify E A tok (Some ''access'') n2 = Inr c" by (rule revoked_verify(1) [OF l q(1) le that])
    show "fst (verify_session_token E A tok n2 s') = Inl (unauthorized ''revoked token'')"
      if "auth_verify E A tok (Some ''session'') n2 = Inr c" by (rule revoked_verify(2) [OF l q(1) le that])
  }
  {
    assume a: "\<forall>e'. dget (issued_jtis s) i \<noteq> Some (tid, sub, e')"
    have "dget (revoked_jtis s') i = dget (revoked_jtis s) i"
      unfolding st(1) revoke_user_issued_jtis_def
      by (rule revoke_issued_loop_others) (use a map_of_is_SomeI [OF wf] in blast)
    then show "fst (is_jti_revoked i n2 s') = fst (is_jti_revoked i n2 s)"
      using is_jti_revoked_iff [OF live_dict_wf [OF l]] is_jti_revoked_iff [OF live_dict_wf [OF assms(1)]] by simp
  }
  assume a: "get_refresh_token j s' = Some r \<and> rt_user_id r = sub"
  show "rt_status r = ''revoked''"
    by (rule revoke_where_revoked [of "\<lambda>r. rt_user_id r = sub"
          "snd (revoke_user_issued_jtis sub (Some tid) ''user_deletion'' n s)" j])
      (use a st(2) in \<open>simp_all add: get_refresh_token_def revoke_user_sessions_def\<close>)
qed

lemma demo_roundtrip: "jwt_roundtrip (env_jwt demo_env) (\<lambda>alg key vkey. key = vkey)"
  using demo_jwt_roundtrip by simp

lemma demo_tenant_active: "get_tenant_status ''default'' demo_boot = Some ''active''"
  by (rule demo_admin)

lemma deletion_returns:
  "get_tenant_status tid s \<noteq> None \<Longrightarrow> \<exists>k s'. revoke_user_sessions_and_tokens E sub tid n s = (Inr k, s')"
  by (simp add: revoke_user_sessions_and_tokens_def Let_def case_prod_beta)

lemma demo_boot_refresh: "refresh_tokens demo_boot = []" "issued_jtis demo_boot = []"
  by (simp_all add: demo_boot_def bootstrap_def is_empty_tenants_def create_tenant_def JOIN_POLICIES_def
      create_user_def hash_password_def add_member_def is_valid_role_def builtin_role_iff Let_def demo_empty
      empty_store_def)

theorem user_deletion_revokes_witness:
  "let s = record_issued_jti ''j2'' ''other'' ''usr_admin'' 10 (record_issued_jti ''j1'' ''default'' ''usr_admin'' 10 demo_boot);
       tok = sign demo_env demo_service ''usr_admin'' ''default'' ''tenant_admin'' 900 ''access'' ''j1'' 10
   in \<exists>k s'. revoke_user_sessions_and_tokens demo_env ''usr_admin'' ''default'' 100 s = (Inr k, s') \<and>
        fst (verify demo_env demo_service tok 500 s') = Inl (unauthorized ''revoked token'') \<and>
        \<not> fst (is_jti_revoked ''j2'' 500 s')"
proof -
  let ?s = "record_issued_jti ''j2'' ''other'' ''usr_admin'' 10 (record_issued_jti ''j1'' ''default'' ''usr_admin'' 10 demo_boot)"
  let ?tok = "sign demo_env demo_service ''usr_admin'' ''default'' ''tenant_admin'' 900 ''access'' ''j1'' 10"
  let ?c = "token_claims ''usr_admin'' ''default'' ''tenant_admin'' (role_scopes ''tenant_admin'')
    (as_issuer demo_service) (as_audience demo_service) 900 ''access'' ''j1'' 10"
  have l: "live demo_env ?s" by (intro live_store_ops(11) demo_boot_live)
  have t: "get_tenant_status ''default'' ?s \<noteq> None" using demo_tenant_active unfolding get_tenant_status_def by auto
  obtain k s' where d: "revoke_user_sessions_and_tokens demo_env ''usr_admin'' ''default'' 100 ?s = (Inr k, s')"
    using deletion_returns [OF t] by blast
  have v: "auth_verify demo_env demo_service ?tok (Some ''access'') 500 = Inr ?c"
    by (rule sign_verifies [OF demo_roundtrip demo_ring]) (simp_all add: py_int_def)
  have i: "dget (issued_jtis ?s) (cl_jti ?c) = Some (''default'', ''usr_admin'', 10 + ISSUED_JTI_DEFAULT_TTL)"
    "dget (issued_jtis ?s) ''j2'' = Some (''other'', ''usr_admin'', 10 + ISSUED_JTI_DEFAULT_TTL)"
    "revoked_jtis ?s = []"
    by (simp_all add: record_issued_jti_def sweep_issued_jtis_def Let_def dget_dset demo_boot_revoked token_claims_def
        demo_boot_refresh ISSUED_JTI_DEFAULT_TTL_def)
  note deletion = user_deletion_revokes [OF l d, of ?c "10 + ISSUED_JTI_DEFAULT_TTL" 500 demo_service ?tok "''j2''"]
  have "fst (verify demo_env demo_service ?tok 500 s') = Inl (unauthorized ''revoked token'')"
    using deletion i v by (simp add: ISSUED_JTI_DEFAULT_TTL_def)
  moreover have "\<not> fst (is_jti_revoked ''j2'' 500 s')"
    using deletion i by (simp add: is_jti_revoked_def sweep_revoked_def)
  ultimately show ?thesis using d by (auto simp: Let_def)
qed

section \<open>Session tokens\<close>

lemma issue_session_token_ok:
  assumes "issue_session_token E A sub tid role ttl jti n s = (Inr (tok, j, t, r), s')"
  shows "j = jti" "r = role" "t = session_ttl ttl" "tok = sign E A sub tid role (session_ttl ttl) ''session'' jti n"
    "get_tenant_status tid s' = Some ''active''" "is_valid_role tid role s'"
    "dget (issued_jtis s') jti = Some (tid, sub, n + ISSUED_JTI_DEFAULT_TTL)" "revoked_jtis s' = revoked_jtis s"
proof -
  let ?s1 = "if get_tenant_status tid s = None
    then snd (create_tenant tid ''Local (single-tenant mode)'' ''team'' ''invite'' n s) else s"
  have g: "get_tenant_status tid ?s1 = Some ''active''" "is_valid_role tid role ?s1"
    using assms by (simp_all add: issue_session_token_def Let_def split: if_splits)
  have rev: "revoked_jtis ?s1 = revoked_jtis s" by (simp add: create_tenant_def Let_def)
  have s': "j = jti \<and> r = role \<and> t = session_ttl ttl \<and>
      tok = sign E A sub tid role (session_ttl ttl) ''session'' jti n \<and>
      s' = audit_entry E tid (Some sub) (Some jti) (Some role) ''auth.session_issue'' (Some ''session'')
        (JObj [(''ttl_seconds'', JInt (session_ttl ttl)), (''issued_for'', JStr ''gateway'')]) n
        (record_issued_jti jti tid sub n ?s1)"
    using assms g unfolding issue_session_token_def Let_def by (auto split: if_splits)
  then show "j = jti" "r = role" "t = session_ttl ttl" "tok = sign E A sub tid role (session_ttl ttl) ''session'' jti n"
    by blast+
  show "revoked_jtis s' = revoked_jtis s" using s' rev by simp
  show "get_tenant_status tid s' = Some ''active''" "is_valid_role tid role s'"
    using s' g by (simp_all add: get_tenant_status_def is_valid_role_def)
  show "dget (issued_jtis s') jti = Some (tid, sub, n + ISSUED_JTI_DEFAULT_TTL)"
    using s' by (simp add: record_issued_jti_def sweep_issued_jtis_def Let_def dget_dset)
qed

text \<open>
  C31 (bounds). A session token lives between one minute and one day, whatever lifetime is
  asked for, in a tenant that is active and for a role that resolves there; it verifies
  throughout that time and not beyond it.
\<close>

theorem session_token_lifetime:
  assumes "live E s" "jwt_roundtrip (env_jwt E) pair" "jwt_checks (env_jwt E)" "ring_pairs pair (as_key_ring A)"
    "issue_session_token E A sub tid role ttl jti n s = (Inr (tok, j, t, r), s')"
    "dget (revoked_jtis s) jti = None" "0 \<le> n" "n \<le> n2"
  shows "60 \<le> t \<and> t \<le> 86400 \<and> get_tenant_status tid s' = Some ''active'' \<and> is_valid_role tid role s' \<and>
    ((\<exists>c s2. verify_session_token E A tok n2 s' = (Inr c, s2)) \<longleftrightarrow> n2 < of_int (py_int n + t))"
proof -
  note i = issue_session_token_ok [OF assms(5)]
  let ?c = "token_claims sub tid role (role_scopes role) (as_issuer A) (as_audience A) t ''session'' jti n"
  have l: "live E s'" using live_session(1) [OF assms(1), of A sub tid role ttl jti n] assms(5) by simp
  have b: "60 \<le> t" "t \<le> 86400" by (simp_all add: i(3) session_ttl_def SESSION_MAX_TTL_def Let_def)
  have "\<exists>c s2. verify_session_token E A tok n2 s' = (Inr c, s2)" if "n2 < of_int (py_int n + t)"
  proof -
    have v: "auth_verify E A tok (Some ''session'') n2 = Inr ?c"
      unfolding i(4) i(3) [symmetric] by (rule sign_verifies [OF assms(2,4,7,8) that])
    have "\<not> fst (is_jti_revoked jti n2 s')"
      using is_jti_revoked_iff [OF live_dict_wf [OF l]] assms(6) i(8) by simp
    then show ?thesis
      using i(5) by (simp add: verify_session_token_def v Let_def case_prod_beta token_claims_def)
  qed
  moreover have "n2 < of_int (py_int n + t)" if vs: "verify_session_token E A tok n2 s' = (Inr c, s2)" for c s2
  proof -
    obtain c' where v: "auth_verify E A tok (Some ''session'') n2 = Inr c'"
      using vs by (cases "auth_verify E A tok (Some ''session'') n2") (simp_all add: verify_session_token_def)
    show ?thesis by (rule sign_verifies_only(2) [OF assms(2,3) v [unfolded i(4) i(3) [symmetric]]])
  qed
  ultimately show ?thesis using b i(5,6) by blast
qed

lemma demo_session:
  obtains tok s1 where
    "issue_session_token demo_env demo_service ''web'' ''default'' ''member'' None ''j1'' 10 demo_boot =
      (Inr (tok, ''j1'', 43200, ''member''), s1)"
proof -
  have "issue_session_token demo_env demo_service ''web'' ''default'' ''member'' None ''j1'' 10 demo_boot =
      (Inr (sign demo_env demo_service ''web'' ''default'' ''member'' 43200 ''session'' ''j1'' 10, ''j1'', 43200, ''member''),
       snd (issue_session_token demo_env demo_service ''web'' ''default'' ''member'' None ''j1'' 10 demo_boot))"
    by (simp add: issue_session_token_def demo_tenant_active is_valid_role_def builtin_role_iff Let_def
        session_ttl_def SESSION_DEFAULT_TTL_def SESSION_MAX_TTL_def)
  then show thesis by (rule that)
qed

theorem session_token_lifetime_witness:
  "\<exists>tok s1. issue_session_token demo_env demo_service ''web'' ''default'' ''member'' None ''j1'' 10 demo_boot =
      (Inr (tok, ''j1'', 43200, ''member''), s1) \<and>
    (\<exists>c s2. verify_session_token demo_env demo_service tok 40000 s1 = (Inr c, s2)) \<and>
    \<not> (\<exists>c s2. verify_session_token demo_env demo_service tok 43210 s1 = (Inr c, s2))"
proof -
  obtain tok s1 where i: "issue_session_token demo_env demo_service ''web'' ''default'' ''member'' None ''j1'' 10 demo_boot =
      (Inr (tok, ''j1'', 43200, ''member''), s1)" by (rule demo_session)
  have j: "jwt_checks (env_jwt demo_env)" using demo_jwt_checks by simp
  have n: "dget (revoked_jtis demo_boot) ''j1'' = None" by (simp add: demo_boot_revoked)
  from session_token_lifetime [OF demo_boot_live demo_roundtrip j demo_ring i n, of 40000]
    session_token_lifetime [OF demo_boot_live demo_roundtrip j demo_ring i n, of 43210] i
  show ?thesis by (auto simp: py_int_def)
qed

text \<open>
  C38 (error). The issue ledger forgets a token eight hours after it was issued, but a session
  token lives twelve hours by default: deleting the user in between leaves the session
  token valid, and no tenant can revoke it by id any more.
\<close>

theorem session_outlives_issue_ledger:
  assumes "live E s" "jwt_roundtrip (env_jwt E) pair" "ring_pairs pair (as_key_ring A)"
    "issue_session_token E A sub tid role None jti n s = (Inr (tok, j, t, r), s1)"
    "dget (revoked_jtis s) jti = None" "refresh_owner jti s1 = None" "0 \<le> n"
    "n + ISSUED_JTI_DEFAULT_TTL < n2" "n2 < of_int (py_int n + SESSION_DEFAULT_TTL)"
    "revoke_user_sessions_and_tokens E sub tid n2 s1 = (Inr k, s2)"
  shows "(\<exists>c s3. verify_session_token E A tok n2 s2 = (Inr c, s3)) \<and>
    revoke E jti tid uid n2 s1 = raise (forbidden ''jti does not belong to caller tenant'') s1"
proof -
  note i = issue_session_token_ok [OF assms(4)]
  have ttl: "session_ttl None = SESSION_DEFAULT_TTL"
    by (simp add: session_ttl_def SESSION_DEFAULT_TTL_def SESSION_MAX_TTL_def)
  let ?c = "token_claims sub tid role (role_scopes role) (as_issuer A) (as_audience A) SESSION_DEFAULT_TTL ''session'' jti n"
  have l1: "live E s1" using live_session(1) [OF assms(1), of A sub tid role None jti n] assms(4) by simp
  have l2: "live E s2" using live_session(2) [OF l1, of sub tid n2] assms(10) by simp
  have nn: "n \<le> n2" using assms(8) by (simp add: ISSUED_JTI_DEFAULT_TTL_def)
  have v: "auth_verify E A tok (Some ''session'') n2 = Inr ?c"
    unfolding i(4) ttl by (rule sign_verifies [OF assms(2,3,7) nn assms(9)])
  note st = deletion_store [OF assms(10)]
  have wf: "dict_wf (issued_jtis s1)" using reachable_invD(1) [OF l1] by (simp add: dicts_wf_def)
  have "e' \<le> n2" if "(jti, tid', u', e') \<in> set (issued_jtis s1)" for tid' u' e'
    using map_of_is_SomeI [OF wf that] i(7) assms(8) by simp
  from revoke_issued_loop_skips [OF this] have "dget (revoked_jtis s2) jti = None"
    unfolding st(1) revoke_user_issued_jtis_def using assms(5) i(8) by simp
  then have "\<not> fst (is_jti_revoked jti n2 s2)"
    using is_jti_revoked_iff [OF live_dict_wf [OF l2]] by simp
  moreover have "get_tenant_status tid s2 = Some ''active''" using i(5) st(3) by (simp add: get_tenant_status_def)
  ultimately have "\<exists>c s3. verify_session_token E A tok n2 s2 = (Inr c, s3)"
    by (simp add: verify_session_token_def v Let_def case_prod_beta token_claims_def)
  moreover have "get_jti_owner jti n2 s1 = None"
    using assms(5,6,8) i(7,8) by (simp add: get_jti_owner_def issued_owner_def)
  ultimately show ?thesis by (simp add: revoke_def)
qed

theorem session_outlives_issue_ledger_witness:
  "\<exists>tok s1 k s2 c s3. issue_session_token demo_env demo_service ''web'' ''default'' ''member'' None ''j1'' 10 demo_boot =
      (Inr (tok, ''j1'', 43200, ''member''), s1) \<and>
    revoke_user_sessions_and_tokens demo_env ''web'' ''default'' 30000 s1 = (Inr k, s2) \<and>
    verify_session_token demo_env demo_service tok 30000 s2 = (Inr c, s3)"
proof -
  obtain tok s1 where i: "issue_session_token demo_env demo_service ''web'' ''default'' ''member'' None ''j1'' 10 demo_boot =
      (Inr (tok, ''j1'', 43200, ''member''), s1)" by (rule demo_session)
  have n: "dget (revoked_jtis demo_boot) ''j1'' = None" by (simp add: demo_boot_revoked)
  have "get_tenant_status ''default'' s1 \<noteq> None" using issue_session_token_ok(5) [OF i] by simp
  then obtain k s2 where d: "revoke_user_sessions_and_tokens demo_env ''web'' ''default'' 30000 s1 = (Inr k, s2)"
    using deletion_returns by blast
  have "s1 = snd (issue_session_token demo_env demo_service ''web'' ''default'' ''member'' None ''j1'' 10 demo_boot)"
    by (simp add: i)
  then have "refresh_owner ''j1'' s1 = None"
    by (simp add: issue_session_token_def demo_tenant_active is_valid_role_def builtin_role_iff Let_def
        refresh_owner_def demo_boot_refresh)
  from session_outlives_issue_ledger [OF demo_boot_live demo_roundtrip demo_ring i n this _ _ _ d] i d show ?thesis
    by (auto simp: ISSUED_JTI_DEFAULT_TTL_def SESSION_DEFAULT_TTL_def py_int_def)
qed

section \<open>SSO tickets\<close>

lemma exchangeE:
  assumes "exchange_sso_ticket E A tk d n s = (Inr tr, s')"
  obtains rec u role where "ticket_live n (sha256_hash tk) s" "dget (sso_tickets s) (sha256_hash tk) = Some rec"
    "get_user (tk_user_id rec) s = Some u" "\<not> is_locked u n" "u_status u \<noteq> ''disabled''" "u_status u \<noteq> ''locked''"
    "get_tenant_status (tk_tenant_id rec) s = Some ''active''"
    "get_member_role (tk_tenant_id rec) (tk_user_id rec) s = Some role"
    "(tr, s') = issue_login_pair E A u (tk_tenant_id rec) role (u_username u) ''auth.ticket_exchanged'' d n
       (snd (consume_sso_ticket n (sha256_hash tk) s))"
proof -
  let ?h = "sha256_hash tk"
  obtain rec s1 where rec: "ticket_live n ?h s" "dget (sso_tickets s) ?h = Some rec"
    and c: "consume_sso_ticket n ?h s = (Some (rec\<lparr>tk_used_at := Some n\<rparr>), s1)"
    and s1: "s1 = s\<lparr>sso_tickets := dset ?h (rec\<lparr>tk_used_at := Some n\<rparr>) (sso_tickets s)\<rparr>"
  proof (cases rule: consume_sso_ticket_cases [of n ?h s])
    case refused
    then show thesis using assms by (simp add: exchange_sso_ticket_def)
  next
    case (redeemed r)
    show thesis by (rule that [OF redeemed refl])
  qed
  have lk: "get_user i s1 = get_user i s" "get_tenant_status t s1 = get_tenant_status t s"
    "get_member_role t i s1 = get_member_role t i s" for i t
    unfolding s1 by (simp_all add: get_user_def get_tenant_status_def get_member_role_def)
  note ex = assms [unfolded exchange_sso_ticket_def Let_def c prod.case option.case lk, simplified]
  obtain u where u: "get_user (tk_user_id rec) s = Some u" using ex by (auto split: option.splits)
  have g: "\<not> is_locked u n" "u_status u \<noteq> ''disabled''" "u_status u \<noteq> ''locked''"
    "get_tenant_status (tk_tenant_id rec) s = Some ''active''"
    using ex by (simp_all add: u split: if_splits)
  obtain role where r: "get_member_role (tk_tenant_id rec) (tk_user_id rec) s = Some role"
    using ex u g by (cases "get_member_role (tk_tenant_id rec) (tk_user_id rec) s") simp_all
  show thesis
    by (rule that [OF rec u g r]) (use ex u g r c in \<open>simp add: lk case_prod_beta prod_eq_iff\<close>)
qed

lemma exchange_succeeds:
  assumes "dget (sso_tickets s) (sha256_hash tk) = Some rec" "tk_used_at rec = None" "n < tk_expires_at rec"
    "get_user (tk_user_id rec) s = Some u" "\<not> is_locked u n" "u_status u \<noteq> ''disabled''" "u_status u \<noteq> ''locked''"
    "get_tenant_status (tk_tenant_id rec) s = Some ''active''"
    "get_member_role (tk_tenant_id rec) (tk_user_id rec) s = Some role"
  shows "\<exists>tr s'. exchange_sso_ticket E A tk d n s = (Inr tr, s')"
proof -
  obtain s1 where c: "consume_sso_ticket n (sha256_hash tk) s = (Some (rec\<lparr>tk_used_at := Some n\<rparr>), s1)"
    and s1: "s1 = s\<lparr>sso_tickets := dset (sha256_hash tk) (rec\<lparr>tk_used_at := Some n\<rparr>) (sso_tickets s)\<rparr>"
    using assms(1-3) by (simp add: consume_sso_ticket_def Let_def)
  have lk: "get_user i s1 = get_user i s" "get_tenant_status t s1 = get_tenant_status t s"
    "get_member_role t i s1 = get_member_role t i s" for i t
    unfolding s1 by (simp_all add: get_user_def get_tenant_status_def get_member_role_def)
  show ?thesis
    using assms(4-9) by (simp add: exchange_sso_ticket_def c lk case_prod_beta)
qed

lemma exchanged_is_spent:
  assumes "exchange_sso_ticket E A tk d n s = (Inr tr, s')"
  shows "consume_sso_ticket n' (sha256_hash tk) s' = (None, s')"
proof -
  let ?h = "sha256_hash tk"
  obtain rec u role where e: "ticket_live n ?h s" "dget (sso_tickets s) ?h = Some rec"
    "(tr, s') = issue_login_pair E A u (tk_tenant_id rec) role (u_username u) ''auth.ticket_exchanged'' d n
       (snd (consume_sso_ticket n ?h s))"
    by (rule exchangeE [OF assms])
  have "sso_tickets s' = sso_tickets (snd (consume_sso_ticket n ?h s))"
    using arg_cong [OF e(3), of snd] by (simp add: issue_login_pair_def Let_def)
  then have "dget (sso_tickets s') ?h = Some (rec\<lparr>tk_used_at := Some n\<rparr>)"
    using e(1,2) by (simp add: consume_sso_ticket_def ticket_live_def dget_dset Let_def)
  then show ?thesis by (simp add: consume_sso_ticket_def)
qed

text \<open>
  C30 (safety). An SSO ticket is exchanged once and only by an eligible member. An exchange
  succeeds exactly for an unused, unexpired ticket whose user exists, is not locked out and is
  neither disabled nor locked, in an active tenant it is still a member of. The tokens are
  for that user, that tenant and the role of the membership, the refresh token is on record
  as active, and any later exchange of the same ticket is refused.
\<close>

theorem sso_exchange_once:
  "((\<exists>tr s'. exchange_sso_ticket E A tk d n s = (Inr tr, s')) \<longleftrightarrow>
     (\<exists>rec u role. dget (sso_tickets s) (sha256_hash tk) = Some rec \<and> tk_used_at rec = None \<and>
        n < tk_expires_at rec \<and> get_user (tk_user_id rec) s = Some u \<and> \<not> is_locked u n \<and>
        u_status u \<notin> {''disabled'', ''locked''} \<and> get_tenant_status (tk_tenant_id rec) s = Some ''active'' \<and>
        get_member_role (tk_tenant_id rec) (tk_user_id rec) s = Some role)) \<and>
   (exchange_sso_ticket E A tk d n s = (Inr tr, s') \<longrightarrow>
     (\<exists>rec u role. dget (sso_tickets s) (sha256_hash tk) = Some rec \<and> get_user (tk_user_id rec) s = Some u \<and>
        get_member_role (tk_tenant_id rec) (tk_user_id rec) s = Some role \<and>
        tr_access_token tr = sign E A (u_user_id u) (tk_tenant_id rec) role (as_ttl A) ''access'' (dr_jti d) n \<and>
        tr_refresh_token tr =
          sign E A (u_user_id u) (tk_tenant_id rec) role (as_refresh_ttl A) ''refresh'' (dr_rjti d) n \<and>
        (\<exists>r. get_refresh_token (dr_rjti d) s' = Some r \<and> rt_status r = ''active'' \<and>
           rt_user_id r = u_user_id u \<and> rt_tenant_id r = tk_tenant_id rec)) \<and>
     fst (exchange_sso_ticket E A' tk d' n' s') = Inl (unauthorized ''invalid ticket''))"
proof (intro conjI impI iffI)
  assume "\<exists>tr s'. exchange_sso_ticket E A tk d n s = (Inr tr, s')"
  then obtain tr s' where ex: "exchange_sso_ticket E A tk d n s = (Inr tr, s')" by blast
  show "\<exists>rec u role. dget (sso_tickets s) (sha256_hash tk) = Some rec \<and> tk_used_at rec = None \<and>
      n < tk_expires_at rec \<and> get_user (tk_user_id rec) s = Some u \<and> \<not> is_locked u n \<and>
      u_status u \<notin> {''disabled'', ''locked''} \<and> get_tenant_status (tk_tenant_id rec) s = Some ''active'' \<and>
      get_member_role (tk_tenant_id rec) (tk_user_id rec) s = Some role"
    by (rule exchangeE [OF ex]) (simp add: ticket_live_def)
next
  assume "\<exists>rec u role. dget (sso_tickets s) (sha256_hash tk) = Some rec \<and> tk_used_at rec = None \<and>
      n < tk_expires_at rec \<and> get_user (tk_user_id rec) s = Some u \<and> \<not> is_locked u n \<and>
      u_status u \<notin> {''disabled'', ''locked''} \<and> get_tenant_status (tk_tenant_id rec) s = Some ''active'' \<and>
      get_member_role (tk_tenant_id rec) (tk_user_id rec) s = Some role"
  then show "\<exists>tr s'. exchange_sso_ticket E A tk d n s = (Inr tr, s')"
    by (elim exE conjE) (rule exchange_succeeds; auto)
next
  assume ex: "exchange_sso_ticket E A tk d n s = (Inr tr, s')"
  show "\<exists>rec u role. dget (sso_tickets s) (sha256_hash tk) = Some rec \<and> get_user (tk_user_id rec) s = Some u \<and>
      get_member_role (tk_tenant_id rec) (tk_user_id rec) s = Some role \<and>
      tr_access_token tr = sign E A (u_user_id u) (tk_tenant_id rec) role (as_ttl A) ''access'' (dr_jti d) n \<and>
      tr_refresh_token tr =
        sign E A (u_user_id u) (tk_tenant_id rec) role (as_refresh_ttl A) ''refresh'' (dr_rjti d) n \<and>
      (\<exists>r. get_refresh_token (dr_rjti d) s' = Some r \<and> rt_status r = ''active'' \<and>
         rt_user_id r = u_user_id u \<and> rt_tenant_id r = tk_tenant_id rec)"
    by (rule exchangeE [OF ex]) (simp add: issue_login_pair_tokens)
  show "fst (exchange_sso_ticket E A' tk d' n' s') = Inl (unauthorized ''invalid ticket'')"
    by (simp add: exchange_sso_ticket_def exchanged_is_spent [OF ex])
qed

lemma demo_member: "get_member_role ''default'' ''usr_admin'' demo_boot = Some ''tenant_admin''"
  by (simp add: demo_boot_def bootstrap_def is_empty_tenants_def create_tenant_def JOIN_POLICIES_def
      create_user_def hash_password_def add_member_def is_valid_role_def builtin_role_iff Let_def demo_empty
      get_member_role_def dget_dset)

theorem sso_exchange_once_witness:
  "let s = snd (issue_sso_ticket demo_env demo_service ''usr_admin'' ''default'' ''tenant_admin'' ''x'' 10 demo_boot)
   in \<exists>tr s'. exchange_sso_ticket demo_env demo_service ''fsso_x'' demo_draws 20 s = (Inr tr, s') \<and>
        fst (exchange_sso_ticket demo_env demo_service ''fsso_x'' demo_draws 21 s') = Inl (unauthorized ''invalid ticket'')"
proof -
  define h where "h = sha256_hash ''fsso_x''"
  obtain u where u: "dget (users demo_boot) ''usr_admin'' = Some u" "may_log_in demo_service u" "u_locked_until u = None"
    by (rule demo_admin) blast
  let ?s = "snd (issue_sso_ticket demo_env demo_service ''usr_admin'' ''default'' ''tenant_admin'' ''x'' 10 demo_boot)"
  have t: "dget (sso_tickets ?s) h = Some \<lparr>tk_ticket_hash = h, tk_user_id = ''usr_admin'', tk_tenant_id = ''default'',
      tk_expires_at = 70, tk_used_at = None, tk_created_at = 10\<rparr>"
    by (simp add: issue_sso_ticket_def create_sso_ticket_def Let_def h_def dget_dset demo_service_def AuthService_def)
  have tb: "users ?s = users demo_boot" "tenants ?s = tenants demo_boot" "members ?s = members demo_boot"
    by (simp_all add: issue_sso_ticket_def create_sso_ticket_def Let_def)
  have lk: "get_user i ?s = get_user i demo_boot" "get_tenant_status t ?s = get_tenant_status t demo_boot"
    "get_member_role t i ?s = get_member_role t i demo_boot" for i t
    using tb by (simp_all add: get_user_def get_tenant_status_def get_member_role_def)
  have "\<exists>tr s'. exchange_sso_ticket demo_env demo_service ''fsso_x'' demo_draws 20 ?s = (Inr tr, s')"
    by (rule exchange_succeeds [OF t [unfolded h_def], of _ u])
      (use u demo_tenant_active demo_member in
        \<open>simp_all add: lk tb get_user_def is_locked_def may_log_in_def\<close>)
  then obtain tr s' where e: "exchange_sso_ticket demo_env demo_service ''fsso_x'' demo_draws 20 ?s = (Inr tr, s')" by blast
  from sso_exchange_once [of demo_env demo_service "''fsso_x''" demo_draws 20 ?s tr s' demo_service demo_draws 21] e
  show ?thesis by (auto simp: Let_def)
qed

section \<open>The whole service\<close>

text \<open>One operation of the service, with any configuration, request, draws and clock.\<close>

inductive auth_step :: "auth_env \<Rightarrow> store \<Rightarrow> store \<Rightarrow> bool" for E where
  login: "auth_step E s (snd (login E A req sk d n s))"
| issue_sso_ticket: "auth_step E s (snd (issue_sso_ticket E A u t r rd n s))"
| exchange_sso_ticket: "auth_step E s (snd (exchange_sso_ticket E A tk d n s))"
| verify: "auth_step E s (snd (verify E A tk n s))"
| introspect: "auth_step E s (snd (introspect E A tk n s))"
| resolve_bearer_claims: "auth_step E s (snd (resolve_bearer_claims E A h n s))"
| issue_session_token: "auth_step E s (snd (issue_session_token E A su t r tt j n s))"
| verify_session_token: "auth_step E s (snd (verify_session_token E A tk n s))"
| revoke_user_sessions_and_tokens: "auth_step E s (snd (revoke_user_sessions_and_tokens E su t n s))"
| refresh: "auth_step E s (snd (refresh E A tk d n s))"
| revoke: "auth_step E s (snd (revoke E j t ou n s))"
| logout: "auth_step E s (logout E A c rt n s)"
| change_password: "auth_step E s (snd (change_password E u op np t sa n s))"
| enroll_mfa: "auth_step E s (snd (enroll_mfa E A u raw no n s))"
| verify_mfa: "auth_step E s (snd (verify_mfa E A u co me n s))"
| delete_mfa: "auth_step E s (snd (auth_delete_mfa u me s))"
| bootstrap: "auth_step E s (snd (bootstrap E ou' op' ex sa n s))"

text \<open>A run interleaves operations of the service with operations on the store itself.\<close>

inductive service_reachable :: "auth_env \<Rightarrow> store \<Rightarrow> bool" for E where
  start: "service_reachable E empty_store"
| service: "service_reachable E s \<Longrightarrow> auth_step E s s' \<Longrightarrow> service_reachable E s'"
| store: "service_reachable E s \<Longrightarrow> store_step (env_kdf E) (env_fr E) s s' \<Longrightarrow> service_reachable E s'"

lemma auth_step_live:
  assumes "live E s" "auth_step E s s'"
  shows "live E s'"
  using assms(2) by cases (simp_all add: auth_reach assms(1))

lemma service_reachable_live: "service_reachable E s \<Longrightarrow> live E s"
proof (induction rule: service_reachable.induct)
  case start
  show ?case by (rule reachable.init)
next
  case (service s s')
  then show ?case by (blast intro: auth_step_live)
next
  case (store s s')
  then show ?case by (blast intro: reachable.step)
qed

text \<open>
  C11 (invariant). Whatever requests arrive in whatever order, interleaved with direct
  operations on the store, the store invariant holds: dictionaries without duplicate keys,
  roles that resolve, an API-key index that leads to live keys, one current secret per
  application, refresh tokens with one of three statuses, audit chains that link, and users
  filed under their own id.
\<close>

theorem service_keeps_invariant:
  assumes "service_reachable E s"
  shows "store_inv (env_fr E) s \<and> users_keyed s"
  using reachable_inv reachable_users_keyed service_reachable_live [OF assms] by blast

theorem service_keeps_invariant_witness:
  "store_inv demo_fr (snd (login demo_env demo_service demo_request False demo_draws 10 demo_boot))"
proof -
  have "service_reachable demo_env (snd (login demo_env demo_service demo_request False demo_draws 10 demo_boot))"
    unfolding demo_boot_def
    by (rule service_reachable.service [OF service_reachable.service [OF service_reachable.start auth_step.bootstrap]
          auth_step.login])
  from service_keeps_invariant [OF this] show ?thesis by simp
qed

end
