(* ===== verification/Json.thy ===== *)
theory Json
  imports Hashing
begin

text \<open>
  The text form of JSON as the program uses it beyond the hash chain: \<open>json.dumps(v)\<close> with its
  default separators writes cache entries and webhook bodies, \<open>json.loads\<close> reads cache entries
  back. The reader follows the grammar of Python's scanner on code points below 256; an
  escape for a code point above 255 has no counterpart in these strings and is refused. The
  literals \<open>NaN\<close> and \<open>Infinity\<close>, which the program never writes, are refused too, and the limit
  of Python on the number of digits of an integer is not modelled. The
  conversions between floats and decimals are the arguments \<open>frepr\<close> and \<open>fparse\<close>.

  The fuel of the reader is twice the length of the text. \<open>loads_dumps\<close> shows that this is
  enough for every value without floats: reading gives back the value written.
\<close>

section \<open>Writing\<close>

fun dumps_default :: "(real \<Rightarrow> string) \<Rightarrow> json \<Rightarrow> string" where
  "dumps_default frepr JNull = ''null''"
| "dumps_default frepr (JBool b) = (if b then ''true'' else ''false'')"
| "dumps_default frepr (JInt i) = int_repr i"
| "dumps_default frepr (JFloat x) = frepr x"
| "dumps_default frepr (JStr s) = json_str s"
| "dumps_default frepr (JArr xs) = ''['' @ join '', '' (map (dumps_default frepr) xs) @ '']''"
| "dumps_default frepr (JObj kvs) =
     ''{'' @ join '', '' (map (\<lambda>(k, v). json_str k @ '': '' @ dumps_default frepr v) kvs) @ ''}''"

section \<open>Reading\<close>

definition is_digit :: "char \<Rightarrow> bool" where
  "is_digit c \<longleftrightarrow> 48 \<le> (of_char c :: nat) \<and> (of_char c :: nat) \<le> 57"

definition json_ws :: "char \<Rightarrow> bool" where
  "json_ws c \<longleftrightarrow> (of_char c :: nat) \<in> {9, 10, 13, 32}"

definition skip_ws :: "string \<Rightarrow> string" where
  "skip_ws s = dropWhile json_ws s"

definition hex_val :: "char \<Rightarrow> nat option" where
  "hex_val c = (let n = of_char c :: nat in
     if 48 \<le> n \<and> n \<le> 57 then Some (n - 48)
     else if 97 \<le> n \<and> n \<le> 102 then Some (n - 87)
     else if 65 \<le> n \<and> n \<le> 70 then Some (n - 55) else None)"

definition hex4 :: "char \<Rightarrow> char \<Rightarrow> char \<Rightarrow> char \<Rightarrow> char option" where
  "hex4 a b c d =
    (case (hex_val a, hex_val b, hex_val c, hex_val d) of
       (Some a', Some b', Some c', Some d') \<Rightarrow>
         if a' = 0 \<and> b' = 0 then Some (char_of (16 * c' + d')) else None
     | _ \<Rightarrow> None)"

definition unescape :: "char \<Rightarrow> char option" where
  "unescape e =
    (if e \<in> {CHR 0x22, CHR 0x5C, CHR ''/''} then Some e
     else if e = CHR ''n'' then Some (CHR 0x0A) else if e = CHR ''r'' then Some (CHR 0x0D)
     else if e = CHR ''t'' then Some (CHR 0x09) else if e = CHR ''f'' then Some (CHR 0x0C)
     else if e = CHR ''b'' then Some (CHR 0x08) else None)"

definition consd :: "char \<Rightarrow> (string \<times> string) option \<Rightarrow> (string \<times> string) option" where
  "consd c r = map_option (\<lambda>(s, rest). (c # s, rest)) r"

text \<open>The body of a string literal after its opening quote; a control character is refused.\<close>

fun str_body :: "string \<Rightarrow> (string \<times> string) option" where
  "str_body [] = None"
| "str_body (c # cs) =
    (if c = CHR 0x22 then Some ([], cs)
     else if c = CHR 0x5C then
       (case cs of
          [] \<Rightarrow> None
        | e # r1 \<Rightarrow>
            if e = CHR ''u'' then
              (case r1 of
                 x # y # z # w # r2 \<Rightarrow>
                   (case hex4 x y z w of None \<Rightarrow> None | Some ch \<Rightarrow> consd ch (str_body r2))
               | _ \<Rightarrow> None)
            else (case unescape e of None \<Rightarrow> None | Some ch \<Rightarrow> consd ch (str_body r1)))
     else if (of_char c :: nat) < 32 then None
     else consd c (str_body cs))"

fun digits_val :: "int \<Rightarrow> string \<Rightarrow> int" where
  "digits_val acc [] = acc"
| "digits_val acc (c # cs) = digits_val (10 * acc + (of_char c - 48)) cs"

definition int_part :: "string \<Rightarrow> (string \<times> string) option" where
  "int_part s =
    (case s of
       [] \<Rightarrow> None
     | c # cs \<Rightarrow>
         if c = CHR ''0'' then Some (''0'', cs)
         else if is_digit c then Some (takeWhile is_digit s, dropWhile is_digit s)
         else None)"

definition frac_part :: "string \<Rightarrow> string \<times> string" where
  "frac_part s =
    (case s of
       c # d # cs \<Rightarrow>
         if c = CHR ''.'' \<and> is_digit d
         then (c # takeWhile is_digit (d # cs), dropWhile is_digit (d # cs)) else ([], s)
     | _ \<Rightarrow> ([], s))"

definition exp_part :: "string \<Rightarrow> string \<times> string" where
  "exp_part s =
    (case s of
       c # d # cs \<Rightarrow>
         if c \<in> {CHR ''e'', CHR ''E''} then
           if is_digit d then (c # takeWhile is_digit (d # cs), dropWhile is_digit (d # cs))
           else if d \<in> {CHR ''+'', CHR ''-''} \<and> cs \<noteq> [] \<and> is_digit (hd cs)
           then (c # d # takeWhile is_digit cs, dropWhile is_digit cs)
           else ([], s)
         else ([], s)
     | _ \<Rightarrow> ([], s))"

definition number :: "(string \<Rightarrow> real) \<Rightarrow> string \<Rightarrow> (json \<times> string) option" where
  "number fparse s =
    (let neg = (s \<noteq> [] \<and> hd s = CHR ''-'');
         s1 = (if neg then tl s else s)
     in case int_part s1 of
          None \<Rightarrow> None
        | Some (i, s2) \<Rightarrow>
            let (f, s3) = frac_part s2; (e, s4) = exp_part s3
            in if f = [] \<and> e = []
               then Some (JInt (if neg then - digits_val 0 i else digits_val 0 i), s4)
               else Some (JFloat (fparse ((if neg then ''-'' else []) @ i @ f @ e)), s4))"

text \<open>A value, the elements of an array and the members of an object.\<close>

fun jvalue :: "(string \<Rightarrow> real) \<Rightarrow> nat \<Rightarrow> string \<Rightarrow> (json \<times> string) option"
and jelems :: "(string \<Rightarrow> real) \<Rightarrow> nat \<Rightarrow> json list \<Rightarrow> string \<Rightarrow> (json \<times> string) option"
and jmembers ::
  "(string \<Rightarrow> real) \<Rightarrow> nat \<Rightarrow> (string, json) dict \<Rightarrow> string \<Rightarrow> (json \<times> string) option" where
  "jvalue fp 0 s = None"
| "jvalue fp (Suc n) s =
    (case s of
       [] \<Rightarrow> None
     | c # cs \<Rightarrow>
         if c = CHR 0x22 then map_option (\<lambda>(x, r). (JStr x, r)) (str_body cs)
         else if c = CHR ''{'' then
           (case skip_ws cs of
              [] \<Rightarrow> None
            | d # r \<Rightarrow> if d = CHR ''}'' then Some (JObj [], r) else jmembers fp n [] (d # r))
         else if c = CHR ''['' then
           (case skip_ws cs of
              [] \<Rightarrow> None
            | d # r \<Rightarrow> if d = CHR '']'' then Some (JArr [], r) else jelems fp n [] (d # r))
         else if startswith s ''null'' then Some (JNull, drop 4 s)
         else if startswith s ''true'' then Some (JBool True, drop 4 s)
         else if startswith s ''false'' then Some (JBool False, drop 5 s)
         else number fp s)"
| "jelems fp 0 acc s = None"
| "jelems fp (Suc n) acc s =
    (case jvalue fp n s of
       None \<Rightarrow> None
     | Some (x, r) \<Rightarrow>
         (case skip_ws r of
            [] \<Rightarrow> None
          | d # r1 \<Rightarrow>
              if d = CHR '']'' then Some (JArr (acc @ [x]), r1)
              else if d = CHR '','' then jelems fp n (acc @ [x]) (skip_ws r1)
              else None))"
| "jmembers fp 0 acc s = None"
| "jmembers fp (Suc n) acc s =
    (case s of
       [] \<Rightarrow> None
     | c # cs \<Rightarrow>
         if c \<noteq> CHR 0x22 then None
         else case str_body cs of
           None \<Rightarrow> None
         | Some (k, r) \<Rightarrow>
             (case skip_ws r of
                [] \<Rightarrow> None
              | d # r1 \<Rightarrow>
                  if d \<noteq> CHR '':'' then None
                  else case jvalue fp n (skip_ws r1) of
                    None \<Rightarrow> None
                  | Some (x, r2) \<Rightarrow>
                      (case skip_ws r2 of
                         [] \<Rightarrow> None
                       | e # r3 \<Rightarrow>
                           if e = CHR ''}'' then Some (JObj (dset k x acc), r3)
                           else if e = CHR '','' then jmembers fp n (dset k x acc) (skip_ws r3)
                           else None)))"

definition loads :: "(string \<Rightarrow> real) \<Rightarrow> string \<Rightarrow> json option" where
  "loads fparse s =
    (case jvalue fparse (2 * length s) (skip_ws s) of
       None \<Rightarrow> None
     | Some (x, r) \<Rightarrow> if skip_ws r = [] then Some x else None)"

section \<open>Reading back what was written\<close>

text \<open>Values a Python \<open>dict\<close> of strings, integers, booleans and lists gives rise to.\<close>

fun plain_json :: "json \<Rightarrow> bool" where
  "plain_json (JFloat x) = False"
| "plain_json (JArr xs) = list_all plain_json xs"
| "plain_json (JObj kvs) = (dict_wf kvs \<and> list_all (\<lambda>(k, v). plain_json v) kvs)"
| "plain_json _ = True"

text \<open>Fuel that reading a written value needs.\<close>

fun jfuel :: "json \<Rightarrow> nat" where
  "jfuel (JArr xs) = Suc (foldr (\<lambda>x n. Suc (max (jfuel x) n)) xs 0)"
| "jfuel (JObj kvs) = Suc (foldr (\<lambda>kv n. Suc (max (case kv of (k, v) \<Rightarrow> jfuel v) n)) kvs 0)"
| "jfuel _ = 1"

subsection \<open>Numbers\<close>

lemma of_char_digit: "d < 10 \<Longrightarrow> of_char (char_of (48 + d :: nat)) = (48 + d :: nat)"
  by simp

lemma of_char_digit_int: "d < 10 \<Longrightarrow> of_char (char_of (48 + d :: nat)) = (48 + int d)"
  by (metis of_char_digit of_nat_add of_nat_numeral of_nat_of_char)

lemma digits_val_snoc: "digits_val acc (xs @ [c]) = 10 * digits_val acc xs + (of_char c - 48)"
  by (induction acc xs rule: digits_val.induct) auto

lemma digits_val_nat_repr: "digits_val 0 (nat_repr n) = int n"
proof (induction n rule: nat_repr.induct)
  case (1 n)
  show ?case
  proof (cases "n < 10")
    case True
    then show ?thesis by (subst nat_repr.simps) (simp add: of_char_digit_int)
  next
    case False
    then have "digits_val 0 (nat_repr (n div 10)) = int (n div 10)" using 1 by simp
    with False show ?thesis
      by (subst nat_repr.simps) (simp add: digits_val_snoc of_char_digit_int zdiv_int zmod_int)
  qed
qed

lemma is_digit_char_of: "d < 10 \<Longrightarrow> is_digit (char_of (48 + d :: nat))"
  by (simp add: is_digit_def)

lemma nat_repr_digits: "list_all is_digit (nat_repr n)"
  by (induction n rule: nat_repr.induct) (subst nat_repr.simps, simp add: is_digit_char_of)

lemma nat_repr_not_Nil [simp]: "nat_repr n \<noteq> []"
  by (subst nat_repr.simps) simp

lemma nat_repr_0: "nat_repr 0 = ''0''"
  by code_simp

lemma hd_nat_repr: "0 < n \<Longrightarrow> hd (nat_repr n) \<noteq> CHR ''0''"
proof (induction n rule: nat_repr.induct)
  case (1 n)
  show ?case
  proof (cases "n < 10")
    case True
    then have "of_char (char_of (48 + n :: nat)) \<noteq> (of_char (CHR ''0'') :: nat)" using 1(2) by simp
    with True show ?thesis by (subst nat_repr.simps) (metis list.sel(1))
  next
    case False
    with 1 show ?thesis by (subst nat_repr.simps) simp
  qed
qed

definition num_delim :: "string \<Rightarrow> bool" where
  "num_delim rest \<longleftrightarrow>
    (rest = [] \<or> \<not> is_digit (hd rest) \<and> hd rest \<notin> {CHR ''.'', CHR ''e'', CHR ''E''})"

lemma num_delim_parts:
  assumes "num_delim rest"
  shows "frac_part rest = ([], rest)" "exp_part rest = ([], rest)"
  using assms by (auto simp: num_delim_def frac_part_def exp_part_def split: list.split)

lemma takeWhile_all_append:
  assumes "list_all P xs" "ys = [] \<or> \<not> P (hd ys)"
  shows "takeWhile P (xs @ ys) = xs" "dropWhile P (xs @ ys) = ys"
  using assms by (induction xs) (cases ys; auto)+

lemma int_part_nat_repr:
  assumes "num_delim rest"
  shows "int_part (nat_repr n @ rest) = Some (nat_repr n, rest)"
proof (cases "n = 0")
  case True
  then show ?thesis by (simp add: nat_repr_0 int_part_def)
next
  case False
  obtain c cs where c: "nat_repr n = c # cs" by (cases "nat_repr n") auto
  have "c \<noteq> CHR ''0''" "is_digit c"
    using hd_nat_repr [of n] False nat_repr_digits [of n] c by simp_all
  moreover have "rest = [] \<or> \<not> is_digit (hd rest)" using assms by (auto simp: num_delim_def)
  ultimately show ?thesis
    using takeWhile_all_append [OF nat_repr_digits, of rest n] c by (simp add: int_part_def)
qed

lemma digit_not_minus: "is_digit c \<Longrightarrow> c \<noteq> CHR ''-''"
  by (auto simp: is_digit_def)

lemma number_int_repr:
  assumes "num_delim rest"
  shows "number fp (int_repr i @ rest) = Some (JInt i, rest)"
proof -
  have d: "hd (nat_repr n @ rest) \<noteq> CHR ''-''" for n
    using nat_repr_digits [of n] by (cases "nat_repr n") (auto dest: digit_not_minus)
  show ?thesis
    using d [of "nat i"] int_part_nat_repr [OF assms] num_delim_parts [OF assms]
    by (auto simp: number_def int_repr_def digits_val_nat_repr Let_def)
qed

subsection \<open>Strings\<close>

lemma of_char_int: "(of_char c :: int) = int (of_char c)"
  by (simp only: of_nat_of_char)

lemma of_char_char_of_int: "(of_char (char_of (int n)) :: nat) = n mod 256"
proof -
  have "int (of_char (char_of (int n))) = int (n mod 256)"
    by (simp only: of_nat_of_char of_char_of zmod_int of_nat_numeral)
  then show ?thesis by (simp only: of_nat_eq_iff)
qed

lemma of_char_hex_digit:
  assumes "m < 16"
  shows "(of_char (hex_digit (int m)) :: nat) = (if m < 10 then 48 + m else 87 + m)"
  using assms of_char_char_of_int [of "48 + m"] of_char_char_of_int [of "87 + m"]
  by (simp add: hex_digit_def)

lemma hex_val_hex_digit: "m < 16 \<Longrightarrow> hex_val (hex_digit (int m)) = Some m"
  unfolding hex_val_def Let_def by (simp add: of_char_hex_digit)

lemma hex4_char:
  "hex4 (CHR ''0'') (CHR ''0'') (hex_digit (of_char c div 16)) (hex_digit (of_char c mod 16)) = Some c"
proof -
  define n where "n = (of_char c :: nat)"
  have n: "n < 256" "of_char c = int n" "char_of n = c"
    using nat_of_char_less_256 [of c] of_char_int [of c] by (simp_all only: n_def char_of_char)
  have "hex_val (hex_digit (int n div 16)) = Some (n div 16)"
    "hex_val (hex_digit (int n mod 16)) = Some (n mod 16)"
    using hex_val_hex_digit [of "n div 16"] hex_val_hex_digit [of "n mod 16"] n(1)
    by (simp_all add: zdiv_int zmod_int)
  moreover have "hex_val (CHR ''0'') = Some 0" by (simp add: hex_val_def)
  ultimately show ?thesis using n by (simp add: hex4_def)
qed

lemma json_char_other:
  assumes "c \<notin> {CHR 0x22, CHR 0x5C, CHR 0x0A, CHR 0x0D, CHR 0x09, CHR 0x0C, CHR 0x08}"
  shows "json_char c = (if 32 \<le> (of_char c :: int) \<and> (of_char c :: int) \<le> 126 then [c]
     else [CHR 0x5C, CHR ''u'', CHR ''0'', CHR ''0'', hex_digit (of_char c div 16), hex_digit (of_char c mod 16)])"
proof -
  have v: "of_char (CHR 0x22) = (34 :: int)" "of_char (CHR 0x5C) = (92 :: int)"
    "of_char (CHR 0x0A) = (10 :: int)" "of_char (CHR 0x0D) = (13 :: int)"
    "of_char (CHR 0x09) = (9 :: int)" "of_char (CHR 0x0C) = (12 :: int)" "of_char (CHR 0x08) = (8 :: int)"
    by simp_all
  have "(of_char c :: int) \<noteq> of_char d" if "d \<in> {CHR 0x22, CHR 0x5C, CHR 0x0A, CHR 0x0D, CHR 0x09, CHR 0x0C, CHR 0x08}" for d
    using assms that by (metis of_char_eq_iff)
  from this [of "CHR 0x22"] this [of "CHR 0x5C"] this [of "CHR 0x0A"] this [of "CHR 0x0D"]
    this [of "CHR 0x09"] this [of "CHR 0x0C"] this [of "CHR 0x08"]
  have "(of_char c :: int) \<noteq> 34" "(of_char c :: int) \<noteq> 92" "(of_char c :: int) \<noteq> 10"
    "(of_char c :: int) \<noteq> 13" "(of_char c :: int) \<noteq> 9" "(of_char c :: int) \<noteq> 12" "(of_char c :: int) \<noteq> 8"
    unfolding v by blast+
  then show ?thesis unfolding json_char_def Let_def by (simp only: if_False)
qed

lemma json_char_escapes:
  "json_char (CHR 0x22) = [CHR 0x5C, CHR 0x22]" "json_char (CHR 0x5C) = [CHR 0x5C, CHR 0x5C]"
  "json_char (CHR 0x0A) = [CHR 0x5C, CHR ''n'']" "json_char (CHR 0x0D) = [CHR 0x5C, CHR ''r'']"
  "json_char (CHR 0x09) = [CHR 0x5C, CHR ''t'']" "json_char (CHR 0x0C) = [CHR 0x5C, CHR ''f'']"
  "json_char (CHR 0x08) = [CHR 0x5C, CHR ''b'']"
  by code_simp+

lemma str_body_json_char: "str_body (json_char c @ r) = consd c (str_body r)"
proof (cases "c \<in> {CHR 0x22, CHR 0x5C, CHR 0x0A, CHR 0x0D, CHR 0x09, CHR 0x0C, CHR 0x08}")
  case True
  then show ?thesis by (elim insertE emptyE) (simp_all add: json_char_escapes unescape_def)
next
  case False
  then have "c \<noteq> CHR 0x22" "c \<noteq> CHR 0x5C" by blast+
  then show ?thesis
    using hex4_char [of c] unfolding json_char_other [OF False] of_char_int by simp
qed

lemma str_body_json_str: "str_body (concat (map json_char s) @ CHR 0x22 # rest) = Some (s, rest)"
  by (induction s) (simp_all add: str_body_json_char consd_def)

lemma jvalue_json_str: "jvalue fp (Suc n) (json_str s @ rest) = Some (JStr s, rest)"
  by (simp add: json_str_def str_body_json_str)

subsection \<open>Values\<close>

lemma skip_ws_Cons: "\<not> json_ws c \<Longrightarrow> skip_ws (c # cs) = c # cs"
  by (simp add: skip_ws_def)

lemma skip_ws_space: "skip_ws (CHR '' '' # cs) = skip_ws cs"
  by (simp add: skip_ws_def json_ws_def)

text \<open>No value starts with white space or with a closing bracket.\<close>

lemma int_repr_first: "\<exists>c cs. int_repr i = c # cs \<and> (c = CHR ''-'' \<or> is_digit c)"
proof -
  have "\<exists>c cs. nat_repr n = c # cs \<and> is_digit c" for n
    using nat_repr_digits [of n] by (cases "nat_repr n") auto
  then show ?thesis by (cases "i < 0") (simp add: int_repr_def, metis int_repr_def)
qed

lemma value_first_ex:
  assumes "plain_json j"
  shows "\<exists>c cs. dumps_default fr j = c # cs \<and> \<not> json_ws c \<and> c \<noteq> CHR '']'' \<and> c \<noteq> CHR ''}''"
proof (cases j)
  case (JInt i)
  obtain c cs where i: "int_repr i = c # cs" and c: "c = CHR ''-'' \<or> is_digit c"
    using int_repr_first by blast
  have "\<not> json_ws c \<and> c \<noteq> CHR '']'' \<and> c \<noteq> CHR ''}''"
    using c by (auto simp: is_digit_def json_ws_def)
  with i JInt show ?thesis by simp
qed (use assms in \<open>simp_all add: json_str_def json_ws_def\<close>)

lemma value_first:
  assumes "plain_json j"
  obtains c cs where "dumps_default fr j = c # cs" "\<not> json_ws c" "c \<noteq> CHR '']''" "c \<noteq> CHR ''}''"
  using value_first_ex [OF assms] by blast

lemma jvalue_int_repr:
  assumes "num_delim rest"
  shows "jvalue fp (Suc n) (int_repr i @ rest) = Some (JInt i, rest)"
proof -
  obtain c cs where i: "int_repr i = c # cs" and c: "c = CHR ''-'' \<or> is_digit c"
    using int_repr_first by blast
  have "c \<notin> {CHR 0x22, CHR ''{'', CHR ''['', CHR ''n'', CHR ''t'', CHR ''f''}"
    using c by (auto simp: is_digit_def)
  then show ?thesis
    using number_int_repr [OF assms, of fp i] by (simp add: i startswith_def)
qed

lemma num_delim_sep [simp]:
  "num_delim []" "num_delim (CHR '','' # cs)" "num_delim (CHR '']'' # cs)" "num_delim (CHR ''}'' # cs)"
  by (simp_all add: num_delim_def is_digit_def)

lemma join_Cons: "join sep (x # xs) = (if xs = [] then x else x @ sep @ join sep xs)"
  by (cases xs) auto

lemma join_first:
  assumes "xs \<noteq> []" "list_all plain_json xs"
  shows "\<exists>c cs. join sep (map (dumps_default fr) xs) = c # cs \<and> \<not> json_ws c \<and> c \<noteq> CHR '']''"
proof -
  obtain y ys where xs: "xs = y # ys" using assms(1) by (cases xs) auto
  with assms(2) have "plain_json y" by simp
  from value_first_ex [OF this, of fr] show ?thesis by (auto simp: xs join_Cons)
qed

lemma jelems_dumps:
  assumes "xs \<noteq> []" "list_all plain_json xs"
    and "foldr (\<lambda>x n. Suc (max (jfuel x) n)) xs 0 \<le> n"
    and "\<And>x m r. x \<in> set xs \<Longrightarrow> jfuel x \<le> m \<Longrightarrow> num_delim r
      \<Longrightarrow> jvalue fp m (dumps_default fr x @ r) = Some (x, r)"
  shows "jelems fp n acc (join '', '' (map (dumps_default fr) xs) @ '']'' @ rest) = Some (JArr (acc @ xs), rest)"
  using assms
proof (induction xs arbitrary: n acc)
  case Nil
  then show ?case by simp
next
  case (Cons x xs)
  obtain m where n: "n = Suc m" and m: "jfuel x \<le> m" "foldr (\<lambda>x n. Suc (max (jfuel x) n)) xs 0 \<le> m"
    using Cons.prems(3) by (cases n) auto
  have v: "num_delim r \<Longrightarrow> jvalue fp m (dumps_default fr x @ r) = Some (x, r)" for r
    using Cons.prems(4) [OF _ m(1)] by simp
  show ?case
  proof (cases "xs = []")
    case True
    then show ?thesis using v [of "CHR '']'' # rest"] by (simp add: n skip_ws_Cons json_ws_def)
  next
    case False
    have p: "list_all plain_json xs" using Cons.prems(2) by simp
    obtain c cs where c: "join '', '' (map (dumps_default fr) xs) @ '']'' @ rest = c # cs" "\<not> json_ws c"
      using join_first [OF False p, of "'', ''" fr] by auto
    have "jelems fp m (acc @ [x]) (c # cs) = Some (JArr ((acc @ [x]) @ xs), rest)"
      unfolding c(1) [symmetric]
      by (rule Cons.IH [OF False p m(2)]) (rule Cons.prems(4), simp_all)
    moreover have "jelems fp (Suc m) acc (dumps_default fr x @ CHR '','' # CHR '' '' # c # cs)
      = jelems fp m (acc @ [x]) (c # cs)"
      using c(2) by (simp add: v skip_ws_space skip_ws_Cons [of "CHR '',''"] skip_ws_Cons [of c] json_ws_def)
    moreover have "join '', '' (map (dumps_default fr) (x # xs)) @ '']'' @ rest
      = dumps_default fr x @ CHR '','' # CHR '' '' # c # cs"
      using c(1) False by (simp add: join_Cons)
    ultimately show ?thesis unfolding n by simp
  qed
qed

abbreviation member_text :: "(real \<Rightarrow> string) \<Rightarrow> string \<times> json \<Rightarrow> string" where
  "member_text fr \<equiv> \<lambda>(k, v). json_str k @ '': '' @ dumps_default fr v"

lemma str_body_key: "str_body (concat (map json_char k) @ CHR 0x22 # r) = Some (k, r)"
  by (rule str_body_json_str)

lemma jmembers_step:
  assumes "plain_json v" "jvalue fp m (dumps_default fr v @ r) = Some (v, r)"
  shows "jmembers fp (Suc m) acc (member_text fr (k, v) @ r) =
    (case skip_ws r of
       [] \<Rightarrow> None
     | e # r3 \<Rightarrow>
         if e = CHR ''}'' then Some (JObj (dset k v acc), r3)
         else if e = CHR '','' then jmembers fp m (dset k v acc) (skip_ws r3) else None)"
proof -
  obtain c cs where c: "dumps_default fr v = c # cs" "\<not> json_ws c" using value_first [OF assms(1)] by blast
  have "skip_ws (CHR '' '' # dumps_default fr v @ r) = dumps_default fr v @ r"
    using c by (simp add: skip_ws_space skip_ws_Cons)
  then show ?thesis
    using assms(2) by (simp add: json_str_def str_body_key skip_ws_Cons [of "CHR '':''"] json_ws_def)
qed

lemma jmembers_dumps:
  assumes "kvs \<noteq> []" "list_all (\<lambda>(k, v). plain_json v) kvs" "dict_wf (acc @ kvs)"
    and "foldr (\<lambda>kv n. Suc (max (case kv of (k, v) \<Rightarrow> jfuel v) n)) kvs 0 \<le> n"
    and "\<And>k v m r. (k, v) \<in> set kvs \<Longrightarrow> jfuel v \<le> m \<Longrightarrow> num_delim r
      \<Longrightarrow> jvalue fp m (dumps_default fr v @ r) = Some (v, r)"
  shows "jmembers fp n acc (join '', '' (map (member_text fr) kvs) @ ''}'' @ rest) = Some (JObj (acc @ kvs), rest)"
  using assms
proof (induction kvs arbitrary: n acc)
  case Nil
  then show ?case by simp
next
  case (Cons kv kvs)
  obtain k v where kv: "kv = (k, v)" by (cases kv)
  obtain m where n: "n = Suc m" and m: "jfuel v \<le> m"
      "foldr (\<lambda>kv n. Suc (max (case kv of (k, v) \<Rightarrow> jfuel v) n)) kvs 0 \<le> m"
    using Cons.prems(4) kv by (cases n) auto
  have pv: "plain_json v" and p: "list_all (\<lambda>(k, v). plain_json v) kvs" using Cons.prems(2) kv by simp_all
  have acc: "dset k v acc = acc @ [(k, v)]" using Cons.prems(3) kv by (intro dset_append) auto
  have step: "jmembers fp (Suc m) acc (member_text fr (k, v) @ e # r3) =
     (if e = CHR ''}'' then Some (JObj (acc @ [(k, v)]), r3)
      else if e = CHR '','' then jmembers fp m (acc @ [(k, v)]) (skip_ws r3) else None)"
    if "e \<in> {CHR ''}'', CHR '',''}" for e r3
  proof -
    have "num_delim (e # r3)" using that by auto
    from jmembers_step [OF pv Cons.prems(5) [OF _ m(1) this], of k acc] kv that show ?thesis
      by (auto simp: acc skip_ws_Cons json_ws_def)
  qed
  show ?case
  proof (cases "kvs = []")
    case True
    then show ?thesis using step [of "CHR ''}''" rest] by (simp add: n kv)
  next
    case False
    then obtain k' v' kvs' where kvs: "kvs = (k', v') # kvs'" by (cases kvs) auto
    define tl where "tl = join '', '' (map (member_text fr) kvs) @ ''}'' @ rest"
    have "skip_ws (CHR '' '' # tl) = tl"
      by (simp add: tl_def kvs join_Cons json_str_def skip_ws_space skip_ws_Cons json_ws_def)
    moreover have "jmembers fp m (acc @ [(k, v)]) tl = Some (JObj ((acc @ [(k, v)]) @ kvs), rest)"
      unfolding tl_def
      by (rule Cons.IH [OF False p _ m(2)]) (use Cons.prems(3) kv in simp, use Cons.prems(5) in \<open>metis list.set_intros(2)\<close>)
    moreover have "join '', '' (map (member_text fr) (kv # kvs)) @ ''}'' @ rest
      = member_text fr (k, v) @ CHR '','' # CHR '' '' # tl"
      using False by (simp add: tl_def join_Cons kv)
    ultimately show ?thesis using step [of "CHR '',''" "CHR '' '' # tl"] unfolding n kv by simp
  qed
qed

lemma jvalue_dumps:
  "plain_json j \<Longrightarrow> jfuel j \<le> n \<Longrightarrow> num_delim rest
    \<Longrightarrow> jvalue fp n (dumps_default fr j @ rest) = Some (j, rest)"
proof (induction fr j arbitrary: n rest rule: dumps_default.induct)
  case (6 fr xs)
  then obtain m where n: "n = Suc m" and m: "foldr (\<lambda>x n. Suc (max (jfuel x) n)) xs 0 \<le> m"
    by (cases n) auto
  show ?case
  proof (cases "xs = []")
    case True
    then show ?thesis by (simp add: n skip_ws_Cons json_ws_def)
  next
    case False
    have p: "list_all plain_json xs" using 6(2) by simp
    obtain c cs where c: "join '', '' (map (dumps_default fr) xs) @ '']'' @ rest = c # cs"
        "\<not> json_ws c" "c \<noteq> CHR '']''"
      using join_first [OF False p, of "'', ''" fr] by auto
    have "jelems fp m [] (c # cs) = Some (JArr ([] @ xs), rest)"
      unfolding c(1) [symmetric]
      by (rule jelems_dumps [OF False p m]) (rule 6(1), use p in \<open>auto simp: list_all_iff\<close>)
    then show ?thesis using c by (simp add: n skip_ws_Cons)
  qed
next
  case (7 fr kvs)
  then obtain m where n: "n = Suc m"
      and m: "foldr (\<lambda>kv n. Suc (max (case kv of (k, v) \<Rightarrow> jfuel v) n)) kvs 0 \<le> m"
    by (cases n) auto
  show ?case
  proof (cases "kvs = []")
    case True
    then show ?thesis by (simp add: n skip_ws_Cons json_ws_def)
  next
    case False
    then obtain k' v' kvs' where kvs: "kvs = (k', v') # kvs'" by (cases kvs) auto
    have p: "list_all (\<lambda>(k, v). plain_json v) kvs" "dict_wf ([] @ kvs)" using 7(2) by simp_all
    define tl where "tl = join '', '' (map (member_text fr) kvs) @ ''}'' @ rest"
    obtain cs where c: "tl = CHR 0x22 # cs"
      by (cases "kvs' = []") (simp_all add: tl_def kvs join_Cons json_str_def)
    have "jmembers fp m [] tl = Some (JObj ([] @ kvs), rest)"
      unfolding tl_def
      by (rule jmembers_dumps [OF False p m]) (rule 7(1), use p in \<open>auto simp: list_all_iff\<close>)
    moreover have "dumps_default fr (JObj kvs) @ rest = CHR ''{'' # tl" by (simp add: tl_def)
    ultimately show ?thesis using c by (simp add: n skip_ws_Cons json_ws_def)
  qed
next
  case (3 fr i)
  then show ?case by (cases n) (simp_all add: jvalue_int_repr del: jvalue.simps)
next
  case (5 fr s)
  then show ?case by (cases n) (simp_all add: jvalue_json_str del: jvalue.simps)
qed (auto simp: startswith_def Suc_le_eq gr0_conv_Suc)

text \<open>The fuel is within twice the length of the text.\<close>

lemma jfuel_join:
  assumes "\<And>x. x \<in> set xs \<Longrightarrow> f x < 2 * length (g x)"
  shows "foldr (\<lambda>x n. Suc (max (f x) n)) xs 0 \<le> 2 * length (join '', '' (map g xs))"
  using assms
proof (induction xs)
  case (Cons x xs)
  have "f x < 2 * length (g x)" using Cons.prems by simp
  moreover have "foldr (\<lambda>x n. Suc (max (f x) n)) xs 0 \<le> 2 * length (join '', '' (map g xs))"
    using Cons by simp
  ultimately show ?case by (cases "xs = []") (auto simp: join_Cons)
qed simp

lemma jfuel_length: "plain_json j \<Longrightarrow> jfuel j < 2 * length (dumps_default fr j)"
proof (induction fr j rule: dumps_default.induct)
  case (6 fr xs)
  then have "foldr (\<lambda>x n. Suc (max (jfuel x) n)) xs 0 \<le> 2 * length (join '', '' (map (dumps_default fr) xs))"
    by (intro jfuel_join) (auto simp: list_all_iff)
  then show ?case by simp
next
  case (7 fr kvs)
  have "foldr (\<lambda>kv n. Suc (max (case kv of (k, v) \<Rightarrow> jfuel v) n)) kvs 0
    \<le> 2 * length (join '', '' (map (member_text fr) kvs))"
  proof (rule jfuel_join)
    fix kv assume "kv \<in> set kvs"
    obtain k v where kv: "kv = (k, v)" by (cases kv)
    with \<open>kv \<in> set kvs\<close> 7 have "jfuel v < 2 * length (dumps_default fr v)"
      by (auto simp: list_all_iff)
    then show "(case kv of (k, v) \<Rightarrow> jfuel v) < 2 * length (member_text fr kv)" by (simp add: kv)
  qed
  then show ?case by simp
next
  case (3 fr i)
  then show ?case using int_repr_first [of i] by auto
qed (simp_all add: json_str_def)

text \<open>Reading what was written gives the value back, for every value without floats.\<close>

lemma loads_dumps:
  assumes "plain_json j"
  shows "loads fp (dumps_default fr j) = Some j"
proof -
  obtain c cs where c: "dumps_default fr j = c # cs" "\<not> json_ws c" using value_first [OF assms] by blast
  have "jvalue fp (2 * length (dumps_default fr j)) (dumps_default fr j @ []) = Some (j, [])"
    using jfuel_length [OF assms, of fr] by (intro jvalue_dumps assms) simp_all
  moreover have "skip_ws (dumps_default fr j) = dumps_default fr j" using c by (simp add: skip_ws_Cons)
  ultimately show ?thesis by (simp add: loads_def skip_ws_def)
qed

end
