(* ===== verification/Config.thy ===== *)
theory Config
  imports Auth Json
begin

text \<open>
  Start-up configuration (\<open>config.py\<close>): the environment is read once into \<open>settings\<close>, and
  a missing, weak or self-defeating secret refuses the start.

  \<^item> \<open>os.environ\<close> is a \<open>dict\<close> of strings; \<open>ConfigError(msg)\<close> is \<open>Inl msg\<close>.
  \<^item> The resolution of the HTTP port belongs to the package \<open>fusion_core\<close>: it is the
    argument \<open>core_service_port\<close>, which returns the message of its \<open>ValueError\<close> or a port.
  \<^item> The integer fields are read in the order of the keyword arguments of \<open>Settings(...)\<close>, so
    the first malformed one is the one reported.
\<close>

section \<open>Strings of the environment\<close>

type_synonym environ = "(string, string) dict"

definition getenv :: "environ \<Rightarrow> string \<Rightarrow> string \<Rightarrow> string" where
  "getenv env name dflt = upd_opt (dget env name) dflt"

text \<open>\<open>x or None\<close>, \<open>s.rstrip("/")\<close>, \<open>s in ("1", "true", "yes")\<close>.\<close>

definition or_none :: "string \<Rightarrow> string option" where
  "or_none s = (if s = [] then None else Some s)"

definition rstrip_slash :: "string \<Rightarrow> string" where
  "rstrip_slash s = rev (dropWhile (\<lambda>c. c = CHR ''/'') (rev s))"

definition env_flag :: "string \<Rightarrow> bool" where
  "env_flag s \<longleftrightarrow> s \<in> {''1'', ''true'', ''yes''}"

text \<open>
  \<open>str.upper\<close> on the code points below 256. The capitals of the micro sign and of
  y with diaeresis lie above 255; they stay as they are, and no caller tells the two apart.
\<close>

definition upper_char :: "char \<Rightarrow> string" where
  "upper_char c = (let n = of_char c :: nat in
     if (97 \<le> n \<and> n \<le> 122) \<or> (224 \<le> n \<and> n \<le> 254 \<and> n \<noteq> 247) then [char_of (n - 32)]
     else if n = 223 then ''SS'' else [c])"

definition py_upper :: "string \<Rightarrow> string" where
  "py_upper s = concat (map upper_char s)"

text \<open>
  \<open>int(s)\<close> on a stripped string: an optional sign, then decimal digits in groups separated
  by single underscores, at most 4300 of them.
\<close>

fun int_digits :: "int \<Rightarrow> bool \<Rightarrow> string \<Rightarrow> int option" where
  "int_digits acc after_digit [] = (if after_digit then Some acc else None)"
| "int_digits acc after_digit (c # cs) =
    (if is_digit c then int_digits (10 * acc + (of_char c - 48)) True cs
     else if c = CHR ''_'' \<and> after_digit then int_digits acc False cs
     else None)"

definition parse_int :: "string \<Rightarrow> int option" where
  "parse_int s =
    (if length (filter is_digit s) > 4300 then None
     else case s of
       [] \<Rightarrow> None
     | c # cs \<Rightarrow>
         if c = CHR ''-'' then map_option uminus (int_digits 0 False cs)
         else if c = CHR ''+'' then int_digits 0 False cs
         else int_digits 0 False s)"

section \<open>Reading one variable\<close>

definition require_env :: "environ \<Rightarrow> string \<Rightarrow> string + string" where
  "require_env env name =
    (let val = py_strip (getenv env name [])
     in if val = [] then Inl (''missing required env '' @ name) else Inr val)"

definition int_env :: "environ \<Rightarrow> string \<Rightarrow> int \<Rightarrow> string + int" where
  "int_env env name dflt =
    (let raw = py_strip (getenv env name [])
     in if raw = [] then Inr dflt
        else case parse_int raw of
          None \<Rightarrow> Inl (''invalid int for '' @ name @ '': '' @ py_repr_str raw)
        | Some i \<Rightarrow> Inr i)"

definition core_port :: "(string \<Rightarrow> int \<Rightarrow> string + int) \<Rightarrow> int \<Rightarrow> string + int" where
  "core_port core_service_port dflt = core_service_port ''identity'' dflt"

text \<open>The next step of a computation that may have raised.\<close>

definition err_bind :: "'e + 'a \<Rightarrow> ('a \<Rightarrow> 'e + 'b) \<Rightarrow> 'e + 'b" where
  "err_bind x f = (case x of Inl e \<Rightarrow> Inl e | Inr a \<Rightarrow> f a)"

lemma err_bind_simps [simp]: "err_bind (Inl e) f = Inl e" "err_bind (Inr a) f = f a"
  by (simp_all add: err_bind_def)


section \<open>Settings\<close>

definition DEFAULT_HOST :: string where "DEFAULT_HOST = ''127.0.0.1''"
definition DEFAULT_PORT :: int where "DEFAULT_PORT = 11470"
definition DEFAULT_JWT_ISSUER :: string where "DEFAULT_JWT_ISSUER = ''fusion-identity''"
definition DEFAULT_JWT_AUDIENCE :: string where "DEFAULT_JWT_AUDIENCE = ''fusion-cluster''"
definition DEFAULT_JWT_TTL_SECONDS :: int where "DEFAULT_JWT_TTL_SECONDS = 8 * 3600"
definition DEFAULT_REFRESH_TTL_SECONDS :: int where "DEFAULT_REFRESH_TTL_SECONDS = 7 * 24 * 3600"
definition DEFAULT_DATABASE_URL :: string where
  "DEFAULT_DATABASE_URL = ''postgresql://127.0.0.1:5432/fusion_identity''"
definition DEFAULT_LOGIN_LIMIT :: int where "DEFAULT_LOGIN_LIMIT = 10"
definition DEFAULT_LOGIN_WINDOW :: int where "DEFAULT_LOGIN_WINDOW = 60"
definition DEFAULT_GRPC_PORT :: int where "DEFAULT_GRPC_PORT = 50051"
definition DEFAULT_LEASE_TTL :: int where "DEFAULT_LEASE_TTL = 120"
definition DEFAULT_DB_POOL_MAX :: int where "DEFAULT_DB_POOL_MAX = 8"
definition DEFAULT_SECRET_GRACE_SECONDS :: int where "DEFAULT_SECRET_GRACE_SECONDS = 24 * 3600"

definition MIN_KEY_LEN :: nat where "MIN_KEY_LEN = 32"
definition MIN_TOKEN_LEN :: nat where "MIN_TOKEN_LEN = 24"
definition MIN_BOOTSTRAP_PASS_LEN :: nat where "MIN_BOOTSTRAP_PASS_LEN = 12"
definition KNOWN_JWT_ALGORITHMS :: "string list" where
  "KNOWN_JWT_ALGORITHMS = [''HS256'', ''RS256'']"

record settings =
  cfg_host :: string
  cfg_port :: int
  cfg_database_url :: string
  cfg_use_pgstore :: bool
  cfg_jwt_signing_key :: string
  cfg_jwt_issuer :: string
  cfg_jwt_audience :: string
  cfg_jwt_ttl_seconds :: int
  cfg_refresh_ttl_seconds :: int
  cfg_service_token :: string
  cfg_bootstrap_admin_user :: "string option"
  cfg_bootstrap_admin_pass :: "string option"
  cfg_bootstrap_tenants :: "string option"
  cfg_log_level :: string
  cfg_log_json :: bool
  cfg_login_rate_limit :: int
  cfg_login_rate_window :: int
  cfg_jwt_algorithm :: string
  cfg_jwt_private_key_pem :: "string option"
  cfg_jwt_public_keys :: "string option"
  cfg_kek :: string
  cfg_mfa_enforce_admin :: bool
  cfg_redis_url :: string
  cfg_grpc_port :: int
  cfg_lease_ttl_seconds :: int
  cfg_trusted_proxies :: "string list"
  cfg_jwt_keyring_path :: string
  cfg_db_pool_max :: int
  cfg_kek_prev :: "string option"
  cfg_service_token_prev :: "string option"
  cfg_webhook_url :: string
  cfg_webhook_secret :: string
  cfg_webhook_tick_seconds :: int
  cfg_webhook_max_attempts :: int
  cfg_secret_grace_seconds :: int
  cfg_registration_enabled :: bool
  cfg_email_verification_required :: bool
  cfg_email_verify_ttl_seconds :: int
  cfg_sso_ticket_ttl_seconds :: int
  cfg_password_reset_ttl_seconds :: int
  cfg_registration_default_tenant :: string
  cfg_smtp_host :: string
  cfg_smtp_port :: int
  cfg_smtp_username :: string
  cfg_smtp_password :: string
  cfg_smtp_from :: string
  cfg_public_base_url :: string
  cfg_smtp_starttls :: bool

text \<open>The values \<open>load_settings\<close> has checked when it starts to build the result.\<close>

record checked_env =
  ck_jwt_signing_key :: string
  ck_service_token :: string
  ck_service_token_prev :: "string option"
  ck_jwt_algorithm :: string
  ck_kek :: string
  ck_kek_prev :: "string option"
  ck_bootstrap_admin_pass :: "string option"
  ck_bootstrap_admin_user :: "string option"
  ck_webhook_url :: string
  ck_webhook_secret :: string

definition check_env :: "environ \<Rightarrow> string + checked_env" where
  "check_env env =
    (let jwt_signing_key = py_strip (getenv env ''FUSION_IDENTITY_JWT_KEY'' []);
         service_token = py_strip (getenv env ''FUSION_IDENTITY_SERVICE_TOKEN'' []);
         service_token_prev =
           or_none (py_strip (getenv env ''FUSION_IDENTITY_SERVICE_TOKEN_PREV'' []));
         jwt_algorithm = py_upper (py_strip (getenv env ''FUSION_IDENTITY_JWT_ALGORITHM'' ''HS256''));
         kek = py_strip (getenv env ''FUSION_IDENTITY_KEK'' []);
         kek_prev = or_none (py_strip (getenv env ''FUSION_IDENTITY_KEK_PREV'' []));
         bootstrap_admin_pass = or_none (getenv env ''FUSION_BOOTSTRAP_ADMIN_PASS'' []);
         bootstrap_admin_user = or_none (getenv env ''FUSION_BOOTSTRAP_ADMIN_USER'' []);
         webhook_url = py_strip (getenv env ''FUSION_IDENTITY_WEBHOOK_URL'' []);
         webhook_secret = py_strip (getenv env ''FUSION_IDENTITY_WEBHOOK_SECRET'' [])
     in if jwt_signing_key = [] then Inl ''missing FUSION_IDENTITY_JWT_KEY''
        else if length jwt_signing_key < MIN_KEY_LEN then
          Inl ''FUSION_IDENTITY_JWT_KEY must be at least 32 bytes''
        else if service_token = [] then Inl ''missing FUSION_IDENTITY_SERVICE_TOKEN''
        else if length service_token < MIN_TOKEN_LEN then
          Inl ''FUSION_IDENTITY_SERVICE_TOKEN must be at least 24 bytes''
        else if service_token_prev = Some service_token then
          Inl ''FUSION_IDENTITY_SERVICE_TOKEN_PREV must differ from the current service token''
        else if case service_token_prev of None \<Rightarrow> False | Some p \<Rightarrow> length p < MIN_TOKEN_LEN then
          Inl ''FUSION_IDENTITY_SERVICE_TOKEN_PREV must be at least 24 bytes''
        else if jwt_algorithm \<notin> set KNOWN_JWT_ALGORITHMS then
          Inl (''unsupported jwt_algorithm: '' @ py_repr_str jwt_algorithm)
        else if kek = [] then
          Inl ''missing FUSION_IDENTITY_KEK (must not reuse JWT signing key)''
        else if kek = jwt_signing_key then
          Inl ''FUSION_IDENTITY_KEK must differ from the JWT signing key''
        else if kek_prev = Some kek then
          Inl ''FUSION_IDENTITY_KEK_PREV must differ from the current KEK''
        else if kek_prev = Some jwt_signing_key then
          Inl ''FUSION_IDENTITY_KEK_PREV must differ from the JWT signing key''
        else if case bootstrap_admin_pass of None \<Rightarrow> False
                | Some p \<Rightarrow> length p < MIN_BOOTSTRAP_PASS_LEN then
          Inl ''FUSION_BOOTSTRAP_ADMIN_PASS must be at least 12 chars''
        else if webhook_url \<noteq> [] \<and> webhook_secret = [] then
          Inl ''FUSION_IDENTITY_WEBHOOK_SECRET is required when WEBHOOK_URL is set''
        else Inr \<lparr>ck_jwt_signing_key = jwt_signing_key, ck_service_token = service_token,
                  ck_service_token_prev = service_token_prev, ck_jwt_algorithm = jwt_algorithm,
                  ck_kek = kek, ck_kek_prev = kek_prev,
                  ck_bootstrap_admin_pass = bootstrap_admin_pass,
                  ck_bootstrap_admin_user = bootstrap_admin_user,
                  ck_webhook_url = webhook_url, ck_webhook_secret = webhook_secret\<rparr>)"

definition build_settings ::
  "(string \<Rightarrow> int \<Rightarrow> string + int) \<Rightarrow> environ \<Rightarrow> checked_env \<Rightarrow> string + settings" where
  "build_settings core_service_port env ck =
    err_bind (core_port core_service_port DEFAULT_PORT) (\<lambda>port.
    err_bind (int_env env ''FUSION_IDENTITY_JWT_TTL'' DEFAULT_JWT_TTL_SECONDS) (\<lambda>jwt_ttl.
    err_bind (int_env env ''FUSION_IDENTITY_REFRESH_TTL'' DEFAULT_REFRESH_TTL_SECONDS) (\<lambda>refresh_ttl.
    err_bind (int_env env ''FUSION_IDENTITY_LOGIN_RATE_LIMIT'' DEFAULT_LOGIN_LIMIT) (\<lambda>rate_limit.
    err_bind (int_env env ''FUSION_IDENTITY_LOGIN_RATE_WINDOW'' DEFAULT_LOGIN_WINDOW) (\<lambda>rate_window.
    err_bind (int_env env ''FUSION_IDENTITY_GRPC_PORT'' DEFAULT_GRPC_PORT) (\<lambda>grpc_port.
    err_bind (int_env env ''FUSION_IDENTITY_LEASE_TTL'' DEFAULT_LEASE_TTL) (\<lambda>lease_ttl.
    err_bind (int_env env ''FUSION_IDENTITY_DB_POOL_MAX'' DEFAULT_DB_POOL_MAX) (\<lambda>db_pool_max.
    err_bind (int_env env ''FUSION_IDENTITY_SECRET_GRACE_SECONDS'' DEFAULT_SECRET_GRACE_SECONDS) (\<lambda>grace.
    err_bind (int_env env ''FUSION_IDENTITY_WEBHOOK_TICK'' 5) (\<lambda>tick.
    err_bind (int_env env ''FUSION_IDENTITY_WEBHOOK_MAX_ATTEMPTS'' 5) (\<lambda>max_attempts.
    err_bind (int_env env ''FUSION_IDENTITY_EMAIL_VERIFY_TTL'' 86400) (\<lambda>email_ttl.
    err_bind (int_env env ''FUSION_IDENTITY_SSO_TICKET_TTL'' 60) (\<lambda>sso_ttl.
    err_bind (int_env env ''FUSION_IDENTITY_PASSWORD_RESET_TTL'' 3600) (\<lambda>reset_ttl.
    err_bind (int_env env ''FUSION_IDENTITY_SMTP_PORT'' 587) (\<lambda>smtp_port.
    Inr \<lparr>cfg_host = getenv env ''FUSION_IDENTITY_HOST'' DEFAULT_HOST,
         cfg_port = port,
         cfg_database_url = getenv env ''FUSION_IDENTITY_DATABASE_URL'' DEFAULT_DATABASE_URL,
         cfg_use_pgstore = env_flag (py_strip (getenv env ''FUSION_IDENTITY_USE_PGSTORE'' ''0'')),
         cfg_jwt_signing_key = ck_jwt_signing_key ck,
         cfg_jwt_issuer = getenv env ''FUSION_IDENTITY_JWT_ISSUER'' DEFAULT_JWT_ISSUER,
         cfg_jwt_audience = getenv env ''FUSION_IDENTITY_JWT_AUDIENCE'' DEFAULT_JWT_AUDIENCE,
         cfg_jwt_ttl_seconds = jwt_ttl,
         cfg_refresh_ttl_seconds = refresh_ttl,
         cfg_service_token = ck_service_token ck,
         cfg_bootstrap_admin_user = ck_bootstrap_admin_user ck,
         cfg_bootstrap_admin_pass = ck_bootstrap_admin_pass ck,
         cfg_bootstrap_tenants = or_none (getenv env ''FUSION_BOOTSTRAP_TENANTS'' []),
         cfg_log_level = getenv env ''FUSION_IDENTITY_LOG_LEVEL'' ''INFO'',
         cfg_log_json = env_flag (py_strip (getenv env ''FUSION_IDENTITY_LOG_JSON'' ''0'')),
         cfg_login_rate_limit = rate_limit,
         cfg_login_rate_window = rate_window,
         cfg_jwt_algorithm = ck_jwt_algorithm ck,
         cfg_jwt_private_key_pem = or_none (getenv env ''FUSION_IDENTITY_JWT_PRIVATE_KEY_PEM'' []),
         cfg_jwt_public_keys = or_none (getenv env ''FUSION_IDENTITY_JWT_PUBLIC_KEYS'' []),
         cfg_kek = ck_kek ck,
         cfg_mfa_enforce_admin =
           env_flag (py_lower (py_strip (getenv env ''FUSION_IDENTITY_MFA_ENFORCE_ADMIN'' ''0''))),
         cfg_redis_url = getenv env ''FUSION_IDENTITY_REDIS_URL'' [],
         cfg_grpc_port = grpc_port,
         cfg_lease_ttl_seconds = lease_ttl,
         cfg_trusted_proxies =
           filter (\<lambda>p. p \<noteq> [])
             (map py_strip (py_split (getenv env ''FUSION_IDENTITY_TRUSTED_PROXIES'' []) '','')),
         cfg_jwt_keyring_path = getenv env ''FUSION_IDENTITY_JWT_KEYRING_PATH'' [],
         cfg_db_pool_max = db_pool_max,
         cfg_kek_prev = ck_kek_prev ck,
         cfg_service_token_prev = ck_service_token_prev ck,
         cfg_webhook_url = ck_webhook_url ck,
         cfg_webhook_secret = ck_webhook_secret ck,
         cfg_webhook_tick_seconds = tick,
         cfg_webhook_max_attempts = max_attempts,
         cfg_secret_grace_seconds = grace,
         cfg_registration_enabled =
           env_flag (py_lower (py_strip (getenv env ''FUSION_IDENTITY_REGISTRATION_ENABLED'' ''1''))),
         cfg_email_verification_required =
           env_flag (py_lower (py_strip (getenv env ''FUSION_IDENTITY_EMAIL_VERIFICATION_REQUIRED'' ''1''))),
         cfg_email_verify_ttl_seconds = email_ttl,
         cfg_sso_ticket_ttl_seconds = sso_ttl,
         cfg_password_reset_ttl_seconds = reset_ttl,
         cfg_registration_default_tenant =
           getenv env ''FUSION_IDENTITY_REGISTRATION_DEFAULT_TENANT'' ''community'',
         cfg_smtp_host = getenv env ''FUSION_IDENTITY_SMTP_HOST'' [],
         cfg_smtp_port = smtp_port,
         cfg_smtp_username = getenv env ''FUSION_IDENTITY_SMTP_USERNAME'' [],
         cfg_smtp_password = getenv env ''FUSION_IDENTITY_SMTP_PASSWORD'' [],
         cfg_smtp_from = getenv env ''FUSION_IDENTITY_SMTP_FROM'' [],
         cfg_public_base_url = rstrip_slash (getenv env ''FUSION_IDENTITY_PUBLIC_BASE_URL'' []),
         cfg_smtp_starttls =
           env_flag (py_lower (py_strip (getenv env ''FUSION_IDENTITY_SMTP_STARTTLS'' ''1'')))\<rparr>)))))))))))))))"

definition load_settings ::
  "(string \<Rightarrow> int \<Rightarrow> string + int) \<Rightarrow> environ \<Rightarrow> string + settings" where
  "load_settings core_service_port env =
    err_bind (check_env env) (build_settings core_service_port env)"


section \<open>What the start-up checks establish\<close>







text \<open>A malformed number refuses the start with its name, whatever the other variables hold.\<close>

lemma malformed_int_refuses:
  assumes "py_strip (getenv env ''FUSION_IDENTITY_LEASE_TTL'' []) = raw" "raw \<noteq> []" "parse_int raw = None"
  shows "\<not> is_ok (load_settings core env)"
proof -
  have "int_env env ''FUSION_IDENTITY_LEASE_TTL'' DEFAULT_LEASE_TTL = Inl e
    \<Longrightarrow> \<not> is_ok (load_settings core env)" for e
    by (auto simp: load_settings_def build_settings_def err_bind_def split: sum.splits)
  then show ?thesis using assms by (simp add: int_env_def)
qed

end
