(* ===== verification/Redis.thy ===== *)
theory Redis
  imports Json
begin

text \<open>
  The part of Redis the service talks to, as a parameter.

  A record \<open>redis\<close> holds the commands the Lua scripts and the client calls use, over a server
  state of any type; every command takes the server's clock. \<open>redis_sound R \<alpha>\<close> states their
  documented effect on the keyspace \<open>\<alpha> s\<close>: a key holds a string or a sorted set and may carry
  a deadline after which it no longer exists; a sorted set that becomes empty ceases to
  exist with its deadline. Nothing is said about a command on a key of the other type: the
  key prefixes of the program keep the two apart.

  A script runs without interleaving. \<open>rd_up\<close> tells whether a call reaches the server; a
  call that does not raises and leaves the state alone.
\<close>

section \<open>Commands\<close>

record 'r redis =
  rd_up :: "time \<Rightarrow> 'r \<Rightarrow> bool"
  rd_get :: "time \<Rightarrow> string \<Rightarrow> 'r \<Rightarrow> string option"
  rd_set :: "time \<Rightarrow> string \<Rightarrow> string \<Rightarrow> int \<Rightarrow> 'r \<Rightarrow> 'r option"
  rd_del :: "time \<Rightarrow> string \<Rightarrow> 'r \<Rightarrow> 'r"
  rd_incrby :: "time \<Rightarrow> string \<Rightarrow> int \<Rightarrow> 'r \<Rightarrow> (int \<times> 'r) option"
  rd_expire :: "time \<Rightarrow> string \<Rightarrow> int \<Rightarrow> 'r \<Rightarrow> 'r"
  rd_zadd :: "time \<Rightarrow> string \<Rightarrow> int \<Rightarrow> string \<Rightarrow> 'r \<Rightarrow> 'r"
  rd_zrem :: "time \<Rightarrow> string \<Rightarrow> string \<Rightarrow> 'r \<Rightarrow> int \<times> 'r"
  rd_zcard :: "time \<Rightarrow> string \<Rightarrow> 'r \<Rightarrow> int"
  rd_zrangebyscore :: "time \<Rightarrow> string \<Rightarrow> int \<Rightarrow> int \<Rightarrow> 'r \<Rightarrow> string list"
  rd_zremrangebyscore :: "time \<Rightarrow> string \<Rightarrow> int \<Rightarrow> int \<Rightarrow> 'r \<Rightarrow> 'r"

datatype redis_error =
    RedisDown
  | RedisReply
  | BadNumber

section \<open>The keyspace\<close>

datatype rvalue =
    RStr string
  | RZset "(string, int) dict"

type_synonym rentry = "rvalue \<times> time option"
type_synonym keyspace = "string \<Rightarrow> rentry option"

definition alive :: "time \<Rightarrow> time option \<Rightarrow> bool" where
  "alive t d = (case d of None \<Rightarrow> True | Some x \<Rightarrow> t < x)"

lemma alive_simps [simp]: "alive t None" "alive t (Some x) \<longleftrightarrow> t < x"
  by (simp_all add: alive_def)

text \<open>The string and the sorted set a client sees at a key, with the deadline of the key.\<close>

definition str_at :: "time \<Rightarrow> rentry option \<Rightarrow> (string \<times> time option) option" where
  "str_at t e = (case e of Some (RStr v, d) \<Rightarrow> if alive t d then Some (v, d) else None | _ \<Rightarrow> None)"

definition zset_at :: "time \<Rightarrow> rentry option \<Rightarrow> (string, int) dict \<times> time option" where
  "zset_at t e = (case e of Some (RZset l, d) \<Rightarrow> if alive t d then (l, d) else ([], None) | _ \<Rightarrow> ([], None))"

lemma zset_at_simps [simp]:
  "zset_at t None = ([], None)"
  "zset_at t (Some (RStr v, d)) = ([], None)"
  "zset_at t (Some (RZset l, d)) = (if alive t d then (l, d) else ([], None))"
  by (simp_all add: zset_at_def)

lemma str_at_simps [simp]:
  "str_at t None = None"
  "str_at t (Some (RZset l, d)) = None"
  "str_at t (Some (RStr v, d)) = (if alive t d then Some (v, d) else None)"
  by (simp_all add: str_at_def)

definition zput :: "(string, int) dict \<Rightarrow> time option \<Rightarrow> rentry option" where
  "zput l d = (if l = [] then None else Some (RZset l, d))"

text \<open>A key that holds no string: one the sorted-set commands work on, and conversely.\<close>

definition zkey :: "rentry option \<Rightarrow> bool" where
  "zkey e = (case e of Some (RStr v, d) \<Rightarrow> False | _ \<Rightarrow> True)"

definition skey :: "rentry option \<Rightarrow> bool" where
  "skey e = (case e of Some (RZset l, d) \<Rightarrow> False | _ \<Rightarrow> True)"

lemma zkey_simps [simp]: "zkey None" "zkey (Some (RZset l, d))" "\<not> zkey (Some (RStr v, d))" "zkey (zput l d)"
  by (simp_all add: zkey_def zput_def)

lemma skey_simps [simp]: "skey None" "skey (Some (RStr v, d))" "\<not> skey (Some (RZset l, d))"
  by (simp_all add: skey_def)

text \<open>The decimal text of an integer, as \<open>INCRBY\<close> stores it and \<open>tonumber\<close> and \<open>int\<close> read it.\<close>

definition dec_int :: "string \<Rightarrow> int option" where
  "dec_int s = (case number (\<lambda>_. 0) s of Some (JInt i, []) \<Rightarrow> Some i | _ \<Rightarrow> None)"

lemma dec_int_repr [simp]: "dec_int (int_repr i) = Some i"
  using number_int_repr [of "[]" "\<lambda>_. 0" i] by (simp add: dec_int_def)

definition in_score :: "int \<Rightarrow> int \<Rightarrow> string \<times> int \<Rightarrow> bool" where
  "in_score lo hi m \<longleftrightarrow> lo \<le> snd m \<and> snd m \<le> hi"

section \<open>The documented behaviour\<close>

definition string_laws :: "'r redis \<Rightarrow> ('r \<Rightarrow> keyspace) \<Rightarrow> bool" where
  "string_laws R \<alpha> \<longleftrightarrow>
    (\<forall>t k s. skey (\<alpha> s k) \<longrightarrow> rd_get R t k s = map_option fst (str_at t (\<alpha> s k)))
    \<and> (\<forall>t k v ex s. 0 < ex \<longrightarrow> (\<exists>s'. rd_set R t k v ex s = Some s'
          \<and> \<alpha> s' = (\<alpha> s)(k := Some (RStr v, Some (t + of_int ex)))))
    \<and> (\<forall>t k v ex s. ex \<le> 0 \<longrightarrow> rd_set R t k v ex s = None)
    \<and> (\<forall>t k s. \<alpha> (rd_del R t k s) = (\<alpha> s)(k := None))
    \<and> (\<forall>t k n s i d. skey (\<alpha> s k) \<longrightarrow>
          (case str_at t (\<alpha> s k) of None \<Rightarrow> i = 0 \<and> d = None | Some (v, d') \<Rightarrow> dec_int v = Some i \<and> d = d') \<longrightarrow>
          - (2 ^ 63) \<le> i + n \<and> i + n < 2 ^ 63 \<longrightarrow>
          (\<exists>s'. rd_incrby R t k n s = Some (i + n, s')
             \<and> \<alpha> s' = (\<alpha> s)(k := Some (RStr (int_repr (i + n)), d))))
    \<and> (\<forall>t k n s i s' k'. rd_incrby R t k n s = Some (i, s') \<longrightarrow> k' \<noteq> k \<longrightarrow> \<alpha> s' k' = \<alpha> s k')
    \<and> (\<forall>t k n s i s'. rd_incrby R t k n s = Some (i, s') \<longrightarrow> skey (\<alpha> s k) \<longrightarrow>
          (case str_at t (\<alpha> s k) of None \<Rightarrow> i = n | Some (v, d) \<Rightarrow> dec_int v = Some (i - n)))"

definition expire_law :: "'r redis \<Rightarrow> ('r \<Rightarrow> keyspace) \<Rightarrow> bool" where
  "expire_law R \<alpha> \<longleftrightarrow>
    (\<forall>t k ttl s. \<alpha> (rd_expire R t k ttl s) =
       (case \<alpha> s k of
          Some (v, d) \<Rightarrow> if alive t d then (\<alpha> s)(k := Some (v, Some (t + of_int ttl))) else \<alpha> s
        | None \<Rightarrow> \<alpha> s))"

definition zset_laws :: "'r redis \<Rightarrow> ('r \<Rightarrow> keyspace) \<Rightarrow> bool" where
  "zset_laws R \<alpha> \<longleftrightarrow>
    (\<forall>t k s. zkey (\<alpha> s k) \<longrightarrow> rd_zcard R t k s = int (length (fst (zset_at t (\<alpha> s k)))))
    \<and> (\<forall>t k lo hi s. zkey (\<alpha> s k) \<longrightarrow>
          set (rd_zrangebyscore R t k lo hi s) = fst ` set (filter (in_score lo hi) (fst (zset_at t (\<alpha> s k)))))
    \<and> (\<forall>t k sc m s. zkey (\<alpha> s k) \<longrightarrow>
          \<alpha> (rd_zadd R t k sc m s) =
            (\<alpha> s)(k := Some (RZset (dset m sc (fst (zset_at t (\<alpha> s k)))), snd (zset_at t (\<alpha> s k)))))
    \<and> (\<forall>t k m s. zkey (\<alpha> s k) \<longrightarrow>
          fst (rd_zrem R t k m s) = (if m \<in> set (dkeys (fst (zset_at t (\<alpha> s k)))) then 1 else 0)
          \<and> \<alpha> (snd (rd_zrem R t k m s)) =
              (\<alpha> s)(k := zput (dpop m (fst (zset_at t (\<alpha> s k)))) (snd (zset_at t (\<alpha> s k)))))
    \<and> (\<forall>t k lo hi s. zkey (\<alpha> s k) \<longrightarrow>
          \<alpha> (rd_zremrangebyscore R t k lo hi s) =
            (\<alpha> s)(k := zput (filter (\<lambda>m. \<not> in_score lo hi m) (fst (zset_at t (\<alpha> s k))))
                        (snd (zset_at t (\<alpha> s k)))))"

definition redis_sound :: "'r redis \<Rightarrow> ('r \<Rightarrow> keyspace) \<Rightarrow> bool" where
  "redis_sound R \<alpha> \<longleftrightarrow> string_laws R \<alpha> \<and> expire_law R \<alpha> \<and> zset_laws R \<alpha>"

lemma redis_get: "redis_sound R \<alpha> \<Longrightarrow> skey (\<alpha> s k) \<Longrightarrow> rd_get R t k s = map_option fst (str_at t (\<alpha> s k))"
  by (simp add: redis_sound_def string_laws_def)

lemma redis_set:
  assumes "redis_sound R \<alpha>" "0 < ex"
  obtains s' where "rd_set R t k v ex s = Some s'" "\<alpha> s' = (\<alpha> s)(k := Some (RStr v, Some (t + of_int ex)))"
proof -
  have "\<exists>s'. rd_set R t k v ex s = Some s' \<and> \<alpha> s' = (\<alpha> s)(k := Some (RStr v, Some (t + of_int ex)))"
    using assms by (simp add: redis_sound_def string_laws_def)
  then show thesis using that by blast
qed

lemma redis_set_bad: "redis_sound R \<alpha> \<Longrightarrow> ex \<le> 0 \<Longrightarrow> rd_set R t k v ex s = None"
  by (simp add: redis_sound_def string_laws_def)

lemma redis_del: "redis_sound R \<alpha> \<Longrightarrow> \<alpha> (rd_del R t k s) = (\<alpha> s)(k := None)"
  by (simp add: redis_sound_def string_laws_def)

lemma redis_incrby_other:
  "redis_sound R \<alpha> \<Longrightarrow> rd_incrby R t k n s = Some (i, s') \<Longrightarrow> k' \<noteq> k \<Longrightarrow> \<alpha> s' k' = \<alpha> s k'"
  unfolding redis_sound_def string_laws_def by blast

lemma redis_incrby_result:
  "redis_sound R \<alpha> \<Longrightarrow> rd_incrby R t k n s = Some (i, s') \<Longrightarrow> skey (\<alpha> s k) \<Longrightarrow>
    (case str_at t (\<alpha> s k) of None \<Rightarrow> i = n | Some (v, d) \<Rightarrow> dec_int v = Some (i - n))"
  unfolding redis_sound_def string_laws_def by blast

lemma redis_incrby_new:
  assumes "redis_sound R \<alpha>" "skey (\<alpha> s k)" "str_at t (\<alpha> s k) = None" "- (2 ^ 63) \<le> n" "n < 2 ^ 63"
  obtains s' where "rd_incrby R t k n s = Some (n, s')" "\<alpha> s' = (\<alpha> s)(k := Some (RStr (int_repr n), None))"
proof -
  have "\<forall>i d. (case str_at t (\<alpha> s k) of None \<Rightarrow> i = 0 \<and> d = None | Some (v, d') \<Rightarrow> dec_int v = Some i \<and> d = d') \<longrightarrow>
      - (2 ^ 63) \<le> i + n \<and> i + n < 2 ^ 63 \<longrightarrow>
      (\<exists>s'. rd_incrby R t k n s = Some (i + n, s') \<and> \<alpha> s' = (\<alpha> s)(k := Some (RStr (int_repr (i + n)), d)))"
    using assms(1,2) by (simp add: redis_sound_def string_laws_def)
  from this [rule_format, of 0 None] assms(3-) that show thesis by auto
qed

lemma redis_incrby_old:
  assumes "redis_sound R \<alpha>" "skey (\<alpha> s k)" "str_at t (\<alpha> s k) = Some (v, d)" "dec_int v = Some i"
    "- (2 ^ 63) \<le> i + n" "i + n < 2 ^ 63"
  obtains s' where "rd_incrby R t k n s = Some (i + n, s')" "\<alpha> s' = (\<alpha> s)(k := Some (RStr (int_repr (i + n)), d))"
proof -
  have "\<forall>i d. (case str_at t (\<alpha> s k) of None \<Rightarrow> i = 0 \<and> d = None | Some (v, d') \<Rightarrow> dec_int v = Some i \<and> d = d') \<longrightarrow>
      - (2 ^ 63) \<le> i + n \<and> i + n < 2 ^ 63 \<longrightarrow>
      (\<exists>s'. rd_incrby R t k n s = Some (i + n, s') \<and> \<alpha> s' = (\<alpha> s)(k := Some (RStr (int_repr (i + n)), d)))"
    using assms(1,2) by (simp add: redis_sound_def string_laws_def)
  from this [rule_format, of i d] assms(3-) that show thesis by auto
qed

lemma redis_expire:
  "redis_sound R \<alpha> \<Longrightarrow> \<alpha> (rd_expire R t k ttl s) =
     (case \<alpha> s k of
        Some (v, d) \<Rightarrow> if alive t d then (\<alpha> s)(k := Some (v, Some (t + of_int ttl))) else \<alpha> s
      | None \<Rightarrow> \<alpha> s)"
  by (simp add: redis_sound_def expire_law_def)

lemma redis_zset:
  assumes "redis_sound R \<alpha>" "zkey (\<alpha> s k)"
  shows "rd_zcard R t k s = int (length (fst (zset_at t (\<alpha> s k))))"
    and "\<alpha> (rd_zadd R t k sc m s) =
      (\<alpha> s)(k := Some (RZset (dset m sc (fst (zset_at t (\<alpha> s k)))), snd (zset_at t (\<alpha> s k))))"
    and "fst (rd_zrem R t k m s) = (if m \<in> set (dkeys (fst (zset_at t (\<alpha> s k)))) then 1 else 0)"
    and "\<alpha> (snd (rd_zrem R t k m s)) =
      (\<alpha> s)(k := zput (dpop m (fst (zset_at t (\<alpha> s k)))) (snd (zset_at t (\<alpha> s k))))"
    and "\<alpha> (rd_zremrangebyscore R t k lo hi s) =
      (\<alpha> s)(k := zput (filter (\<lambda>m. \<not> in_score lo hi m) (fst (zset_at t (\<alpha> s k)))) (snd (zset_at t (\<alpha> s k))))"
  using assms by (simp_all add: redis_sound_def zset_laws_def)

section \<open>An instance\<close>

text \<open>A server whose state is the list of its keys: the laws can hold.\<close>

definition kv_put :: "string \<Rightarrow> rentry option \<Rightarrow> (string, rentry) dict \<Rightarrow> (string, rentry) dict" where
  "kv_put k e s = (case e of None \<Rightarrow> dpop k s | Some x \<Rightarrow> dset k x s)"

lemma map_of_kv_put: "map_of (kv_put k e s) = (map_of s)(k := e)"
  by (rule ext) (simp add: kv_put_def dget_dset dget_dpop split: option.split)

definition kv_redis :: "(string, rentry) dict redis" where
  "kv_redis = \<lparr>
     rd_up = (\<lambda>t s. True),
     rd_get = (\<lambda>t k s. map_option fst (str_at t (map_of s k))),
     rd_set = (\<lambda>t k v ex s. if 0 < ex then Some (kv_put k (Some (RStr v, Some (t + of_int ex))) s) else None),
     rd_del = (\<lambda>t k s. kv_put k None s),
     rd_incrby = (\<lambda>t k n s.
       case str_at t (map_of s k) of
         None \<Rightarrow> if - (2 ^ 63) \<le> n \<and> n < 2 ^ 63 then Some (n, kv_put k (Some (RStr (int_repr n), None)) s) else None
       | Some (v, d) \<Rightarrow>
           (case dec_int v of
              None \<Rightarrow> None
            | Some i \<Rightarrow> if - (2 ^ 63) \<le> i + n \<and> i + n < 2 ^ 63
                         then Some (i + n, kv_put k (Some (RStr (int_repr (i + n)), d)) s) else None)),
     rd_expire = (\<lambda>t k ttl s.
       case map_of s k of
         Some (v, d) \<Rightarrow> if alive t d then kv_put k (Some (v, Some (t + of_int ttl))) s else s
       | None \<Rightarrow> s),
     rd_zadd = (\<lambda>t k sc m s.
       let (l, d) = zset_at t (map_of s k) in kv_put k (Some (RZset (dset m sc l), d)) s),
     rd_zrem = (\<lambda>t k m s.
       let (l, d) = zset_at t (map_of s k)
       in (if m \<in> set (dkeys l) then 1 else 0, kv_put k (zput (dpop m l) d) s)),
     rd_zcard = (\<lambda>t k s. int (length (fst (zset_at t (map_of s k))))),
     rd_zrangebyscore = (\<lambda>t k lo hi s. map fst (filter (in_score lo hi) (fst (zset_at t (map_of s k))))),
     rd_zremrangebyscore = (\<lambda>t k lo hi s.
       let (l, d) = zset_at t (map_of s k)
       in kv_put k (zput (filter (\<lambda>m. \<not> in_score lo hi m) l) d) s)\<rparr>"

lemma kv_redis_sound: "redis_sound kv_redis map_of"
proof -
  have "string_laws kv_redis map_of"
    by (auto simp: string_laws_def kv_redis_def map_of_kv_put split: option.splits)
  moreover have "expire_law kv_redis map_of"
    by (auto simp: expire_law_def kv_redis_def map_of_kv_put split: option.splits)
  moreover have "zset_laws kv_redis map_of"
    by (simp add: zset_laws_def kv_redis_def map_of_kv_put case_prod_beta)
  ultimately show ?thesis by (simp add: redis_sound_def)
qed

end
