(* ===== verification/Concurrency.thy ===== *)
theory Concurrency
  imports Redis Jwt
begin

text \<open>
  Concurrency leases (\<open>concurrency.py\<close>). The sorted set \<open>leases:<tenant>\<close> holds one member per
  lease, scored with its deadline on the clock of the caller; each lease also has a key of
  its own. The two Lua scripts are translated command by command. A script that gets an
  error reply stops there and keeps what it wrote.

  \<open>now\<close> is the caller's \<open>int(time.time())\<close>, \<open>t\<close> the server's clock. The lemmas show the bound
  (never more leases than the limit) and that granting follows the abstract lease table,
  which knows nothing of Redis or of key expiry.
\<close>

section \<open>The scripts\<close>

definition reap :: "'r redis \<Rightarrow> time \<Rightarrow> string \<Rightarrow> string \<Rightarrow> int \<Rightarrow> 'r \<Rightarrow> 'r" where
  "reap R t lset lkey_prefix now s =
    (let expired = rd_zrangebyscore R t lset 0 now s;
         s1 = fold (\<lambda>eid. rd_del R t (lkey_prefix @ eid)) expired s
     in rd_zremrangebyscore R t lset 0 now s1)"

definition ACQUIRE_LUA ::
  "'r redis \<Rightarrow> time \<Rightarrow> string \<Rightarrow> string \<Rightarrow> int \<Rightarrow> int \<Rightarrow> string \<Rightarrow> int \<Rightarrow> 'r \<Rightarrow> (redis_error, int, 'r) outcome" where
  "ACQUIRE_LUA R t lset lkey_prefix now ttl lease_id max_limit s =
    (let s2 = reap R t lset lkey_prefix now s;
         current = rd_zcard R t lset s2
     in if current \<ge> max_limit then ret 0 s2
        else let s3 = rd_zadd R t lset (now + ttl) lease_id s2
             in case rd_set R t (lkey_prefix @ lease_id) ''1'' ttl s3 of
                  None \<Rightarrow> raise RedisReply s3
                | Some s4 \<Rightarrow>
                    let s5 = rd_expire R t lset (ttl + 60) s4
                    in ret (rd_zcard R t lset s5) s5)"

definition RELEASE_LUA :: "'r redis \<Rightarrow> time \<Rightarrow> string \<Rightarrow> string \<Rightarrow> string \<Rightarrow> 'r \<Rightarrow> int \<times> 'r" where
  "RELEASE_LUA R t lset lkey_prefix lease_id s =
    (let (removed, s1) = rd_zrem R t lset lease_id s
     in if removed = 0 then (- 1, s1)
        else let s2 = rd_del R t (lkey_prefix @ lease_id) s1
             in (rd_zcard R t lset s2, s2))"

section \<open>The manager\<close>

definition leases_key :: "string \<Rightarrow> string" where
  "leases_key tid = ''leases:'' @ tid"

definition lease_prefix :: string where
  "lease_prefix = ''lease:''"

definition lease_key :: "string \<Rightarrow> string" where
  "lease_key lease_id = ''lease:'' @ lease_id"

definition new_lease_id :: "string \<Rightarrow> string \<Rightarrow> string" where
  "new_lease_id tid uuid_hex = tid @ '':'' @ take 12 uuid_hex"

definition try_acquire ::
  "'r redis \<Rightarrow> int \<Rightarrow> string \<Rightarrow> int \<Rightarrow> string \<Rightarrow> time \<Rightarrow> time \<Rightarrow> 'r
     \<Rightarrow> (redis_error, (string \<times> int) option, 'r) outcome" where
  "try_acquire R lease_ttl tid max_concurrency uuid_hex clock t s =
    (if max_concurrency \<le> 0 then ret None s
     else
       let lease_id = new_lease_id tid uuid_hex; now = py_int clock
       in if \<not> rd_up R t s then raise RedisDown s
          else case ACQUIRE_LUA R t (leases_key tid) lease_prefix now lease_ttl lease_id max_concurrency s of
            (Inl e, s') \<Rightarrow> raise e s'
          | (Inr result, s') \<Rightarrow> ret (if result = 0 then None else Some (lease_id, result)) s')"

definition lease_release ::
  "'r redis \<Rightarrow> string \<Rightarrow> string \<Rightarrow> time \<Rightarrow> 'r \<Rightarrow> (redis_error, int, 'r) outcome" where
  "lease_release R tid lease_id t s =
    (if \<not> rd_up R t s then raise RedisDown s
     else let (result, s') = RELEASE_LUA R t (leases_key tid) lease_prefix lease_id s
          in ret (if result < 0 then - 1 else result) s')"

text \<open>The two commands of the count are taken as one step; each alone removes only expired leases.\<close>

definition active_count ::
  "'r redis \<Rightarrow> string \<Rightarrow> time \<Rightarrow> time \<Rightarrow> 'r \<Rightarrow> (redis_error, int, 'r) outcome" where
  "active_count R tid clock t s =
    (if \<not> rd_up R t s then raise RedisDown s
     else let s1 = rd_zremrangebyscore R t (leases_key tid) 0 (py_int clock) s
          in ret (rd_zcard R t (leases_key tid) s1) s1)"

section \<open>Effect of the scripts on the keyspace\<close>

lemma leases_key_inj [simp]: "leases_key a = leases_key b \<longleftrightarrow> a = b"
  by (simp add: leases_key_def)

lemma leases_key_lease [simp]: "leases_key a \<noteq> lease_prefix @ x" "lease_prefix @ x \<noteq> leases_key a"
  by (simp_all add: leases_key_def lease_prefix_def)

text \<open>Deleting the keys of expired leases leaves the lease sets alone.\<close>

lemma fold_del_other:
  assumes "redis_sound R \<alpha>" "\<forall>x. k \<noteq> lease_prefix @ x"
  shows "\<alpha> (fold (\<lambda>eid. rd_del R t (lease_prefix @ eid)) xs s) k = \<alpha> s k"
  using assms(2) by (induction xs arbitrary: s) (simp_all add: redis_del [OF assms(1)])

abbreviation lease_set :: "('r \<Rightarrow> keyspace) \<Rightarrow> 'r \<Rightarrow> string \<Rightarrow> rentry option" where
  "lease_set \<alpha> s tid \<equiv> \<alpha> s (leases_key tid)"

text \<open>The leases left after the reaper at the head of the script.\<close>

definition unexpired :: "int \<Rightarrow> (string, int) dict \<Rightarrow> (string, int) dict" where
  "unexpired now l = filter (\<lambda>m. \<not> in_score 0 now m) l"

lemma set_unexpired_subset: "set (unexpired now l) \<subseteq> set l"
  by (auto simp: unexpired_def)

lemma dict_wf_unexpired: "dict_wf l \<Longrightarrow> dict_wf (unexpired now l)"
  unfolding unexpired_def by (rule distinct_map_filter)

lemma zset_at_alive: "zset_at t e = (l, d) \<Longrightarrow> alive t d"
  by (auto simp: zset_at_def split: option.splits rvalue.splits if_splits)

lemma zset_at_zput: "alive t d \<Longrightarrow> zset_at t (zput l d) = (l, if l = [] then None else d)"
  by (simp add: zput_def)

lemma reap_effect:
  fixes now :: int
  assumes R: "redis_sound R \<alpha>" and k: "zkey (lease_set \<alpha> s tid)"
    and z: "zset_at t (lease_set \<alpha> s tid) = (l, d)"
  defines "s' \<equiv> reap R t (leases_key tid) lease_prefix now s"
  shows "lease_set \<alpha> s' tid = zput (unexpired now l) d"
    and "tid' \<noteq> tid \<Longrightarrow> lease_set \<alpha> s' tid' = lease_set \<alpha> s tid'"
    and "zset_at t (lease_set \<alpha> s' tid) = (unexpired now l, if unexpired now l = [] then None else d)"
    and "rd_zcard R t (leases_key tid) s' = int (length (unexpired now l))"
    and "\<forall>x. k \<noteq> lease_prefix @ x \<Longrightarrow> k \<noteq> leases_key tid \<Longrightarrow> \<alpha> s' k = \<alpha> s k"
proof -
  define s1 where "s1 = fold (\<lambda>eid. rd_del R t (lease_prefix @ eid))
    (rd_zrangebyscore R t (leases_key tid) 0 now s) s"
  have s1': "\<forall>x. k \<noteq> lease_prefix @ x \<Longrightarrow> \<alpha> s1 k = \<alpha> s k" for k
    unfolding s1_def by (rule fold_del_other [OF R])
  then have s1: "lease_set \<alpha> s1 x = lease_set \<alpha> s x" for x by simp
  have "s' = rd_zremrangebyscore R t (leases_key tid) 0 now s1"
    by (simp add: s'_def reap_def s1_def)
  then have s': "\<alpha> s' = (\<alpha> s1)(leases_key tid := zput (unexpired now l) d)"
    using redis_zset(5) [OF R, of s1 "leases_key tid" t 0 now] k z by (simp add: s1 unexpired_def)
  show *: "lease_set \<alpha> s' tid = zput (unexpired now l) d" by (simp add: s')
  show "tid' \<noteq> tid \<Longrightarrow> lease_set \<alpha> s' tid' = lease_set \<alpha> s tid'" by (simp add: s' s1)
  show **: "zset_at t (lease_set \<alpha> s' tid) = (unexpired now l, if unexpired now l = [] then None else d)"
    unfolding * by (rule zset_at_zput [OF zset_at_alive [OF z]])
  show "rd_zcard R t (leases_key tid) s' = int (length (unexpired now l))"
    using redis_zset(1) [OF R, of s' "leases_key tid" t] ** by (simp add: *)
  show "\<forall>x. k \<noteq> lease_prefix @ x \<Longrightarrow> k \<noteq> leases_key tid \<Longrightarrow> \<alpha> s' k = \<alpha> s k" for k by (simp add: s' s1')
qed

lemma acquire_full:
  assumes R: "redis_sound R \<alpha>" and k: "zkey (lease_set \<alpha> s tid)"
    and z: "zset_at t (lease_set \<alpha> s tid) = (l, d)" and f: "max_limit \<le> int (length (unexpired now l))"
  shows "ACQUIRE_LUA R t (leases_key tid) lease_prefix now ttl lease_id max_limit s
    = ret 0 (reap R t (leases_key tid) lease_prefix now s)"
  using f by (simp add: ACQUIRE_LUA_def Let_def reap_effect [OF R k z])

lemma acquire_room:
  assumes R: "redis_sound R \<alpha>" and k: "zkey (lease_set \<alpha> s tid)"
    and z: "zset_at t (lease_set \<alpha> s tid) = (l, d)" and f: "int (length (unexpired now l)) < max_limit"
    and ttl: "0 < ttl"
  obtains s' where
    "ACQUIRE_LUA R t (leases_key tid) lease_prefix now ttl lease_id max_limit s
      = ret (int (length (dset lease_id (now + ttl) (unexpired now l)))) s'"
    "lease_set \<alpha> s' tid =
      Some (RZset (dset lease_id (now + ttl) (unexpired now l)), Some (t + of_int (ttl + 60)))"
    "\<And>tid'. tid' \<noteq> tid \<Longrightarrow> lease_set \<alpha> s' tid' = lease_set \<alpha> s tid'"
    "\<And>k. \<forall>x. k \<noteq> lease_prefix @ x \<Longrightarrow> k \<noteq> leases_key tid \<Longrightarrow> \<alpha> s' k = \<alpha> s k"
proof -
  define s2 where "s2 = reap R t (leases_key tid) lease_prefix now s"
  note s2 = reap_effect [OF R k z, where now = now, folded s2_def]
  define u where "u = unexpired now l"
  define d' where "d' = (if u = [] then None else d)"
  have d': "alive t d'" using zset_at_alive [OF z] by (simp add: d'_def)
  define s3 where "s3 = rd_zadd R t (leases_key tid) (now + ttl) lease_id s2"
  have s3: "\<alpha> s3 = (\<alpha> s2)(leases_key tid := Some (RZset (dset lease_id (now + ttl) u), d'))"
    using redis_zset(2) [OF R, of s2 "leases_key tid" t "now + ttl" lease_id] s2(1,3)
    by (simp add: s3_def u_def d'_def)
  obtain s4 where s4: "rd_set R t (lease_prefix @ lease_id) ''1'' ttl s3 = Some s4"
      "\<alpha> s4 = (\<alpha> s3)(lease_prefix @ lease_id := Some (RStr ''1'', Some (t + of_int ttl)))"
    using redis_set [OF R ttl] by metis
  define s5 where "s5 = rd_expire R t (leases_key tid) (ttl + 60) s4"
  have s5: "\<alpha> s5 = (\<alpha> s4)(leases_key tid :=
      Some (RZset (dset lease_id (now + ttl) u), Some (t + of_int (ttl + 60))))"
    using redis_expire [OF R, of t "leases_key tid" "ttl + 60" s4] d' by (simp add: s5_def s4 s3)
  have "rd_zcard R t (leases_key tid) s5 = int (length (dset lease_id (now + ttl) u))"
    using redis_zset(1) [OF R, of s5 "leases_key tid" t] ttl by (simp add: s5)
  then have "ACQUIRE_LUA R t (leases_key tid) lease_prefix now ttl lease_id max_limit s
      = ret (int (length (dset lease_id (now + ttl) u))) s5"
    using f s2(4) s4(1) by (simp add: ACQUIRE_LUA_def Let_def s2_def [symmetric] s3_def [symmetric]
        s5_def [symmetric])
  then show thesis by (rule that [folded u_def]) (simp_all add: s5 s4 s3 s2(2,5))
qed

text \<open>With a lease time that is not positive the script fails after it recorded the lease.\<close>

lemma acquire_bad_ttl:
  assumes R: "redis_sound R \<alpha>" and k: "zkey (lease_set \<alpha> s tid)"
    and z: "zset_at t (lease_set \<alpha> s tid) = (l, d)" and f: "int (length (unexpired now l)) < max_limit"
    and ttl: "ttl \<le> 0"
  obtains s' where
    "ACQUIRE_LUA R t (leases_key tid) lease_prefix now ttl lease_id max_limit s = raise RedisReply s'"
    "lease_set \<alpha> s' tid = Some (RZset (dset lease_id (now + ttl) (unexpired now l)),
       if unexpired now l = [] then None else d)"
    "\<And>tid'. tid' \<noteq> tid \<Longrightarrow> lease_set \<alpha> s' tid' = lease_set \<alpha> s tid'"
proof -
  define s2 where "s2 = reap R t (leases_key tid) lease_prefix now s"
  note s2 = reap_effect [OF R k z, where now = now, folded s2_def]
  define s3 where "s3 = rd_zadd R t (leases_key tid) (now + ttl) lease_id s2"
  have s3: "\<alpha> s3 = (\<alpha> s2)(leases_key tid :=
      Some (RZset (dset lease_id (now + ttl) (unexpired now l)), if unexpired now l = [] then None else d))"
    using redis_zset(2) [OF R, of s2 "leases_key tid" t "now + ttl" lease_id] s2(1,3)
    by (simp add: s3_def)
  have "ACQUIRE_LUA R t (leases_key tid) lease_prefix now ttl lease_id max_limit s = raise RedisReply s3"
    using f s2(4) redis_set_bad [OF R ttl, of t _ _ s3]
    by (simp add: ACQUIRE_LUA_def Let_def s2_def [symmetric] s3_def [symmetric])
  then show thesis by (rule that) (simp_all add: s3 s2(2))
qed

lemma release_effect:
  assumes R: "redis_sound R \<alpha>" and k: "zkey (lease_set \<alpha> s tid)"
    and z: "zset_at t (lease_set \<alpha> s tid) = (l, d)"
  obtains n s' where "RELEASE_LUA R t (leases_key tid) lease_prefix lease_id s = (n, s')"
    "n = (if lease_id \<in> set (dkeys l) then int (length (dpop lease_id l)) else - 1)"
    "lease_set \<alpha> s' tid = zput (dpop lease_id l) d"
    "\<And>tid'. tid' \<noteq> tid \<Longrightarrow> lease_set \<alpha> s' tid' = lease_set \<alpha> s tid'"
proof -
  define s1 where "s1 = snd (rd_zrem R t (leases_key tid) lease_id s)"
  have s1: "\<alpha> s1 = (\<alpha> s)(leases_key tid := zput (dpop lease_id l) d)"
    using redis_zset(4) [OF R k, of t lease_id] by (simp add: s1_def z)
  have r: "rd_zrem R t (leases_key tid) lease_id s = (if lease_id \<in> set (dkeys l) then 1 else 0, s1)"
    using redis_zset(3) [OF R k, of t lease_id] by (simp add: s1_def z prod_eq_iff)
  define s2 where "s2 = (if lease_id \<in> set (dkeys l) then rd_del R t (lease_prefix @ lease_id) s1 else s1)"
  have s2: "lease_set \<alpha> s2 x = lease_set \<alpha> s1 x" for x
    by (simp add: s2_def redis_del [OF R])
  have "rd_zcard R t (leases_key tid) s2 = int (length (dpop lease_id l))"
    using redis_zset(1) [OF R, of s2 "leases_key tid" t] zset_at_zput [OF zset_at_alive [OF z]]
    by (simp add: s2 s1)
  then have "RELEASE_LUA R t (leases_key tid) lease_prefix lease_id s
      = (if lease_id \<in> set (dkeys l) then int (length (dpop lease_id l)) else - 1, s2)"
    using r by (cases "lease_id \<in> set (dkeys l)") (simp_all add: RELEASE_LUA_def s2_def Let_def)
  then show thesis by (rule that) (simp_all add: s2 s1)
qed

end
