(* ===== verification/Lease_Properties.thy ===== *)
theory Lease_Properties
  imports Concurrency
begin

text \<open>
  Sequences of lease operations: the number of leases of a tenant never exceeds its limit,
  whatever the clocks do, and with clocks at most 30 seconds apart the Redis
  implementation answers exactly like an abstract lease table.
\<close>

section \<open>Sequences of operations\<close>

text \<open>An operation is stamped with the clock of its caller and the clock of the server.\<close>

datatype lease_action =
    Acquire string int string
  | Release string string
  | Count string

type_synonym lease_op = "time \<times> time \<times> lease_action"

fun lease_step :: "'r redis \<Rightarrow> int \<Rightarrow> lease_op \<Rightarrow> 'r \<Rightarrow> bool \<times> 'r" where
  "lease_step R ttl (clock, t, Acquire tid limit hex) s =
    (let (r, s') = try_acquire R ttl tid limit hex clock t s
     in (case r of Inr (Some x) \<Rightarrow> True | _ \<Rightarrow> False, s'))"
| "lease_step R ttl (clock, t, Release tid lease_id) s = (False, snd (lease_release R tid lease_id t s))"
| "lease_step R ttl (clock, t, Count tid) s = (False, snd (active_count R tid clock t s))"

fun tenant_of :: "lease_action \<Rightarrow> string" where
  "tenant_of (Acquire tid limit hex) = tid"
| "tenant_of (Release tid lease_id) = tid"
| "tenant_of (Count tid) = tid"

fun lease_run :: "'r redis \<Rightarrow> int \<Rightarrow> lease_op list \<Rightarrow> 'r \<Rightarrow> 'r" where
  "lease_run R ttl [] s = s"
| "lease_run R ttl (op # ops) s = lease_run R ttl ops (snd (lease_step R ttl op s))"

section \<open>The bound\<close>

definition raw :: "rentry option \<Rightarrow> (string, int) dict" where
  "raw e = (case e of Some (RZset l, d) \<Rightarrow> l | _ \<Rightarrow> [])"

lemma raw_simps [simp]: "raw None = []" "raw (Some (RZset l, d)) = l" "raw (zput l d) = l"
  by (simp_all add: raw_def zput_def)

lemma length_zset_at: "zset_at t e = (l, d) \<Longrightarrow> length l \<le> length (raw e)"
  by (auto simp: zset_at_def raw_def split: option.splits rvalue.splits if_splits)

lemma length_dset: "length (dset k v l) \<le> Suc (length l)"
  by (induction l) auto

lemma set_dset: "m \<in> set (dset k v l) \<Longrightarrow> m \<in> set l \<or> m = (k, v)"
  by (induction l) (auto split: if_splits)

lemma set_dpop: "set (dpop k l) \<subseteq> set l"
  by (induction l) auto

lemma length_unexpired: "length (unexpired now l) \<le> length l"
  by (simp add: unexpired_def)

definition capped :: "int \<Rightarrow> rentry option \<Rightarrow> bool" where
  "capped m e \<longleftrightarrow> zkey e \<and> int (length (raw e)) \<le> m"

lemma capped_zput: "capped m e \<Longrightarrow> zset_at t e = (l, d) \<Longrightarrow> length l' \<le> length l \<Longrightarrow> capped m (zput l' d')"
  using length_zset_at [of t e l d] by (simp add: capped_def)

text \<open>The entry an acquisition leaves for its tenant, granted or not.\<close>

lemma acquire_capped:
  fixes ttl :: int and hex :: string and clock t :: time
  assumes R: "redis_sound R \<alpha>" and w: "capped m (lease_set \<alpha> s tid)" and lim: "limit \<le> m"
  defines "s' \<equiv> snd (try_acquire R ttl tid limit hex clock t s)"
  shows "capped m (lease_set \<alpha> s' tid) \<and> (\<forall>x. x \<noteq> tid \<longrightarrow> lease_set \<alpha> s' x = lease_set \<alpha> s x)"
proof (cases "limit \<le> 0 \<or> \<not> rd_up R t s")
  case True
  then show ?thesis using w by (auto simp: s'_def try_acquire_def Let_def)
next
  case False
  obtain l d where z: "zset_at t (lease_set \<alpha> s tid) = (l, d)" by (cases "zset_at t (lease_set \<alpha> s tid)")
  have k: "zkey (lease_set \<alpha> s tid)" using w by (simp add: capped_def)
  define now where "now = py_int clock"
  define id where "id = new_lease_id tid hex"
  have s': "s' = snd (ACQUIRE_LUA R t (leases_key tid) lease_prefix now ttl id limit s)"
    using False by (simp add: s'_def try_acquire_def Let_def now_def id_def split: prod.split sum.split)
  show ?thesis
  proof (cases "limit \<le> int (length (unexpired now l))")
    case True
    from acquire_full [OF R k z this] have "s' = reap R t (leases_key tid) lease_prefix now s"
      by (simp add: s')
    then show ?thesis
      using reap_effect(1,2) [OF R k z] capped_zput [OF w z length_unexpired] by simp
  next
    case room: False
    then have bound: "int (length (dset id (now + ttl) (unexpired now l))) \<le> m"
      using length_dset [of id "now + ttl" "unexpired now l"] lim by linarith
    show ?thesis
    proof (cases "0 < ttl")
      case True
      from acquire_room [OF R k z _ this, of now limit id] room obtain s1 where
        "ACQUIRE_LUA R t (leases_key tid) lease_prefix now ttl id limit s
          = ret (int (length (dset id (now + ttl) (unexpired now l)))) s1"
        "lease_set \<alpha> s1 tid = Some (RZset (dset id (now + ttl) (unexpired now l)), Some (t + of_int (ttl + 60)))"
        "\<And>x. x \<noteq> tid \<Longrightarrow> lease_set \<alpha> s1 x = lease_set \<alpha> s x" by (metis not_le)
      with bound show ?thesis by (simp add: s' capped_def)
    next
      case False
      then have "ttl \<le> 0" by simp
      from acquire_bad_ttl [OF R k z _ this, of now limit id] room obtain s1 where
        "ACQUIRE_LUA R t (leases_key tid) lease_prefix now ttl id limit s = raise RedisReply s1"
        "lease_set \<alpha> s1 tid = Some (RZset (dset id (now + ttl) (unexpired now l)),
           if unexpired now l = [] then None else d)"
        "\<And>x. x \<noteq> tid \<Longrightarrow> lease_set \<alpha> s1 x = lease_set \<alpha> s x" by (metis not_le)
      with bound show ?thesis by (simp add: s' capped_def)
    qed
  qed
qed

lemma release_capped:
  fixes lease_id :: string and t :: time
  assumes R: "redis_sound R \<alpha>" and w: "capped m (lease_set \<alpha> s tid)"
  defines "s' \<equiv> snd (lease_release R tid lease_id t s)"
  shows "capped m (lease_set \<alpha> s' tid) \<and> (\<forall>x. x \<noteq> tid \<longrightarrow> lease_set \<alpha> s' x = lease_set \<alpha> s x)"
proof (cases "rd_up R t s")
  case True
  obtain l d where z: "zset_at t (lease_set \<alpha> s tid) = (l, d)" by (cases "zset_at t (lease_set \<alpha> s tid)")
  have k: "zkey (lease_set \<alpha> s tid)" using w by (simp add: capped_def)
  obtain n s1 where r: "RELEASE_LUA R t (leases_key tid) lease_prefix lease_id s = (n, s1)"
      "lease_set \<alpha> s1 tid = zput (dpop lease_id l) d"
      "\<And>x. x \<noteq> tid \<Longrightarrow> lease_set \<alpha> s1 x = lease_set \<alpha> s x"
    by (rule release_effect [OF R k z]) blast
  have "length (dpop lease_id l) \<le> length l" by (simp add: length_delete_le)
  from capped_zput [OF w z this] r True show ?thesis by (simp add: s'_def lease_release_def)
next
  case False
  then show ?thesis using w by (simp add: s'_def lease_release_def)
qed

lemma count_effect:
  assumes R: "redis_sound R \<alpha>" and k: "zkey (lease_set \<alpha> s tid)" and up: "rd_up R t s"
    and z: "zset_at t (lease_set \<alpha> s tid) = (l, d)"
  shows "lease_set \<alpha> (snd (active_count R tid clock t s)) x
    = (if x = tid then zput (unexpired (py_int clock) l) d else lease_set \<alpha> s x)"
  using redis_zset(5) [OF R k, of t 0 "py_int clock"] up z
  by (simp add: active_count_def Let_def unexpired_def)

lemma count_capped:
  fixes clock t :: time
  assumes R: "redis_sound R \<alpha>" and w: "capped m (lease_set \<alpha> s tid)"
  defines "s' \<equiv> snd (active_count R tid clock t s)"
  shows "capped m (lease_set \<alpha> s' tid) \<and> (\<forall>x. x \<noteq> tid \<longrightarrow> lease_set \<alpha> s' x = lease_set \<alpha> s x)"
proof (cases "rd_up R t s")
  case True
  obtain l d where z: "zset_at t (lease_set \<alpha> s tid) = (l, d)" by (cases "zset_at t (lease_set \<alpha> s tid)")
  have k: "zkey (lease_set \<alpha> s tid)" using w by (simp add: capped_def)
  show ?thesis
    using count_effect [OF R k True z] capped_zput [OF w z length_unexpired] by (simp add: s'_def)
next
  case False
  then show ?thesis using w by (simp add: s'_def active_count_def)
qed

text \<open>Every operation keeps every lease set typed, so one on another tenant is no exception.\<close>

lemma step_own:
  fixes ttl :: int and clock t :: time and act :: lease_action
  assumes R: "redis_sound R \<alpha>" and w: "capped b (lease_set \<alpha> s (tenant_of act))"
    and lim: "\<forall>x limit hex. act = Acquire x limit hex \<longrightarrow> limit \<le> b"
  defines "s' \<equiv> snd (lease_step R ttl (clock, t, act) s)"
  shows "capped b (lease_set \<alpha> s' (tenant_of act))
    \<and> (\<forall>y. y \<noteq> tenant_of act \<longrightarrow> lease_set \<alpha> s' y = lease_set \<alpha> s y)"
proof (cases act)
  case (Acquire y limit hex)
  then have "limit \<le> b" using lim by blast
  with acquire_capped [OF R w] Acquire show ?thesis
    by (simp add: s'_def case_prod_beta Let_def)
next
  case (Release y lease_id)
  then show ?thesis using release_capped [OF R w] by (simp add: s'_def)
next
  case (Count y)
  then show ?thesis using count_capped [OF R w] by (simp add: s'_def)
qed

lemma step_other:
  fixes ttl :: int and clock t :: time
  assumes R: "redis_sound R \<alpha>" and z: "zkey (lease_set \<alpha> s (tenant_of act))"
  defines "s' \<equiv> snd (lease_step R ttl (clock, t, act) s)"
  shows "zkey (lease_set \<alpha> s' (tenant_of act))"
    and "y \<noteq> tenant_of act \<Longrightarrow> lease_set \<alpha> s' y = lease_set \<alpha> s y"
proof -
  define b where "b = max (int (length (raw (lease_set \<alpha> s (tenant_of act)))))
    (case act of Acquire y limit hex \<Rightarrow> limit | _ \<Rightarrow> 0)"
  have "capped b (lease_set \<alpha> s (tenant_of act))" using z by (simp add: b_def capped_def)
  moreover have "\<forall>x limit hex. act = Acquire x limit hex \<longrightarrow> limit \<le> b" by (auto simp: b_def)
  ultimately have *: "capped b (lease_set \<alpha> s' (tenant_of act))
      \<and> (\<forall>y. y \<noteq> tenant_of act \<longrightarrow> lease_set \<alpha> s' y = lease_set \<alpha> s y)"
    unfolding s'_def by (rule step_own [OF R])
  then show "zkey (lease_set \<alpha> s' (tenant_of act))" by (simp add: capped_def)
  show "y \<noteq> tenant_of act \<Longrightarrow> lease_set \<alpha> s' y = lease_set \<alpha> s y" using * by blast
qed

lemma step_zkeys:
  assumes "redis_sound R \<alpha>" "\<forall>x. zkey (lease_set \<alpha> s x)"
  shows "\<forall>x. zkey (lease_set \<alpha> (snd (lease_step R ttl (clock, t, act) s)) x)"
proof
  fix x
  show "zkey (lease_set \<alpha> (snd (lease_step R ttl (clock, t, act) s)) x)"
    using step_other [OF assms(1), of s act] assms(2) by (cases "x = tenant_of act") simp_all
qed

lemma step_capped:
  assumes R: "redis_sound R \<alpha>" and w: "capped m (lease_set \<alpha> s tid)"
    and z: "\<forall>x. zkey (lease_set \<alpha> s x)"
    and lim: "\<forall>limit hex. act = Acquire tid limit hex \<longrightarrow> limit \<le> m"
  shows "capped m (lease_set \<alpha> (snd (lease_step R ttl (clock, t, act) s)) tid)"
proof (cases "tenant_of act = tid")
  case True
  moreover from this lim have "\<forall>x limit hex. act = Acquire x limit hex \<longrightarrow> limit \<le> m" by auto
  ultimately show ?thesis using step_own [OF R, of m s act ttl clock t] w by blast
next
  case False
  then show ?thesis using step_other(2) [OF R, of s act tid] z w by simp
qed

lemma run_capped:
  assumes R: "redis_sound R \<alpha>"
  shows "capped m (lease_set \<alpha> s tid) \<Longrightarrow> \<forall>x. zkey (lease_set \<alpha> s x)
    \<Longrightarrow> \<forall>clock t limit hex. (clock, t, Acquire tid limit hex) \<in> set ops \<longrightarrow> limit \<le> m
    \<Longrightarrow> capped m (lease_set \<alpha> (lease_run R ttl ops s) tid)
       \<and> zkey (lease_set \<alpha> (lease_run R ttl ops s) tid)"
proof (induction ops arbitrary: s)
  case Nil
  then show ?case by simp
next
  case (Cons op ops)
  obtain clock t act where op: "op = (clock, t, act)" by (cases op)
  have lim: "\<forall>limit hex. act = Acquire tid limit hex \<longrightarrow> limit \<le> m" using Cons.prems(3) op by auto
  have "\<forall>clock t limit hex. (clock, t, Acquire tid limit hex) \<in> set ops \<longrightarrow> limit \<le> m"
    using Cons.prems(3) by simp
  with step_capped [OF R Cons.prems(1,2) lim, of ttl clock t]
    step_zkeys [OF R Cons.prems(2), of ttl clock t act] Cons.IH
  show ?case unfolding op lease_run.simps by blast
qed

text \<open>
  C8: over any sequence of acquisitions, releases and counts by any tenants, with any clock
  readings and whether or not the server answers, the number of leases a tenant has is at
  most the largest limit it was ever checked against.
\<close>

theorem lease_count_bounded:
  assumes "redis_sound R \<alpha>" "\<forall>x. \<alpha> s (leases_key x) = None" "0 \<le> m"
    and "\<forall>clock t limit hex. (clock, t, Acquire tid limit hex) \<in> set ops \<longrightarrow> limit \<le> m"
  shows "rd_zcard R t (leases_key tid) (lease_run R ttl ops s) \<le> m"
proof -
  let ?e = "lease_set \<alpha> (lease_run R ttl ops s) tid"
  have "capped m (lease_set \<alpha> s tid)" "\<forall>x. zkey (lease_set \<alpha> s x)"
    using assms(2,3) by (simp_all add: capped_def)
  from run_capped [OF assms(1) this assms(4)] have w: "capped m ?e" "zkey ?e" by blast+
  obtain l d where z: "zset_at t ?e = (l, d)" by (cases "zset_at t ?e")
  show ?thesis
    using redis_zset(1) [OF assms(1) w(2), of t] length_zset_at [OF z] w(1) z by (simp add: capped_def)
qed

definition demo_lease_ops :: "lease_op list" where
  "demo_lease_ops =
    [(1000, 1000, Acquire ''acme'' 1 ''aaaabbbbccccdddd''), (1001, 1001, Acquire ''acme'' 1 ''eeeeffff00001111''),
     (1002, 1002, Acquire ''beta'' 5 ''0000111122223333'')]"

theorem lease_count_bounded_witness:
  "rd_zcard kv_redis 1003 (leases_key ''acme'') (lease_run kv_redis 120 demo_lease_ops []) \<le> 1"
  by (rule lease_count_bounded [OF kv_redis_sound]) (auto simp: demo_lease_ops_def)

section \<open>The abstract lease table\<close>

text \<open>
  What a caller is promised: a lease is held from its grant until it is released or its
  time is over, and a request is granted exactly when fewer leases than the limit are held.
\<close>

definition held :: "int \<Rightarrow> (string, int) dict \<Rightarrow> (string, int) dict" where
  "held now A = filter (\<lambda>m. now < snd m) A"

fun table_step :: "string \<Rightarrow> int \<Rightarrow> lease_op \<Rightarrow> (string, int) dict \<Rightarrow> bool \<times> (string, int) dict" where
  "table_step tid ttl (clock, t, Acquire x limit hex) A =
    (if x = tid \<and> int (length (held (py_int clock) A)) < limit
     then (True, dset (new_lease_id tid hex) (py_int clock + ttl) A) else (False, A))"
| "table_step tid ttl (clock, t, Release x lease_id) A = (False, if x = tid then dpop lease_id A else A)"
| "table_step tid ttl (clock, t, Count x) A = (False, A)"

text \<open>The answers to the requests of one tenant, from Redis and from the table.\<close>

fun redis_answers :: "'r redis \<Rightarrow> string \<Rightarrow> int \<Rightarrow> lease_op list \<Rightarrow> 'r \<Rightarrow> bool list" where
  "redis_answers R tid ttl [] s = []"
| "redis_answers R tid ttl (op # ops) s =
    (let (b, s') = lease_step R ttl op s
     in (b \<and> tenant_of (snd (snd op)) = tid) # redis_answers R tid ttl ops s')"

fun table_answers :: "string \<Rightarrow> int \<Rightarrow> lease_op list \<Rightarrow> (string, int) dict \<Rightarrow> bool list" where
  "table_answers tid ttl [] A = []"
| "table_answers tid ttl (op # ops) A =
    (let (b, A') = table_step tid ttl op A in b # table_answers tid ttl ops A')"

text \<open>
  Clocks that do not run backwards, start at the epoch, and stay within 30 seconds of the
  server's.
\<close>

fun timely :: "int \<Rightarrow> lease_op list \<Rightarrow> bool" where
  "timely prev [] \<longleftrightarrow> True"
| "timely prev ((clock, t, act) # ops) \<longleftrightarrow>
    (let now = py_int clock
     in prev \<le> now \<and> \<bar>t - of_int now\<bar> \<le> 30 \<and> timely now ops)"

subsection \<open>The simulation\<close>

text \<open>Two tables that agree on the leases held at a time.\<close>

definition agree :: "int \<Rightarrow> (string, int) dict \<Rightarrow> (string, int) dict \<Rightarrow> bool" where
  "agree now l A \<longleftrightarrow> dict_wf l \<and> dict_wf A \<and> (\<forall>i d. now < d \<longrightarrow> (dget l i = Some d \<longleftrightarrow> dget A i = Some d))"

lemma length_held:
  assumes "dict_wf l"
  shows "length (held now l) = card {m \<in> set l. now < snd m}"
proof -
  have "distinct (held now l)" using assms by (simp add: held_def distinct_map)
  from distinct_card [OF this] show ?thesis by (simp add: held_def)
qed

lemma agree_length:
  assumes "agree now l A"
  shows "length (held now l) = length (held now A)"
proof -
  have "{m \<in> set l. now < snd m} = {m \<in> set A. now < snd m}"
    using assms by (auto simp: agree_def dict_wf_get_iff)
  then show ?thesis using assms by (simp add: length_held agree_def)
qed

lemma agree_later: "agree now l A \<Longrightarrow> now \<le> now' \<Longrightarrow> agree now' l A"
  by (auto simp: agree_def)

lemma agree_dset: "agree now l A \<Longrightarrow> agree now (dset i d l) (dset i d A)"
  by (auto simp: agree_def dget_dset)

lemma agree_dpop: "agree now l A \<Longrightarrow> agree now (dpop i l) (dpop i A)"
  by (auto simp: agree_def dget_dpop)

lemma agree_unexpired:
  assumes "agree now l A" "\<forall>m \<in> set l. 0 \<le> snd m"
  shows "agree now (unexpired now l) A" "unexpired now l = held now l"
proof -
  show u: "unexpired now l = held now l"
    using assms(2) by (auto simp: unexpired_def held_def in_score_def intro!: filter_cong)
  have "dict_wf (held now l)" using assms(1) by (simp add: agree_def held_def distinct_map_filter)
  moreover have "dget (held now l) i = Some d \<longleftrightarrow> dget l i = Some d \<and> now < d" for i d
    using dict_wf_get_iff [OF calculation] dict_wf_get_iff [of l] assms(1)
    by (simp add: agree_def held_def)
  ultimately show "agree now (unexpired now l) A"
    unfolding u agree_def using assms(1) unfolding agree_def by blast
qed

lemma agree_all_expired: "agree now l A \<Longrightarrow> \<forall>m \<in> set l. snd m \<le> now \<Longrightarrow> agree now [] A"
  by (fastforce simp: agree_def dest: map_of_SomeD)

text \<open>
  The lease set of Redis against the table: they agree on what is held, no deadline lies
  further ahead than a lease that begins now, and the key outlives every member by 30 seconds.
\<close>

definition simulates :: "int \<Rightarrow> int \<Rightarrow> rentry option \<Rightarrow> (string, int) dict \<Rightarrow> bool" where
  "simulates ttl now e A \<longleftrightarrow>
    (\<exists>l D. e = zput l (Some D) \<and> agree now l A
      \<and> (\<forall>m \<in> set l. 0 \<le> snd m \<and> snd m \<le> now + ttl \<and> of_int (snd m) + 30 \<le> D))"

lemma simulates_zkey: "simulates ttl now e A \<Longrightarrow> zkey e"
  by (auto simp: simulates_def)

text \<open>What a client sees at a later time, be the key expired or not.\<close>

lemma simulates_seen:
  assumes "simulates ttl prev e A" "prev \<le> now" "\<bar>t - of_int now\<bar> \<le> 30" "zset_at t e = (l, d)"
  obtains D where "agree now l A" "\<forall>m \<in> set l. 0 \<le> snd m \<and> snd m \<le> now + ttl \<and> of_int (snd m) + 30 \<le> D"
    "l \<noteq> [] \<Longrightarrow> d = Some D"
proof -
  obtain r D where e: "e = zput r (Some D)" and a: "agree prev r A"
    and m: "\<forall>m \<in> set r. 0 \<le> snd m \<and> snd m \<le> prev + ttl \<and> of_int (snd m) + 30 \<le> D"
    using assms(1) unfolding simulates_def by blast
  have a': "agree now r A" by (rule agree_later [OF a assms(2)])
  show thesis
  proof (cases "r \<noteq> [] \<and> t < D")
    case True
    then have "l = r" "d = Some D" using assms(4) e by (simp_all add: zput_def)
    with a' m assms(2) show thesis by (intro that [of D]) auto
  next
    case False
    then have l: "l = []" using assms(4) e by (auto simp: zput_def split: if_splits)
    have "\<forall>m \<in> set r. snd m \<le> now"
    proof
      fix x assume x: "x \<in> set r"
      then have "D \<le> t" using False by (cases r) auto
      moreover have "of_int (snd x) + 30 \<le> D" using m x by blast
      ultimately have "of_int (snd x) \<le> (of_int now :: real)" using assms(3) by linarith
      then show "snd x \<le> now" by simp
    qed
    from agree_all_expired [OF a' this] l show thesis by (intro that [of D]) simp_all
  qed
qed

lemma simulates_unchanged:
  assumes "simulates ttl prev e A" "prev \<le> now"
  shows "simulates ttl now e A"
proof -
  obtain r D where "e = zput r (Some D)" "agree prev r A"
    "\<forall>m \<in> set r. 0 \<le> snd m \<and> snd m \<le> prev + ttl \<and> of_int (snd m) + 30 \<le> D"
    using assms(1) unfolding simulates_def by blast
  then show ?thesis unfolding simulates_def using assms(2) agree_later by fastforce
qed

lemma simulatesI:
  assumes "agree now l A" "\<forall>m \<in> set l. 0 \<le> snd m \<and> snd m \<le> now + ttl \<and> of_int (snd m) + 30 \<le> D"
    "l \<noteq> [] \<Longrightarrow> d = Some D"
  shows "simulates ttl now (zput l d) A"
  unfolding simulates_def using assms by (intro exI [of _ l] exI [of _ D]) (auto simp: zput_def)

lemma step_simulates:
  assumes R: "redis_sound R \<alpha>" and up: "\<forall>t s. rd_up R t s" and ttl: "0 < ttl"
    and z: "\<forall>x. zkey (lease_set \<alpha> s x)"
    and sim: "simulates ttl prev (lease_set \<alpha> s tid) A"
    and time: "prev \<le> py_int clock" "0 \<le> prev" "\<bar>t - of_int (py_int clock)\<bar> \<le> 30"
  shows "(fst (lease_step R ttl (clock, t, act) s) \<and> tenant_of act = tid) = fst (table_step tid ttl (clock, t, act) A)
    \<and> simulates ttl (py_int clock) (lease_set \<alpha> (snd (lease_step R ttl (clock, t, act) s)) tid)
        (snd (table_step tid ttl (clock, t, act) A))"
proof (cases "tenant_of act = tid")
  case False
  have "table_step tid ttl (clock, t, act) A = (False, A)" using False by (cases act) auto
  moreover have "lease_set \<alpha> (snd (lease_step R ttl (clock, t, act) s)) tid = lease_set \<alpha> s tid"
    using step_other(2) [OF R, of s act tid] z False by simp
  ultimately show ?thesis using simulates_unchanged [OF sim time(1)] False by simp
next
  case True
  define now where "now = py_int clock"
  have k: "zkey (lease_set \<alpha> s tid)" using z by blast
  obtain l d where zs: "zset_at t (lease_set \<alpha> s tid) = (l, d)" by (cases "zset_at t (lease_set \<alpha> s tid)")
  obtain D where D: "agree now l A"
      "\<forall>m \<in> set l. 0 \<le> snd m \<and> snd m \<le> now + ttl \<and> of_int (snd m) + 30 \<le> D" "l \<noteq> [] \<Longrightarrow> d = Some D"
    using simulates_seen [OF sim time(1,3) zs] unfolding now_def by blast
  have u: "agree now (unexpired now l) A" "unexpired now l = held now l"
    using agree_unexpired [OF D(1)] D(2) by blast+
  have um: "\<forall>m \<in> set (unexpired now l). 0 \<le> snd m \<and> snd m \<le> now + ttl \<and> of_int (snd m) + 30 \<le> D"
    using D(2) set_unexpired_subset [of now l] by blast
  have ud: "unexpired now l \<noteq> [] \<Longrightarrow> d = Some D" using D(3) by (cases "l = []") (simp_all add: unexpired_def)
  have len: "length (held now A) = length (unexpired now l)" using agree_length [OF D(1)] u(2) by simp
  show ?thesis
  proof (cases act)
    case (Acquire x limit hex)
    with True have act: "act = Acquire tid limit hex" by simp
    define id where "id = new_lease_id tid hex"
    show ?thesis
    proof (cases "int (length (held now A)) < limit")
      case room: True
      then have pos: "\<not> limit \<le> 0" by linarith
      from room len have "int (length (unexpired now l)) < limit" by simp
      from acquire_room [OF R k zs this ttl, of id] obtain s1 where s1:
        "ACQUIRE_LUA R t (leases_key tid) lease_prefix now ttl id limit s
          = ret (int (length (dset id (now + ttl) (unexpired now l)))) s1"
        "lease_set \<alpha> s1 tid = Some (RZset (dset id (now + ttl) (unexpired now l)), Some (t + of_int (ttl + 60)))"
        by blast
      have ne: "dset id (now + ttl) (unexpired now l) \<noteq> []" by (cases "unexpired now l") auto
      have st: "lease_step R ttl (clock, t, act) s = (True, s1)"
        using s1(1) pos up ne by (simp add: act try_acquire_def Let_def flip: now_def id_def)
      have tb: "table_step tid ttl (clock, t, act) A = (True, dset id (now + ttl) A)"
        using room by (simp add: act flip: now_def id_def)
      have "simulates ttl now (zput (dset id (now + ttl) (unexpired now l)) (Some (t + of_int (ttl + 60))))
          (dset id (now + ttl) A)"
      proof (rule simulatesI [where D = "t + of_int (ttl + 60)"])
        show "\<forall>m \<in> set (dset id (now + ttl) (unexpired now l)).
            0 \<le> snd m \<and> snd m \<le> now + ttl \<and> of_int (snd m) + 30 \<le> t + of_int (ttl + 60)"
        proof
          fix m assume "m \<in> set (dset id (now + ttl) (unexpired now l))"
          then have "m \<in> set (unexpired now l) \<or> snd m = now + ttl"
            by (auto dest: set_dset)
          then have "0 \<le> snd m \<and> snd m \<le> now + ttl" using um ttl time(1,2) now_def by auto
          moreover from this have "of_int (snd m) \<le> (of_int now + of_int ttl :: real)" by linarith
          ultimately show "0 \<le> snd m \<and> snd m \<le> now + ttl \<and> of_int (snd m) + 30 \<le> t + of_int (ttl + 60)"
            using time(3) unfolding now_def by (simp add: abs_le_iff)
        qed
      qed (simp_all add: agree_dset [OF u(1)])
      with ne show ?thesis by (simp add: st tb s1(2) True zput_def flip: now_def)
    next
      case full: False
      then have tb: "table_step tid ttl (clock, t, act) A = (False, A)" by (simp add: act flip: now_def)
      show ?thesis
      proof (cases "limit \<le> 0")
        case True
        then have "lease_step R ttl (clock, t, act) s = (False, s)" by (simp add: act try_acquire_def)
        with simulates_unchanged [OF sim time(1)] show ?thesis by (simp add: tb)
      next
        case False
        have f: "limit \<le> int (length (unexpired now l))" using full len by simp
        have st: "lease_step R ttl (clock, t, act) s = (False, reap R t (leases_key tid) lease_prefix now s)"
          using acquire_full [OF R k zs f] False up by (simp add: act try_acquire_def Let_def flip: now_def)
        from simulatesI [OF u(1) um ud] show ?thesis
          by (simp add: st tb reap_effect(1) [OF R k zs] flip: now_def)
      qed
    qed
  next
    case (Release x lease_id)
    with True have act: "act = Release tid lease_id" by simp
    obtain n s1 where r: "RELEASE_LUA R t (leases_key tid) lease_prefix lease_id s = (n, s1)"
        "lease_set \<alpha> s1 tid = zput (dpop lease_id l) d"
      by (rule release_effect [OF R k zs]) blast
    have sub: "set (dpop lease_id l) \<subseteq> set l" by (rule set_dpop)
    have "simulates ttl now (zput (dpop lease_id l) d) (dpop lease_id A)"
      by (rule simulatesI [OF agree_dpop [OF D(1)]]) (use D(2) sub in blast, use D(3) in \<open>cases "l = []", simp_all\<close>)
    then show ?thesis using r up by (simp add: act lease_release_def flip: now_def)
  next
    case (Count x)
    with True have act: "act = Count tid" by simp
    from simulatesI [OF u(1) um ud] show ?thesis
      using count_effect [OF R k _ zs, of clock tid] up by (simp add: act flip: now_def)
  qed
qed

lemma answers_agree:
  assumes "redis_sound R \<alpha>" "\<forall>t s. rd_up R t s" "0 < ttl"
  shows "\<forall>x. zkey (lease_set \<alpha> s x) \<Longrightarrow> simulates ttl prev (lease_set \<alpha> s tid) A \<Longrightarrow> 0 \<le> prev
    \<Longrightarrow> timely prev ops \<Longrightarrow> redis_answers R tid ttl ops s = table_answers tid ttl ops A"
proof (induction ops arbitrary: s A prev)
  case Nil
  then show ?case by simp
next
  case (Cons op ops)
  obtain clock t act where op: "op = (clock, t, act)" by (cases op)
  have tm: "prev \<le> py_int clock" "\<bar>t - of_int (py_int clock)\<bar> \<le> 30" "timely (py_int clock) ops"
    using Cons.prems(4) by (simp_all add: op Let_def)
  note st = step_simulates [OF assms Cons.prems(1,2) tm(1) Cons.prems(3) tm(2), of act]
  have "redis_answers R tid ttl ops (snd (lease_step R ttl op s))
      = table_answers tid ttl ops (snd (table_step tid ttl op A))"
    using st tm Cons.prems(3) unfolding op
    by (intro Cons.IH [OF step_zkeys [OF assms(1) Cons.prems(1)]]) auto
  with st show ?case unfolding op by (simp add: case_prod_beta Let_def)
qed

text \<open>
  C7: the Redis implementation refines the lease table. From an empty server, over any
  sequence of operations of any tenants whose clocks do not run backwards and stay within
  30 seconds of the server's, each request of a tenant is granted exactly when the table
  grants it: when fewer of the leases it was granted are neither released nor past their time.
\<close>

theorem leases_refine_table:
  assumes "redis_sound R \<alpha>" "\<forall>t s. rd_up R t s" "\<forall>x. \<alpha> s (leases_key x) = None"
    and "0 < ttl" "timely 0 ops"
  shows "redis_answers R tid ttl ops s = table_answers tid ttl ops []"
proof (rule answers_agree [OF assms(1,2,4)])
  show "\<forall>x. zkey (lease_set \<alpha> s x)" using assms(3) by simp
  have "simulates ttl 0 (zput [] (Some 0)) []" unfolding simulates_def agree_def by fastforce
  then show "simulates ttl 0 (lease_set \<alpha> s tid) []" using assms(3) by (simp add: zput_def)
qed (use assms(5) in simp_all)

theorem leases_refine_table_witness:
  "redis_answers kv_redis ''acme'' 120 demo_lease_ops [] = [True, False, False]"
proof -
  have up: "\<forall>t s. rd_up kv_redis t s" by (simp add: kv_redis_def)
  have "timely 0 demo_lease_ops" by (simp add: demo_lease_ops_def py_int_def)
  from leases_refine_table [OF kv_redis_sound up _ _ this, of "[]" 120 "''acme''"]
  have "redis_answers kv_redis ''acme'' 120 demo_lease_ops [] = table_answers ''acme'' 120 demo_lease_ops []"
    by simp
  then show ?thesis by (simp add: demo_lease_ops_def py_int_def held_def)
qed

end
