(* ===== verification/Cache.thy ===== *)
theory Cache
  imports Redis Jwt
begin

text \<open>
  The Redis cache (\<open>cache.py\<close>): cached tenant entries, the daily token counter, the
  requests-per-minute window, the login window and the one-shot OIDC states. The four Lua
  scripts are translated command by command.

  \<^item> The date in the quota key (\<open>time.strftime\<close>) is an argument; \<open>t\<close> is the server's clock.
  \<^item> A counter that does not hold a number makes \<open>tonumber\<close>/\<open>int\<close> fail: \<open>BadNumber\<close>.
  \<^item> \<open>init_scripts\<close> only registers the scripts and has no counterpart.
\<close>

section \<open>The scripts\<close>

text \<open>\<open>tonumber(redis.call('get', key) or "0")\<close>.\<close>

definition counter :: "'r redis \<Rightarrow> time \<Rightarrow> string \<Rightarrow> 'r \<Rightarrow> int option" where
  "counter R t key s = (case rd_get R t key s of None \<Rightarrow> Some 0 | Some v \<Rightarrow> dec_int v)"

definition RESERVE_QUOTA_LUA ::
  "'r redis \<Rightarrow> time \<Rightarrow> string \<Rightarrow> int \<Rightarrow> int \<Rightarrow> int \<Rightarrow> 'r \<Rightarrow> (redis_error, int \<times> int, 'r) outcome" where
  "RESERVE_QUOTA_LUA R t key add cap ttl s =
    (case counter R t key s of
       None \<Rightarrow> raise BadNumber s
     | Some cur \<Rightarrow>
         if cur + add > cap then ret (0, max 0 (cap - cur)) s
         else case rd_incrby R t key add s of
           None \<Rightarrow> raise RedisReply s
         | Some (n, s1) \<Rightarrow> ret (1, max 0 (cap - n)) (rd_expire R t key ttl s1))"

definition CHECK_RPM_LUA ::
  "'r redis \<Rightarrow> time \<Rightarrow> string \<Rightarrow> int \<Rightarrow> int \<Rightarrow> string \<Rightarrow> 'r \<Rightarrow> (int \<times> int) \<times> 'r" where
  "CHECK_RPM_LUA R t key now limit uid s =
    (let s1 = rd_zremrangebyscore R t key 0 (now - 60) s;
         count = rd_zcard R t key s1
     in if count \<ge> limit then ((0, max 0 (limit - count)), s1)
        else let s2 = rd_zadd R t key now (int_repr now @ '':'' @ uid) s1;
                 s3 = (if count = 0 then rd_expire R t key 70 s2 else s2)
             in ((1, max 0 (limit - count - 1)), s3))"

definition CHECK_LOGIN_LUA ::
  "'r redis \<Rightarrow> time \<Rightarrow> string \<Rightarrow> int \<Rightarrow> int \<Rightarrow> 'r \<Rightarrow> (redis_error, int, 'r) outcome" where
  "CHECK_LOGIN_LUA R t key limit window s =
    (case counter R t key s of
       None \<Rightarrow> raise BadNumber s
     | Some cur \<Rightarrow>
         if cur \<ge> limit then ret 0 s
         else case rd_incrby R t key 1 s of
           None \<Rightarrow> raise RedisReply s
         | Some (n, s1) \<Rightarrow> ret 1 (if n = 1 then rd_expire R t key window s1 else s1))"

definition POP_OIDC_STATE_LUA :: "'r redis \<Rightarrow> time \<Rightarrow> string \<Rightarrow> 'r \<Rightarrow> string option \<times> 'r" where
  "POP_OIDC_STATE_LUA R t key s =
    (case rd_get R t key s of None \<Rightarrow> (None, s) | Some v \<Rightarrow> (Some v, rd_del R t key s))"

section \<open>Keys\<close>

definition api_key_key :: "string \<Rightarrow> string" where
  "api_key_key api_key = ''apikey:'' @ sha256_hash api_key"

definition tenant_key :: "string \<Rightarrow> string" where
  "tenant_key tid = ''tenant:'' @ tid"

definition quota_key :: "string \<Rightarrow> string \<Rightarrow> string" where
  "quota_key tid day = ''quota:'' @ tid @ '':'' @ day"

definition rpm_key :: "string \<Rightarrow> string" where
  "rpm_key tid = ''rpm:'' @ tid"

definition login_key :: "string \<Rightarrow> string \<Rightarrow> string" where
  "login_key tid ip = ''loginrate:'' @ tid @ '':'' @ ip"

definition login_user_key :: "string \<Rightarrow> string \<Rightarrow> string" where
  "login_user_key tid username = ''loginrate:u:'' @ tid @ '':'' @ py_lower username"

definition oidc_state_key :: "string \<Rightarrow> string" where
  "oidc_state_key state = ''oidcstate:'' @ state"

section \<open>Cached entries\<close>

text \<open>A call that may not reach the server.\<close>

definition call :: "'r redis \<Rightarrow> time \<Rightarrow> ('r \<Rightarrow> (redis_error, 'a, 'r) outcome) \<Rightarrow> 'r \<Rightarrow> (redis_error, 'a, 'r) outcome" where
  "call R t f s = (if rd_up R t s then f s else raise RedisDown s)"

text \<open>
  \<open>raw = get(key); if not raw: return None; return json.loads(raw)\<close>, where unreadable text is
  dropped. A cached \<open>null\<close> is Python's \<open>None\<close>.
\<close>

definition read_entry ::
  "'r redis \<Rightarrow> (string \<Rightarrow> real) \<Rightarrow> string \<Rightarrow> time \<Rightarrow> 'r \<Rightarrow> (redis_error, json option, 'r) outcome" where
  "read_entry R fparse key t =
    call R t (\<lambda>s.
      case rd_get R t key s of
        None \<Rightarrow> ret None s
      | Some v \<Rightarrow>
          if v = [] then ret None s
          else case loads fparse v of
            Some JNull \<Rightarrow> ret None s
          | Some j \<Rightarrow> ret (Some j) s
          | None \<Rightarrow> call R t (\<lambda>s. ret None (rd_del R t key s)) s)"

definition write_entry ::
  "'r redis \<Rightarrow> (real \<Rightarrow> string) \<Rightarrow> string \<Rightarrow> json \<Rightarrow> int \<Rightarrow> time \<Rightarrow> 'r \<Rightarrow> (redis_error, unit, 'r) outcome" where
  "write_entry R frepr key info ttl t =
    call R t (\<lambda>s. case rd_set R t key (dumps_default frepr info) ttl s of
                    None \<Rightarrow> raise RedisReply s
                  | Some s' \<Rightarrow> ret () s')"

definition drop_entry :: "'r redis \<Rightarrow> string \<Rightarrow> time \<Rightarrow> 'r \<Rightarrow> (redis_error, unit, 'r) outcome" where
  "drop_entry R key t = call R t (\<lambda>s. ret () (rd_del R t key s))"

definition get_tenant_by_api_key ::
  "'r redis \<Rightarrow> (string \<Rightarrow> real) \<Rightarrow> string \<Rightarrow> time \<Rightarrow> 'r \<Rightarrow> (redis_error, json option, 'r) outcome" where
  "get_tenant_by_api_key R fparse api_key t = read_entry R fparse (api_key_key api_key) t"

definition set_api_key ::
  "'r redis \<Rightarrow> (real \<Rightarrow> string) \<Rightarrow> string \<Rightarrow> json \<Rightarrow> int \<Rightarrow> time \<Rightarrow> 'r \<Rightarrow> (redis_error, unit, 'r) outcome" where
  "set_api_key R frepr api_key tenant_info ttl t = write_entry R frepr (api_key_key api_key) tenant_info ttl t"

definition invalidate_api_key :: "'r redis \<Rightarrow> string \<Rightarrow> time \<Rightarrow> 'r \<Rightarrow> (redis_error, unit, 'r) outcome" where
  "invalidate_api_key R api_key t = drop_entry R (api_key_key api_key) t"

definition invalidate_api_key_by_hash ::
  "'r redis \<Rightarrow> string \<Rightarrow> time \<Rightarrow> 'r \<Rightarrow> (redis_error, unit, 'r) outcome" where
  "invalidate_api_key_by_hash R key_hash t = drop_entry R (''apikey:'' @ key_hash) t"

definition invalidate_tenant_api_keys ::
  "'r redis \<Rightarrow> string \<Rightarrow> string list \<Rightarrow> time \<Rightarrow> 'r \<Rightarrow> (redis_error, unit, 'r) outcome" where
  "invalidate_tenant_api_keys R tid api_key_hashes t s =
    (if api_key_hashes = [] then ret () s
     else call R t (\<lambda>s. ret () (fold (\<lambda>h. rd_del R t (''apikey:'' @ h)) api_key_hashes s)) s)"

definition cache_get_tenant ::
  "'r redis \<Rightarrow> (string \<Rightarrow> real) \<Rightarrow> string \<Rightarrow> time \<Rightarrow> 'r \<Rightarrow> (redis_error, json option, 'r) outcome" where
  "cache_get_tenant R fparse tid t = read_entry R fparse (tenant_key tid) t"

definition cache_set_tenant ::
  "'r redis \<Rightarrow> (real \<Rightarrow> string) \<Rightarrow> string \<Rightarrow> json \<Rightarrow> int \<Rightarrow> time \<Rightarrow> 'r \<Rightarrow> (redis_error, unit, 'r) outcome" where
  "cache_set_tenant R frepr tid info ttl t = write_entry R frepr (tenant_key tid) info ttl t"

definition invalidate_tenant :: "'r redis \<Rightarrow> string \<Rightarrow> time \<Rightarrow> 'r \<Rightarrow> (redis_error, unit, 'r) outcome" where
  "invalidate_tenant R tid t = drop_entry R (tenant_key tid) t"

section \<open>Daily quota\<close>

text \<open>\<open>int(await get(key) or 0)\<close>, where an empty text reads as 0.\<close>

definition used_today :: "'r redis \<Rightarrow> string \<Rightarrow> string \<Rightarrow> time \<Rightarrow> 'r \<Rightarrow> (redis_error, int, 'r) outcome" where
  "used_today R tid day t =
    call R t (\<lambda>s.
      if rd_get R t (quota_key tid day) s = Some [] then ret 0 s
      else case counter R t (quota_key tid day) s of None \<Rightarrow> raise BadNumber s | Some n \<Rightarrow> ret n s)"

definition check_daily_quota ::
  "'r redis \<Rightarrow> string \<Rightarrow> int \<Rightarrow> string \<Rightarrow> time \<Rightarrow> 'r \<Rightarrow> (redis_error, bool \<times> int, 'r) outcome" where
  "check_daily_quota R tid daily_limit day t s =
    (case used_today R tid day t s of
       (Inl e, s') \<Rightarrow> raise e s'
     | (Inr used, s') \<Rightarrow> ret (used < daily_limit, max 0 (daily_limit - used)) s')"

definition reserve_daily_quota ::
  "'r redis \<Rightarrow> string \<Rightarrow> int \<Rightarrow> string \<Rightarrow> time \<Rightarrow> 'r \<Rightarrow> (redis_error, bool \<times> int, 'r) outcome" where
  "reserve_daily_quota R tid daily_limit day t =
    call R t (\<lambda>s. case RESERVE_QUOTA_LUA R t (quota_key tid day) 0 daily_limit (86400 * 7) s of
                    (Inl e, s') \<Rightarrow> raise e s'
                  | (Inr (r0, r1), s') \<Rightarrow> ret (r0 \<noteq> 0, r1) s')"

definition refund_daily_quota ::
  "'r redis \<Rightarrow> string \<Rightarrow> int \<Rightarrow> string \<Rightarrow> time \<Rightarrow> 'r \<Rightarrow> (redis_error, unit, 'r) outcome" where
  "refund_daily_quota R tid tokens day t s =
    (if tokens > 0 then
       call R t (\<lambda>s. case rd_incrby R t (quota_key tid day) (- tokens) s of
                       None \<Rightarrow> raise RedisReply s
                     | Some (n, s') \<Rightarrow> ret () s') s
     else ret () s)"

text \<open>A pipeline queues both commands; the expiry is refreshed even if the increment fails.\<close>

definition record_token_usage ::
  "'r redis \<Rightarrow> string \<Rightarrow> int \<Rightarrow> string \<Rightarrow> time \<Rightarrow> 'r \<Rightarrow> (redis_error, int, 'r) outcome" where
  "record_token_usage R tid tokens day t =
    call R t (\<lambda>s. case rd_incrby R t (quota_key tid day) tokens s of
                    None \<Rightarrow> raise RedisReply (rd_expire R t (quota_key tid day) (86400 * 7) s)
                  | Some (n, s') \<Rightarrow> ret n (rd_expire R t (quota_key tid day) (86400 * 7) s'))"

definition remaining_quota ::
  "'r redis \<Rightarrow> string \<Rightarrow> int \<Rightarrow> string \<Rightarrow> time \<Rightarrow> 'r \<Rightarrow> (redis_error, int, 'r) outcome" where
  "remaining_quota R tid daily_limit day t s =
    (case used_today R tid day t s of
       (Inl e, s') \<Rightarrow> raise e s'
     | (Inr used, s') \<Rightarrow> ret (max 0 (daily_limit - used)) s')"

section \<open>Requests per minute\<close>

text \<open>\<open>uid\<close> is the text of \<open>time.time_ns()\<close>.\<close>

definition check_rpm ::
  "'r redis \<Rightarrow> string \<Rightarrow> int \<Rightarrow> string \<Rightarrow> time \<Rightarrow> time \<Rightarrow> 'r \<Rightarrow> (redis_error, bool \<times> int, 'r) outcome" where
  "check_rpm R tid rpm_limit uid clock t s =
    (if rpm_limit \<le> 0 then ret (True, rpm_limit) s
     else call R t (\<lambda>s. let ((r0, r1), s') = CHECK_RPM_LUA R t (rpm_key tid) (py_int clock) rpm_limit uid s
                        in ret (r0 \<noteq> 0, r1) s') s)"

definition reset_rpm :: "'r redis \<Rightarrow> string \<Rightarrow> time \<Rightarrow> 'r \<Rightarrow> (redis_error, unit, 'r) outcome" where
  "reset_rpm R tid t = drop_entry R (rpm_key tid) t"

section \<open>Login rate\<close>

text \<open>Every exception of the two script calls answers \<open>True\<close>.\<close>

definition cache_check_login_rate ::
  "'r redis \<Rightarrow> string \<Rightarrow> string \<Rightarrow> string option \<Rightarrow> int \<Rightarrow> int \<Rightarrow> time \<Rightarrow> 'r \<Rightarrow> bool \<times> 'r" where
  "cache_check_login_rate R tid ip username limit window t s =
    (if limit \<le> 0 then (True, s)
     else case call R t (CHECK_LOGIN_LUA R t (login_key tid ip) limit window) s of
       (Inl e, s1) \<Rightarrow> (True, s1)
     | (Inr ip_ok, s1) \<Rightarrow>
         if ip_ok = 0 then (False, s1)
         else if truthy_str username then
           (case call R t (CHECK_LOGIN_LUA R t (login_user_key tid (upd_opt username [])) limit window) s1 of
              (Inl e, s2) \<Rightarrow> (True, s2)
            | (Inr u_ok, s2) \<Rightarrow> (u_ok \<noteq> 0, s2))
         else (True, s1))"

section \<open>OIDC states\<close>

definition put_oidc_state ::
  "'r redis \<Rightarrow> (real \<Rightarrow> string) \<Rightarrow> string \<Rightarrow> json \<Rightarrow> int \<Rightarrow> time \<Rightarrow> 'r \<Rightarrow> (redis_error, unit, 'r) outcome" where
  "put_oidc_state R frepr state info ttl t = write_entry R frepr (oidc_state_key state) info ttl t"

definition pop_oidc_state ::
  "'r redis \<Rightarrow> (string \<Rightarrow> real) \<Rightarrow> string \<Rightarrow> time \<Rightarrow> 'r \<Rightarrow> json option \<times> 'r" where
  "pop_oidc_state R fparse state t s =
    (case call R t (\<lambda>s. let (v, s') = POP_OIDC_STATE_LUA R t (oidc_state_key state) s in ret v s') s of
       (Inl e, s1) \<Rightarrow> (None, s1)
     | (Inr val, s1) \<Rightarrow>
         if truthy_str val
         then (case loads fparse (upd_opt val []) of Some JNull \<Rightarrow> None | j \<Rightarrow> j, s1)
         else (None, s1))"

end
