(* ===== verification/Cache_Properties.thy ===== *)
theory Cache_Properties
  imports Cache
begin

text \<open>
  Properties of the cache plane over any Redis that behaves as documented: entries read back,
  the login window admits exactly its limit, and the per-minute window forgets requests.
\<close>

section \<open>Entries\<close>

lemma write_entry_effect:
  assumes R: "redis_sound R \<alpha>" and up: "rd_up R t s" and ttl: "0 < ttl"
  obtains s' where "write_entry R fr key j ttl t s = ret () s'"
    "\<alpha> s' = (\<alpha> s)(key := Some (RStr (dumps_default fr j), Some (t + of_int ttl)))"
proof -
  obtain s' where "rd_set R t key (dumps_default fr j) ttl s = Some s'"
    "\<alpha> s' = (\<alpha> s)(key := Some (RStr (dumps_default fr j), Some (t + of_int ttl)))"
    by (rule redis_set [OF R ttl])
  with up show thesis by (intro that [of s']) (simp_all add: write_entry_def call_def)
qed

lemma dumps_not_Nil: "plain_json j \<Longrightarrow> dumps_default fr j \<noteq> []"
  using value_first_ex [of j fr] by auto

lemma read_entry_live:
  assumes R: "redis_sound R \<alpha>" and up: "rd_up R t s" and j: "plain_json j" "j \<noteq> JNull"
    and v: "\<alpha> s key = Some (RStr (dumps_default fr j), Some D)" "t < D"
  shows "read_entry R fp key t s = ret (Some j) s"
  using dumps_not_Nil [OF j(1), of fr] loads_dumps [OF j(1), of fp fr] j(2) v up
  by (cases j) (simp_all add: read_entry_def call_def redis_get [OF R])

lemma read_entry_gone:
  assumes R: "redis_sound R \<alpha>" and up: "rd_up R t s" and v: "str_at t (\<alpha> s key) = None" "skey (\<alpha> s key)"
  shows "read_entry R fp key t s = ret None s"
  using up v by (simp add: read_entry_def call_def redis_get [OF R])

text \<open>
  A tenant entry cached for \<open>ttl\<close> seconds is read back unchanged during exactly that time,
  and not at all once the entry has been invalidated by the hash of its key.
\<close>

theorem cached_entry_lifetime:
  assumes "redis_sound R \<alpha>" "\<forall>t s. rd_up R t s" "0 < ttl" "plain_json info" "info \<noteq> JNull"
    and "set_api_key R fr key info ttl t s = ret () s1"
  shows "(\<forall>t'. t \<le> t' \<longrightarrow> get_tenant_by_api_key R fp key t' s1
            = ret (if t' < t + of_int ttl then Some info else None) s1)
    \<and> (\<forall>t' t'' s2. invalidate_api_key_by_hash R (sha256_hash key) t' s1 = ret () s2
         \<longrightarrow> get_tenant_by_api_key R fp key t'' s2 = ret None s2)"
proof -
  obtain s' where s': "write_entry R fr (api_key_key key) info ttl t s = ret () s'"
      "\<alpha> s' = (\<alpha> s)(api_key_key key := Some (RStr (dumps_default fr info), Some (t + of_int ttl)))"
    by (rule write_entry_effect [OF assms(1) assms(2) [rule_format] assms(3)])
  then have s1: "\<alpha> s1 = (\<alpha> s)(api_key_key key := Some (RStr (dumps_default fr info), Some (t + of_int ttl)))"
    using assms(6) by (simp add: set_api_key_def)
  have "get_tenant_by_api_key R fp key t' s1 = ret (if t' < t + of_int ttl then Some info else None) s1" for t'
  proof (cases "t' < t + of_int ttl")
    case True
    then show ?thesis
      using read_entry_live [OF assms(1) assms(2) [rule_format] assms(4,5), of s1 "api_key_key key"]
      by (simp add: get_tenant_by_api_key_def s1)
  next
    case False
    then show ?thesis
      using read_entry_gone [OF assms(1) assms(2) [rule_format], of t' s1 "api_key_key key"]
      by (simp add: get_tenant_by_api_key_def s1)
  qed
  moreover have "get_tenant_by_api_key R fp key t'' s2 = ret None s2"
    if "invalidate_api_key_by_hash R (sha256_hash key) t' s1 = ret () s2" for t' t'' s2
  proof -
    have "s2 = rd_del R t' (api_key_key key) s1"
      using that assms(2) by (simp add: invalidate_api_key_by_hash_def drop_entry_def call_def api_key_key_def)
    then have "\<alpha> s2 (api_key_key key) = None" by (simp add: redis_del [OF assms(1)])
    then show ?thesis
      using read_entry_gone [OF assms(1) assms(2) [rule_format], of t'' s2 "api_key_key key"]
      by (simp add: get_tenant_by_api_key_def)
  qed
  ultimately show ?thesis by blast
qed

theorem cached_entry_lifetime_witness:
  "\<exists>s1. set_api_key kv_redis (\<lambda>_. []) ''k'' (JObj [(''tenant_id'', JStr ''acme'')]) 300 0 [] = ret () s1
     \<and> get_tenant_by_api_key kv_redis (\<lambda>_. 0) ''k'' 299 s1 = ret (Some (JObj [(''tenant_id'', JStr ''acme'')])) s1
     \<and> get_tenant_by_api_key kv_redis (\<lambda>_. 0) ''k'' 300 s1 = ret None s1"
proof -
  let ?j = "JObj [(''tenant_id'', JStr ''acme'')]"
  have up: "\<forall>t s. rd_up kv_redis t s" by (simp add: kv_redis_def)
  obtain s1 where s1: "set_api_key kv_redis (\<lambda>_. []) ''k'' ?j 300 0 [] = ret () s1"
    unfolding set_api_key_def
    by (rule write_entry_effect [OF kv_redis_sound up [rule_format], where ttl = 300 and t = 0 and s = "[]"
          and fr = "\<lambda>_. []" and key = "api_key_key ''k''" and j = ?j]) simp_all
  have j: "plain_json ?j" "?j \<noteq> JNull" by simp_all
  from cached_entry_lifetime [OF kv_redis_sound up _ j s1, of "\<lambda>_. 0"]
  have "\<forall>t'. 0 \<le> t' \<longrightarrow> get_tenant_by_api_key kv_redis (\<lambda>_. 0) ''k'' t' s1
    = ret (if t' < 0 + of_int 300 then Some ?j else None) s1" by simp
  from this [rule_format, of 299] this [rule_format, of 300] s1 show ?thesis by (simp del: plain_json.simps)
qed

section \<open>The login window\<close>

fun login_answers ::
  "'r redis \<Rightarrow> string \<Rightarrow> string \<Rightarrow> int \<Rightarrow> int \<Rightarrow> time list \<Rightarrow> 'r \<Rightarrow> bool list" where
  "login_answers R tid ip limit window [] s = []"
| "login_answers R tid ip limit window (t # ts) s =
    (let (b, s') = cache_check_login_rate R tid ip None limit window t s
     in b # login_answers R tid ip limit window ts s')"

lemma login_first:
  assumes R: "redis_sound R \<alpha>" and up: "\<forall>t s. rd_up R t s" and lim: "0 < limit"
    and e: "\<alpha> s (login_key tid ip) = None"
  obtains s' where "cache_check_login_rate R tid ip None limit window t s = (True, s')"
    "\<alpha> s' (login_key tid ip) = Some (RStr (int_repr 1), Some (t + of_int window))"
proof -
  let ?k = "login_key tid ip"
  obtain s1 where s1: "rd_incrby R t ?k 1 s = Some (1, s1)" "\<alpha> s1 = (\<alpha> s)(?k := Some (RStr (int_repr 1), None))"
    by (rule redis_incrby_new [OF R, of s ?k t 1]) (simp_all add: e)
  show thesis
  proof (rule that [of "rd_expire R t ?k window s1"])
    show "cache_check_login_rate R tid ip None limit window t s = (True, rd_expire R t ?k window s1)"
      using lim up s1(1) by (simp add: cache_check_login_rate_def call_def CHECK_LOGIN_LUA_def
          counter_def redis_get [OF R] e)
    show "\<alpha> (rd_expire R t ?k window s1) ?k = Some (RStr (int_repr 1), Some (t + of_int window))"
      by (simp add: redis_expire [OF R] s1(2))
  qed
qed

lemma login_next:
  assumes R: "redis_sound R \<alpha>" and up: "\<forall>t s. rd_up R t s" and lim: "0 < limit" "limit < 2 ^ 63"
    and e: "\<alpha> s (login_key tid ip) = Some (RStr (int_repr n), Some D)" and n: "1 \<le> n" "n \<le> limit" and t: "t < D"
  obtains s' where "cache_check_login_rate R tid ip None limit window t s = (n < limit, s')"
    "\<alpha> s' (login_key tid ip) = Some (RStr (int_repr (if n < limit then n + 1 else n)), Some D)"
proof -
  let ?k = "login_key tid ip"
  have c: "counter R t ?k s = Some n" using t by (simp add: counter_def redis_get [OF R] e)
  show thesis
  proof (cases "n < limit")
    case True
    obtain s1 where s1: "rd_incrby R t ?k 1 s = Some (n + 1, s1)"
        "\<alpha> s1 = (\<alpha> s)(?k := Some (RStr (int_repr (n + 1)), Some D))"
      by (rule redis_incrby_old [OF R, of s ?k t "int_repr n" "Some D" n 1]) (use t n True lim in \<open>simp_all add: e\<close>)
    show thesis
      by (rule that [of s1]) (use c s1 True n lim up in
        \<open>simp_all add: cache_check_login_rate_def call_def CHECK_LOGIN_LUA_def\<close>)
  next
    case False
    show thesis
      by (rule that [of s]) (use c False lim up e in
        \<open>simp_all add: cache_check_login_rate_def call_def CHECK_LOGIN_LUA_def\<close>)
  qed
qed

lemma login_window_run:
  assumes R: "redis_sound R \<alpha>" and up: "\<forall>t s. rd_up R t s" and lim: "0 < limit" "limit < 2 ^ 63"
  shows "\<alpha> s (login_key tid ip) = Some (RStr (int_repr n), Some D) \<Longrightarrow> 1 \<le> n \<Longrightarrow> n \<le> limit
    \<Longrightarrow> \<forall>t \<in> set ts. t < D
    \<Longrightarrow> length (filter (\<lambda>b. b) (login_answers R tid ip limit window ts s)) = min (nat (limit - n)) (length ts)"
proof (induction ts arbitrary: s n)
  case Nil
  then show ?case by simp
next
  case (Cons t ts)
  have t: "t < D" "\<forall>t \<in> set ts. t < D" using Cons.prems(4) by simp_all
  obtain s' where s': "cache_check_login_rate R tid ip None limit window t s = (n < limit, s')"
      "\<alpha> s' (login_key tid ip) = Some (RStr (int_repr (if n < limit then n + 1 else n)), Some D)"
    by (rule login_next [OF R up lim Cons.prems(1-3) t(1)])
  have "length (filter (\<lambda>b. b) (login_answers R tid ip limit window ts s'))
      = min (nat (limit - (if n < limit then n + 1 else n))) (length ts)"
    by (rule Cons.IH [OF s'(2) _ _ t(2)]) (use Cons.prems(2,3) in auto)
  then show ?case using s'(1) Cons.prems(2,3) by (cases "n < limit") (simp_all add: Let_def nat_diff_distrib, linarith)
qed

text \<open>
  Of the login attempts on one address within the window that the first of them
  opened, exactly the first \<open>limit\<close> pass, whichever worker they reach.
\<close>

theorem login_window_admits_limit:
  assumes "redis_sound R \<alpha>" "\<forall>t s. rd_up R t s" "0 < limit" "limit < 2 ^ 63"
    and "\<alpha> s (login_key tid ip) = None" "\<forall>t \<in> set ts. t < t0 + of_int window"
  shows "length (filter (\<lambda>b. b) (login_answers R tid ip limit window (t0 # ts) s)) = min (nat limit) (Suc (length ts))"
proof -
  obtain s' where s': "cache_check_login_rate R tid ip None limit window t0 s = (True, s')"
      "\<alpha> s' (login_key tid ip) = Some (RStr (int_repr 1), Some (t0 + of_int window))"
    by (rule login_first [OF assms(1-3,5)])
  have "length (filter (\<lambda>b. b) (login_answers R tid ip limit window ts s')) = min (nat (limit - 1)) (length ts)"
    by (rule login_window_run [OF assms(1-4) s'(2) _ _ assms(6)]) (use assms(3) in simp_all)
  with s'(1) assms(3) show ?thesis by (simp add: nat_diff_distrib Let_def)
qed

theorem login_window_admits_limit_witness:
  "length (filter (\<lambda>b. b) (login_answers kv_redis ''acme'' ''10.0.0.9'' 2 60 [100, 101, 130, 159] [])) = 2"
proof -
  have "\<forall>t s. rd_up kv_redis t s" by (simp add: kv_redis_def)
  from login_window_admits_limit [OF kv_redis_sound this, of 2 "[]" "''acme''" "''10.0.0.9''" "[101, 130, 159]" 100 60]
  show ?thesis by simp
qed

end
