(* ===== verification/Events.thy ===== *)
theory Events
  imports Store_Logs Encoding Json
begin

unbundle bit_operations_syntax

text \<open>
  Lifecycle events (\<open>events.py\<close>): events are appended to the outbox, and a background worker
  posts the pending ones, signed, to the webhook until they are delivered or dead.

  \<^item> HMAC-SHA256 is concrete. The HTTP client, the stop flag, the clock and the pause between
    ticks are the fields of a record \<open>client\<close> over a state of the surroundings: \<open>hc_post\<close> answers
    with a status code, or with \<open>None\<close> when the call raises.
  \<^item> A tick runs without other writes to the outbox in between. \<open>run_worker\<close> is the loop with
    the worker as the only writer: no event is emitted between two of its rounds. The facts
    about \<open>tick\<close> hold from any store.
\<close>

section \<open>Signing and emitting\<close>

text \<open>\<open>hmac.new(key, body, sha256)\<close>: a key above the block size is hashed, then zero-padded.\<close>

definition hmac_key :: "int list \<Rightarrow> int list" where
  "hmac_key k =
    (let k' = (if length k > 64 then sha256_digest k else k) in k' @ replicate (64 - length k') 0)"

definition hmac_sha256 :: "int list \<Rightarrow> int list \<Rightarrow> string" where
  "hmac_sha256 k body =
    (let k' = hmac_key k
     in sha256_bytes (map (\<lambda>b. b XOR 0x5C) k' @ sha256_digest (map (\<lambda>b. b XOR 0x36) k' @ body)))"

definition sign_payload :: "string \<Rightarrow> int list \<Rightarrow> string" where
  "sign_payload secret body = hmac_sha256 (utf8 secret) body"

text \<open>The append to the in-memory outbox does not raise, so nothing is swallowed.\<close>

definition emit_event :: "string \<Rightarrow> string \<Rightarrow> json \<Rightarrow> string \<Rightarrow> time \<Rightarrow> store \<Rightarrow> store" where
  "emit_event event_type tid payload rnd now s = snd (append_event event_type tid payload rnd now s)"

section \<open>The webhook worker\<close>

record 'w client =
  hc_post :: "string \<Rightarrow> int list \<Rightarrow> (string \<times> string) list \<Rightarrow> 'w \<Rightarrow> int option \<times> 'w"
  hc_stop :: "'w \<Rightarrow> bool"
  hc_now :: "'w \<Rightarrow> time"
  hc_wait :: "real \<Rightarrow> 'w \<Rightarrow> 'w"

record webhook_worker =
  wk_url :: string
  wk_secret :: string
  wk_tick_seconds :: real
  wk_max_attempts :: int
  wk_batch_size :: int

definition event_body :: "(real \<Rightarrow> string) \<Rightarrow> event_rec \<Rightarrow> int list" where
  "event_body fr e =
    utf8 (dumps_default fr (JObj
      [(''event_id'', JStr (e_event_id e)), (''event_type'', JStr (e_event_type e)),
       (''tenant_id'', JStr (e_tenant_id e)), (''payload'', e_payload e),
       (''created_at'', JFloat (e_created_at e))]))"

definition event_headers :: "webhook_worker \<Rightarrow> event_rec \<Rightarrow> int list \<Rightarrow> (string \<times> string) list" where
  "event_headers W e body =
    [(''Content-Type'', ''application/json''), (''X-Fusion-Event-Id'', e_event_id e),
     (''X-Fusion-Event'', e_event_type e),
     (''X-Fusion-Signature'', ''sha256='' @ sign_payload (wk_secret W) body)]"

definition deliver_one ::
  "(real \<Rightarrow> string) \<Rightarrow> 'w client \<Rightarrow> webhook_worker \<Rightarrow> event_rec \<Rightarrow> 'w \<times> store \<Rightarrow> 'w \<times> store" where
  "deliver_one fr C W e st =
    (let (w, s) = st;
         body = event_body fr e;
         attempts = e_attempts e + 1;
         (resp, w1) = hc_post C (wk_url W) body (event_headers W e body) w;
         ok = (case resp of None \<Rightarrow> False | Some code \<Rightarrow> 200 \<le> code \<and> code < 300);
         status = (if ok then ''delivered'' else if attempts \<ge> wk_max_attempts W then ''dead'' else ''pending'')
     in (w1, snd (mark_event (e_event_id e) status (Some attempts) (hc_now C w1) s)))"

fun deliver_batch ::
  "(real \<Rightarrow> string) \<Rightarrow> 'w client \<Rightarrow> webhook_worker \<Rightarrow> event_rec list \<Rightarrow> 'w \<times> store \<Rightarrow> 'w \<times> store" where
  "deliver_batch fr C W [] st = st"
| "deliver_batch fr C W (e # es) st =
    (if hc_stop C (fst st) then st else deliver_batch fr C W es (deliver_one fr C W e st))"

definition tick ::
  "(real \<Rightarrow> string) \<Rightarrow> 'w client \<Rightarrow> webhook_worker \<Rightarrow> 'w \<times> store \<Rightarrow> 'w \<times> store" where
  "tick fr C W st = deliver_batch fr C W (pending_events (wk_batch_size W) (snd st)) st"

text \<open>The loop of the worker, up to a number of rounds: it ends only when it is stopped.\<close>

fun run_worker ::
  "(real \<Rightarrow> string) \<Rightarrow> 'w client \<Rightarrow> webhook_worker \<Rightarrow> nat \<Rightarrow> 'w \<times> store \<Rightarrow> 'w \<times> store" where
  "run_worker fr C W 0 st = st"
| "run_worker fr C W (Suc n) st =
    (if hc_stop C (fst st) then st
     else let (w, s) = tick fr C W st in run_worker fr C W n (hc_wait C (wk_tick_seconds W) w, s))"

section \<open>The outbox drains\<close>

text \<open>The deliveries that are still to come for an event, and for the outbox.\<close>

definition event_work :: "int \<Rightarrow> event_rec \<Rightarrow> nat" where
  "event_work m e = (if e_status e = ''pending'' then nat (max 1 (m - e_attempts e)) else 0)"

definition outbox_work :: "int \<Rightarrow> event_rec list \<Rightarrow> nat" where
  "outbox_work m es = sum_list (map (event_work m) es)"

abbreviation event_ids :: "store \<Rightarrow> string list" where
  "event_ids s \<equiv> map e_event_id (events s)"

text \<open>What one delivery makes of its event.\<close>

definition after_attempt :: "int \<Rightarrow> event_rec \<Rightarrow> event_rec \<Rightarrow> bool" where
  "after_attempt m e e' \<longleftrightarrow>
    e_attempts e' = e_attempts e + 1 \<and>
    (e_status e' = ''delivered'' \<or> e_status e' = ''dead'' \<and> m \<le> e_attempts e'
      \<or> e_status e' = ''pending'' \<and> e_attempts e' < m)"

lemma after_attempt_work:
  "after_attempt m e e' \<Longrightarrow> e_status e = ''pending'' \<Longrightarrow> event_work m e' < event_work m e"
  by (auto simp: after_attempt_def event_work_def)

text \<open>Marking an event that is in the outbox replaces exactly that event.\<close>

lemma map_first_split:
  assumes "distinct (map f xs)" "e \<in> set xs"
  obtains ys zs where "xs = ys @ e # zs" "map_first (\<lambda>x. f x = f e) g xs = ys @ g e # zs"
  using assms
proof (induction xs arbitrary: thesis)
  case Nil
  then show ?case by simp
next
  case (Cons x xs)
  show ?case
  proof (cases "x = e")
    case True
    then show ?thesis using Cons.prems(1) [of "[]" xs] by simp
  next
    case False
    then have e: "e \<in> set xs" "f x \<noteq> f e" using Cons.prems(2,3) by (auto simp: rev_image_eqI)
    obtain ys zs where "xs = ys @ e # zs" "map_first (\<lambda>x. f x = f e) g xs = ys @ g e # zs"
      using Cons.IH Cons.prems(2) e(1) by auto
    with e(2) Cons.prems(1) [of "x # ys" zs] show ?thesis by simp
  qed
qed

lemma deliver_one_effect:
  assumes "distinct (event_ids s)" "e \<in> set (events s)"
  obtains w' s' e' ys zs where "deliver_one fr C W e (w, s) = (w', s')"
    "events s = ys @ e # zs" "events s' = ys @ e' # zs" "e_event_id e' = e_event_id e"
    "after_attempt (wk_max_attempts W) e e'"
proof -
  obtain resp w1 where p: "hc_post C (wk_url W) (event_body fr e) (event_headers W e (event_body fr e)) w = (resp, w1)"
    by (cases "hc_post C (wk_url W) (event_body fr e) (event_headers W e (event_body fr e)) w")
  define ok where "ok = (case resp of None \<Rightarrow> False | Some code \<Rightarrow> 200 \<le> code \<and> code < 300)"
  define status where "status = (if ok then ''delivered''
    else if e_attempts e + 1 \<ge> wk_max_attempts W then ''dead'' else ''pending'')"
  define g where "g = (\<lambda>x :: event_rec. x\<lparr>e_status := status, e_attempts := e_attempts e + 1, e_updated_at := hc_now C w1\<rparr>)"
  have d: "deliver_one fr C W e (w, s)
      = (w1, s\<lparr>events := map_first (\<lambda>x. e_event_id x = e_event_id e) g (events s)\<rparr>)"
    by (simp add: deliver_one_def p mark_event_def g_def status_def ok_def Let_def)
  obtain ys zs where "events s = ys @ e # zs"
      "map_first (\<lambda>x. e_event_id x = e_event_id e) g (events s) = ys @ g e # zs"
    by (rule map_first_split [OF assms])
  moreover have "e_event_id (g e) = e_event_id e" "after_attempt (wk_max_attempts W) e (g e)"
    by (auto simp: g_def after_attempt_def status_def)
  ultimately show thesis using that [OF d] by simp
qed

lemma deliver_one_drop:
  assumes "distinct (event_ids s)" "e \<in> set (events s)" "e_status e = ''pending''"
  obtains w' s' where "deliver_one fr C W e (w, s) = (w', s')" "event_ids s' = event_ids s"
    "outbox_work (wk_max_attempts W) (events s') < outbox_work (wk_max_attempts W) (events s)"
    "\<And>x. x \<in> set (events s) \<Longrightarrow> x \<noteq> e \<Longrightarrow> x \<in> set (events s')"
proof -
  obtain w' s' e' ys zs where *: "deliver_one fr C W e (w, s) = (w', s')"
      "events s = ys @ e # zs" "events s' = ys @ e' # zs" "e_event_id e' = e_event_id e"
      "after_attempt (wk_max_attempts W) e e'"
    by (rule deliver_one_effect [OF assms(1,2)])
  from after_attempt_work [OF *(5) assms(3)] * show thesis
    by (intro that [of w' s']) (auto simp: outbox_work_def)
qed

lemma deliver_batch_drop:
  assumes "\<forall>w. \<not> hc_stop C w"
  shows "distinct (event_ids s) \<Longrightarrow> distinct es \<Longrightarrow> set es \<subseteq> {e \<in> set (events s). e_status e = ''pending''}
    \<Longrightarrow> \<exists>w' s'. deliver_batch fr C W es (w, s) = (w', s') \<and> event_ids s' = event_ids s
       \<and> outbox_work (wk_max_attempts W) (events s') + length es \<le> outbox_work (wk_max_attempts W) (events s)"
proof (induction es arbitrary: w s)
  case Nil
  then show ?case by simp
next
  case (Cons e es)
  obtain w1 s1 where s1: "deliver_one fr C W e (w, s) = (w1, s1)" "event_ids s1 = event_ids s"
      "outbox_work (wk_max_attempts W) (events s1) < outbox_work (wk_max_attempts W) (events s)"
      "\<And>x. x \<in> set (events s) \<Longrightarrow> x \<noteq> e \<Longrightarrow> x \<in> set (events s1)"
    by (rule deliver_one_drop [OF Cons.prems(1), of e fr C W w]) (use Cons.prems(3) in auto)
  have "set es \<subseteq> {e \<in> set (events s1). e_status e = ''pending''}"
    using Cons.prems(2,3) s1(4) by auto
  then obtain w' s' where "deliver_batch fr C W es (w1, s1) = (w', s')" "event_ids s' = event_ids s1"
      "outbox_work (wk_max_attempts W) (events s') + length es \<le> outbox_work (wk_max_attempts W) (events s1)"
    using Cons.IH [of s1 w1] Cons.prems(1,2) s1(2) by auto
  with s1 assms show ?case by auto
qed

lemma no_work: "outbox_work m es = 0 \<longleftrightarrow> (\<forall>e \<in> set es. e_status e \<noteq> ''pending'')"
proof -
  have "event_work m e = 0 \<longleftrightarrow> e_status e \<noteq> ''pending''" for e by (simp add: event_work_def)
  then show ?thesis by (simp add: outbox_work_def)
qed

lemma tick_drop:
  assumes "\<forall>w. \<not> hc_stop C w" "distinct (event_ids s)" "0 < wk_batch_size W"
  obtains w' s' where "tick fr C W (w, s) = (w', s')" "event_ids s' = event_ids s"
    "outbox_work (wk_max_attempts W) (events s') = 0
      \<or> outbox_work (wk_max_attempts W) (events s') < outbox_work (wk_max_attempts W) (events s)"
proof -
  define es where "es = pending_events (wk_batch_size W) s"
  have es: "es = take (nat (wk_batch_size W)) (filter (\<lambda>e. e_status e = ''pending'') (events s))"
    using assms(3) by (simp add: es_def pending_events_def slice_upto_def)
  have "distinct es" "set es \<subseteq> {e \<in> set (events s). e_status e = ''pending''}"
    using assms(2) set_take_subset by (auto simp: es distinct_map dest: in_set_takeD)
  then obtain w' s' where s': "deliver_batch fr C W es (w, s) = (w', s')" "event_ids s' = event_ids s"
      "outbox_work (wk_max_attempts W) (events s') + length es \<le> outbox_work (wk_max_attempts W) (events s)"
    using deliver_batch_drop [OF assms(1,2), of es fr W w] by blast
  have "outbox_work m (events s) = 0" if "es = []" for m
    using that assms(3) by (auto simp: es no_work filter_empty_conv)
  then have "outbox_work (wk_max_attempts W) (events s') = 0
      \<or> outbox_work (wk_max_attempts W) (events s') < outbox_work (wk_max_attempts W) (events s)"
    using s'(3) by (cases "es = []") (simp, cases es, simp_all)
  with s' show thesis by (intro that [of w' s']) (simp_all add: tick_def es_def [symmetric])
qed

lemma run_drop:
  assumes "\<forall>w. \<not> hc_stop C w" "0 < wk_batch_size W"
  shows "distinct (event_ids s) \<Longrightarrow> outbox_work (wk_max_attempts W) (events s) \<le> n
    \<Longrightarrow> event_ids (snd (run_worker fr C W n (w, s))) = event_ids s
      \<and> outbox_work (wk_max_attempts W) (events (snd (run_worker fr C W n (w, s)))) = 0"
proof (induction n arbitrary: w s)
  case 0
  then show ?case by simp
next
  case (Suc n)
  obtain w1 s1 where s1: "tick fr C W (w, s) = (w1, s1)" "event_ids s1 = event_ids s"
      "outbox_work (wk_max_attempts W) (events s1) = 0
        \<or> outbox_work (wk_max_attempts W) (events s1) < outbox_work (wk_max_attempts W) (events s)"
    by (rule tick_drop [OF assms(1) Suc.prems(1) assms(2)])
  have "outbox_work (wk_max_attempts W) (events s1) \<le> n" using s1(3) Suc.prems(2) by linarith
  with Suc.IH [of s1] Suc.prems(1) s1(1,2) assms(1) show ?case by simp
qed

text \<open>
  C18: the worker drains the outbox. With distinct event ids, a positive batch size and no
  stop, as many rounds as there are deliveries left (at most \<open>max_attempts\<close> per pending
  event) leave no pending event, whatever the endpoint answers, and lose no event.
\<close>

theorem outbox_drains:
  assumes "\<forall>w. \<not> hc_stop C w" "0 < wk_batch_size W" "distinct (event_ids s)"
    and "outbox_work (wk_max_attempts W) (events s) \<le> n"
  shows "pending_events (wk_batch_size W) (snd (run_worker fr C W n (w, s))) = []
    \<and> map e_event_id (events (snd (run_worker fr C W n (w, s)))) = map e_event_id (events s)"
  using run_drop [OF assms(1-4), of fr w] assms(2)
  by (simp add: no_work pending_events_def slice_upto_def filter_empty_conv)

definition demo_worker :: webhook_worker where
  "demo_worker = \<lparr>wk_url = ''https://hook'', wk_secret = ''s'', wk_tick_seconds = 5, wk_max_attempts = 3,
     wk_batch_size = 20\<rparr>"

text \<open>An endpoint that never answers.\<close>

definition dead_endpoint :: "unit client" where
  "dead_endpoint = \<lparr>hc_post = \<lambda>url body headers w. (None, w), hc_stop = \<lambda>w. False, hc_now = \<lambda>w. 7,
     hc_wait = \<lambda>d w. w\<rparr>"

definition demo_outbox :: store where
  "demo_outbox = emit_event ''tenant.created'' ''acme'' (JObj []) ''00'' 1
     (emit_event ''tenant.deleted'' ''acme'' (JObj []) ''01'' 2 empty_store)"

theorem outbox_drains_witness:
  "length (events demo_outbox) = 2 \<and> pending_events 20 demo_outbox \<noteq> []
    \<and> pending_events 20 (snd (run_worker (\<lambda>_. []) dead_endpoint demo_worker 6 ((), demo_outbox))) = []"
proof -
  have ev: "events demo_outbox =
     [\<lparr>e_event_id = ''evt_01'', e_seq = 1, e_event_type = ''tenant.deleted'', e_tenant_id = ''acme'',
       e_payload = JObj [], e_status = ''pending'', e_attempts = 0, e_created_at = 2, e_updated_at = 2\<rparr>,
      \<lparr>e_event_id = ''evt_00'', e_seq = 2, e_event_type = ''tenant.created'', e_tenant_id = ''acme'',
       e_payload = JObj [], e_status = ''pending'', e_attempts = 0, e_created_at = 1, e_updated_at = 1\<rparr>]"
    by (simp add: demo_outbox_def emit_event_def append_event_def push_event_def capped_append_def
        AUDIT_CAP_def empty_store_def Let_def)
  have "pending_events (wk_batch_size demo_worker)
      (snd (run_worker (\<lambda>_. []) dead_endpoint demo_worker 6 ((), demo_outbox))) = []"
    using outbox_drains [of dead_endpoint demo_worker demo_outbox 6 "\<lambda>_. []" "()"]
    by (simp add: dead_endpoint_def demo_worker_def ev outbox_work_def event_work_def)
  then show ?thesis by (simp add: demo_worker_def ev pending_events_def slice_upto_def)
qed

end
