(* ===== verification/Guards.thy ===== *)
theory Guards
  imports Auth Config Cache Store_Rbac Store_Secrets
begin

text \<open>
  The request guards (\<open>deps.py\<close>): every route of the HTTP plane passes one of them before its
  handler runs. A guard reads the headers, resolves the bearer through the authentication
  service and checks tenant, role and permission point.

  \<^item> \<open>app\<close> is \<open>request.app.state\<close>: which of its attributes are set, the store (the one object
    that routes and authentication service share), and the Redis state behind the cache.
  \<^item> A header that is absent has the default \<open>""\<close>. Path parameters are a \<open>dict\<close>.
  \<^item> \<open>hmac.compare_digest\<close> on two strings raises \<open>TypeError\<close> unless both are ASCII.
\<close>

section \<open>Application state\<close>

record 'r app =
  ap_store :: store
  ap_has_store :: bool
  ap_auth :: "auth_service option"
  ap_settings :: "settings option"
  ap_has_cache :: bool
  ap_redis :: 'r

datatype guard_error =
    Refused auth_error
  | TypeFailure
  | CacheFailure redis_error

abbreviation http :: "int \<Rightarrow> string \<Rightarrow> guard_error" where
  "http code detail \<equiv> Refused (Http code detail)"

definition get_store :: "'r app \<Rightarrow> guard_error + store" where
  "get_store ap = (if ap_has_store ap then Inr (ap_store ap) else Inl (http 500 ''store not initialized''))"

definition get_auth_service :: "'r app \<Rightarrow> guard_error + auth_service" where
  "get_auth_service ap =
    (case ap_auth ap of None \<Rightarrow> Inl (http 500 ''auth service not initialized'') | Some A \<Rightarrow> Inr A)"

definition get_settings :: "'r app \<Rightarrow> guard_error + settings" where
  "get_settings ap =
    (case ap_settings ap of None \<Rightarrow> Inl (http 500 ''settings not initialized'') | Some c \<Rightarrow> Inr c)"

text \<open>\<open>await svc.resolve_bearer_claims(authorization)\<close> on the shared store.\<close>

definition bearer_claims ::
  "auth_env \<Rightarrow> auth_service \<Rightarrow> string \<Rightarrow> time \<Rightarrow> 'r app \<Rightarrow> (guard_error, claims, 'r app) outcome" where
  "bearer_claims E A authorization now ap =
    (case resolve_bearer_claims E A authorization now (ap_store ap) of
       (Inl e, s) \<Rightarrow> raise (Refused e) (ap\<lparr>ap_store := s\<rparr>)
     | (Inr c, s) \<Rightarrow> ret c (ap\<lparr>ap_store := s\<rparr>))"

section \<open>Administrator guards\<close>

definition resolve_admin ::
  "auth_env \<Rightarrow> string \<Rightarrow> string \<Rightarrow> time \<Rightarrow> 'r app \<Rightarrow> (guard_error, claims, 'r app) outcome" where
  "resolve_admin E x_tenant_id authorization now ap =
    (if x_tenant_id = [] then raise (http 401 ''missing X-Tenant-Id'') ap
     else if authorization = [] then raise (http 401 ''missing token'') ap
     else case get_auth_service ap of
       Inl e \<Rightarrow> raise e ap
     | Inr A \<Rightarrow>
         (case bearer_claims E A authorization now ap of
            (Inl e, ap1) \<Rightarrow> raise e ap1
          | (Inr c, ap1) \<Rightarrow>
              if cl_tid c \<noteq> x_tenant_id then raise (http 403 ''cross-tenant access denied'') ap1
              else if cl_role c \<noteq> Some ''tenant_admin'' then
                raise (http 403 ''tenant_admin role required'') ap1
              else ret c ap1))"

definition require_tenant_admin ::
  "auth_env \<Rightarrow> string \<Rightarrow> string \<Rightarrow> time \<Rightarrow> 'r app \<Rightarrow> (guard_error, claims, 'r app) outcome" where
  "require_tenant_admin E x_tenant_id authorization now ap =
    resolve_admin E x_tenant_id authorization now ap"

text \<open>The path guard: a path parameter that is present names the tenant of the token.\<close>

definition path_mismatch :: "(string, string) dict \<Rightarrow> string \<Rightarrow> claims \<Rightarrow> bool" where
  "path_mismatch path_params param c \<longleftrightarrow>
    (case dget path_params param of None \<Rightarrow> False | Some t \<Rightarrow> cl_tid c \<noteq> t)"

definition require_tenant_admin_of ::
  "string \<Rightarrow> auth_env \<Rightarrow> (string, string) dict \<Rightarrow> string \<Rightarrow> string \<Rightarrow> time \<Rightarrow> 'r app
     \<Rightarrow> (guard_error, claims, 'r app) outcome" where
  "require_tenant_admin_of tenant_id_param E path_params x_tenant_id authorization now ap =
    (case resolve_admin E x_tenant_id authorization now ap of
       (Inl e, ap1) \<Rightarrow> raise e ap1
     | (Inr c, ap1) \<Rightarrow>
         if path_mismatch path_params tenant_id_param c
         then raise (http 403 ''cross-tenant access denied (self only)'') ap1
         else ret c ap1)"

section \<open>Permission guards\<close>

definition role_allows :: "store \<Rightarrow> string \<Rightarrow> string \<Rightarrow> string \<Rightarrow> string \<Rightarrow> bool" where
  "role_allows s tid role resource action =
    (if role = ''tenant_admin'' then True
     else case dget BUILTIN_ROLE_MATRIX role of
       Some m \<Rightarrow> action \<in> set (upd_opt (dget m resource) [])
     | None \<Rightarrow>
         (case get_role tid role s of
            None \<Rightarrow> False
          | Some rec \<Rightarrow> resource @ '':write'' \<in> set (rv_write_classes rec)))"

definition permission_denied :: "string \<Rightarrow> string \<Rightarrow> string \<Rightarrow> guard_error" where
  "permission_denied resource action role =
    http 403 (resource @ '':'' @ action @ '' not permitted for role '' @ role)"

definition resolve_permission ::
  "auth_env \<Rightarrow> (string, string) dict \<Rightarrow> string \<Rightarrow> string \<Rightarrow> string \<Rightarrow> string \<Rightarrow> string option \<Rightarrow> time
     \<Rightarrow> 'r app \<Rightarrow> (guard_error, claims, 'r app) outcome" where
  "resolve_permission E path_params x_tenant_id authorization resource action tenant_id_param now ap =
    (if x_tenant_id = [] then raise (http 401 ''missing X-Tenant-Id'') ap
     else if authorization = [] then raise (http 401 ''missing token'') ap
     else case get_auth_service ap of
       Inl e \<Rightarrow> raise e ap
     | Inr A \<Rightarrow>
         (case bearer_claims E A authorization now ap of
            (Inl e, ap1) \<Rightarrow> raise e ap1
          | (Inr c, ap1) \<Rightarrow>
              if cl_tid c \<noteq> x_tenant_id then raise (http 403 ''cross-tenant access denied'') ap1
              else if case tenant_id_param of None \<Rightarrow> False | Some p \<Rightarrow> path_mismatch path_params p c then
                raise (http 403 ''cross-tenant access denied (self only)'') ap1
              else case get_store ap1 of
                Inl e \<Rightarrow> raise e ap1
              | Inr s \<Rightarrow>
                  let role = upd_opt (cl_role c) []
                  in if role_allows s (cl_tid c) role resource action then ret c ap1
                     else raise (permission_denied resource action role) ap1))"

definition require_permission ::
  "string \<Rightarrow> string \<Rightarrow> auth_env \<Rightarrow> (string, string) dict \<Rightarrow> string \<Rightarrow> string \<Rightarrow> time \<Rightarrow> 'r app
     \<Rightarrow> (guard_error, claims, 'r app) outcome" where
  "require_permission resource action E path_params x_tenant_id authorization now ap =
    resolve_permission E path_params x_tenant_id authorization resource action None now ap"

definition require_permission_of ::
  "string \<Rightarrow> string \<Rightarrow> string \<Rightarrow> auth_env \<Rightarrow> (string, string) dict \<Rightarrow> string \<Rightarrow> string \<Rightarrow> time \<Rightarrow> 'r app
     \<Rightarrow> (guard_error, claims, 'r app) outcome" where
  "require_permission_of resource action tenant_id_param E path_params x_tenant_id authorization now ap =
    resolve_permission E path_params x_tenant_id authorization resource action (Some tenant_id_param) now ap"

section \<open>Service token and plain bearer\<close>

definition is_ascii :: "string \<Rightarrow> bool" where
  "is_ascii s \<longleftrightarrow> list_all (\<lambda>c. (of_char c :: nat) < 128) s"

definition compare_digest :: "string \<Rightarrow> string \<Rightarrow> guard_error + bool" where
  "compare_digest a b = (if is_ascii a \<and> is_ascii b then Inr (a = b) else Inl TypeFailure)"

text \<open>The text of the two errors of \<open>extract_bearer\<close>.\<close>

definition bearer_error :: "jwt_error \<Rightarrow> string" where
  "bearer_error e =
    (if e = MissingAuthorization then ''missing authorization header''
     else ''authorization header must be Bearer'')"

definition require_service_token :: "string \<Rightarrow> 'r app \<Rightarrow> guard_error + unit" where
  "require_service_token authorization ap =
    err_bind (get_settings ap) (\<lambda>cfg.
      if authorization = [] then Inl (http 401 ''missing token'')
      else case extract_bearer authorization of
        Inl e \<Rightarrow> Inl (http 401 (bearer_error e))
      | Inr token \<Rightarrow>
          err_bind (compare_digest token (cfg_service_token cfg)) (\<lambda>same.
            if same then Inr ()
            else if truthy_str (cfg_service_token_prev cfg) then
              err_bind (compare_digest token (upd_opt (cfg_service_token_prev cfg) [])) (\<lambda>prev.
                if prev then Inr () else Inl (http 401 ''invalid service token''))
            else Inl (http 401 ''invalid service token'')))"

definition require_bearer ::
  "auth_env \<Rightarrow> string \<Rightarrow> time \<Rightarrow> 'r app \<Rightarrow> (guard_error, claims, 'r app) outcome" where
  "require_bearer E authorization now ap =
    (if authorization = [] then raise (http 401 ''missing token'') ap
     else case get_auth_service ap of
       Inl e \<Rightarrow> raise e ap
     | Inr A \<Rightarrow> bearer_claims E A authorization now ap)"

section \<open>Cache invalidation\<close>

text \<open>A failure of the cache propagates to the route.\<close>

definition cache_step ::
  "('r \<Rightarrow> (redis_error, unit, 'r) outcome) \<Rightarrow> 'r app \<Rightarrow> (guard_error, unit, 'r app) outcome" where
  "cache_step f ap =
    (case f (ap_redis ap) of
       (Inl e, r) \<Rightarrow> raise (CacheFailure e) (ap\<lparr>ap_redis := r\<rparr>)
     | (Inr u, r) \<Rightarrow> ret () (ap\<lparr>ap_redis := r\<rparr>))"

definition invalidate_tenant_cache ::
  "'r redis \<Rightarrow> string \<Rightarrow> time \<Rightarrow> 'r app \<Rightarrow> (guard_error, unit, 'r app) outcome" where
  "invalidate_tenant_cache R tid t ap =
    (if \<not> ap_has_cache ap then ret () ap else cache_step (invalidate_tenant R tid t) ap)"

definition invalidate_tenant_api_keys_cache ::
  "'r redis \<Rightarrow> string \<Rightarrow> time \<Rightarrow> 'r app \<Rightarrow> (guard_error, unit, 'r app) outcome" where
  "invalidate_tenant_api_keys_cache R tid t ap =
    (if \<not> ap_has_cache ap then ret () ap
     else case get_store ap of
       Inl e \<Rightarrow> raise e ap
     | Inr s \<Rightarrow>
         let key_hashes = filter (\<lambda>h. h \<noteq> []) (map k_key_hash (list_api_keys tid s))
         in case cache_step (invalidate_tenant_api_keys R tid key_hashes t) ap of
              (Inl e, ap1) \<Rightarrow> raise e ap1
            | (Inr u, ap1) \<Rightarrow> cache_step (invalidate_tenant R tid t) ap1)"

end
