(* ===== verification/Guard_Properties.thy ===== *)
theory Guard_Properties
  imports Guards Cache_Properties Token_Properties Store_Properties
begin

text \<open>
  What the guards admit, stated as an access policy, and the effect of an invalidation on
  the cached authorization data.
\<close>

section \<open>The access policy\<close>

lemma resolve_bearer_ok:
  assumes "auth_verify E A tok (Some ''access'') n = Inr c" "extract_bearer h = Inr tok"
    "\<not> fst (is_jti_revoked (cl_jti c) n s)" "\<not> tenant_blocked (get_tenant_status (cl_tid c) s)"
    "\<not> user_blocked (get_user_status (cl_sub c) s)" "get_member_role (cl_tid c) (cl_sub c) s = Some r"
  shows "resolve_bearer_claims E A h n s =
    ret (c\<lparr>cl_role := Some r, cl_scope := Some (role_scopes r)\<rparr>) (snd (is_jti_revoked (cl_jti c) n s))"
  using assms by (simp add: resolve_bearer_claims_def Let_def case_prod_beta)

lemma resolve_bearerE:
  assumes "resolve_bearer_claims E A h n s = (Inr c', s')"
  obtains tok c r where "extract_bearer h = Inr tok" "auth_verify E A tok (Some ''access'') n = Inr c"
    "\<not> fst (is_jti_revoked (cl_jti c) n s)" "\<not> tenant_blocked (get_tenant_status (cl_tid c) s)"
    "\<not> user_blocked (get_user_status (cl_sub c) s)" "get_member_role (cl_tid c) (cl_sub c) s = Some r"
    "c' = c\<lparr>cl_role := Some r, cl_scope := Some (role_scopes r)\<rparr>" "s' = snd (is_jti_revoked (cl_jti c) n s)"
proof -
  obtain tok where tok: "extract_bearer h = Inr tok"
    using assms by (auto simp: resolve_bearer_claims_def split: sum.splits)
  obtain c where c: "auth_verify E A tok (Some ''access'') n = Inr c"
    using assms tok by (auto simp: resolve_bearer_claims_def split: sum.splits)
  have g: "\<not> fst (is_jti_revoked (cl_jti c) n s)" "\<not> tenant_blocked (get_tenant_status (cl_tid c) s)"
    "\<not> user_blocked (get_user_status (cl_sub c) s)"
    using assms by (simp_all add: resolve_bearer_claims_def tok c Let_def case_prod_beta split: if_splits)
  obtain r where r: "get_member_role (cl_tid c) (cl_sub c) s = Some r"
    using assms g by (cases "get_member_role (cl_tid c) (cl_sub c) s")
      (simp_all add: resolve_bearer_claims_def tok c Let_def case_prod_beta)
  show thesis
    using assms unfolding resolve_bearer_ok [OF c tok g r] by (intro that [OF tok c g r]) simp_all
qed

lemma bearer_claims_conv:
  "bearer_claims E A h n ap = (case resolve_bearer_claims E A h n (ap_store ap) of
     (r, s) \<Rightarrow> (case r of Inl e \<Rightarrow> Inl (Refused e) | Inr c \<Rightarrow> Inr c, ap\<lparr>ap_store := s\<rparr>))"
  by (simp add: bearer_claims_def split: prod.split sum.split)

text \<open>A bearer whose token is accepted and whose holder is a member with the role, now.\<close>

definition bearer_of :: "auth_env \<Rightarrow> auth_service \<Rightarrow> string \<Rightarrow> time \<Rightarrow> store \<Rightarrow> string \<Rightarrow> string \<Rightarrow> bool" where
  "bearer_of E A h n s tid r \<longleftrightarrow>
    (\<exists>tok c. extract_bearer h = Inr tok \<and> auth_verify E A tok (Some ''access'') n = Inr c \<and>
       \<not> fst (is_jti_revoked (cl_jti c) n s) \<and> \<not> tenant_blocked (get_tenant_status tid s) \<and>
       \<not> user_blocked (get_user_status (cl_sub c) s) \<and> cl_tid c = tid \<and>
       get_member_role tid (cl_sub c) s = Some r)"

lemma role_allows_jti [simp]:
  "role_allows (snd (is_jti_revoked j n s)) tid r res act = role_allows s tid r res act"
  by (simp add: role_allows_def split: option.split)

lemma extract_bearer_Nil: "extract_bearer [] = Inl MissingAuthorization"
  by (simp add: extract_bearer_def)

lemma permission_of_ok:
  assumes "ap_auth ap = Some A" "ap_has_store ap"
  shows "is_ok (fst (resolve_permission E params xt h res act pp n ap)) \<longleftrightarrow>
    xt \<noteq> [] \<and> (\<exists>r. bearer_of E A h n (ap_store ap) xt r \<and> role_allows (ap_store ap) xt r res act)
      \<and> (\<forall>p. pp = Some p \<longrightarrow> dget params p \<in> {None, Some xt})"
    (is "?ok \<longleftrightarrow> ?policy")
proof (cases "xt = [] \<or> h = []")
  case True
  then show ?thesis by (auto simp: resolve_permission_def bearer_of_def extract_bearer_Nil)
next
  case ne: False
  obtain x s' where rb: "resolve_bearer_claims E A h n (ap_store ap) = (x, s')" by fastforce
  show ?thesis
  proof (cases x)
    case (Inl e)
    have "\<not> bearer_of E A h n (ap_store ap) xt r" for r
      using resolve_bearer_ok rb Inl unfolding bearer_of_def by fastforce
    then show ?thesis
      using ne assms rb Inl by (simp add: resolve_permission_def get_auth_service_def bearer_claims_conv)
  next
    case (Inr c')
    obtain tok c r where *: "extract_bearer h = Inr tok" "auth_verify E A tok (Some ''access'') n = Inr c"
        "\<not> fst (is_jti_revoked (cl_jti c) n (ap_store ap))"
        "\<not> tenant_blocked (get_tenant_status (cl_tid c) (ap_store ap))"
        "\<not> user_blocked (get_user_status (cl_sub c) (ap_store ap))"
        "get_member_role (cl_tid c) (cl_sub c) (ap_store ap) = Some r"
        "c' = c\<lparr>cl_role := Some r, cl_scope := Some (role_scopes r)\<rparr>"
        "s' = snd (is_jti_revoked (cl_jti c) n (ap_store ap))"
      by (rule resolve_bearerE [OF rb [unfolded Inr]])
    have b: "bearer_of E A h n (ap_store ap) xt r' \<longleftrightarrow> cl_tid c = xt \<and> r' = r" for r'
      using * by (auto simp: bearer_of_def)
    have c': "cl_tid c' = cl_tid c" "cl_role c' = Some r" using *(7) by simp_all
    have path: "(case pp of None \<Rightarrow> False | Some p \<Rightarrow> path_mismatch params p c') \<longleftrightarrow>
        \<not> (\<forall>p. pp = Some p \<longrightarrow> dget params p \<in> {None, Some (cl_tid c)})"
      using *(7) by (auto simp: path_mismatch_def split: option.split)
    have "?ok \<longleftrightarrow> cl_tid c = xt \<and> \<not> (case pp of None \<Rightarrow> False | Some p \<Rightarrow> path_mismatch params p c')
        \<and> role_allows (ap_store ap) (cl_tid c) r res act"
      using ne assms c' rb Inr *(8)
      by (simp add: resolve_permission_def get_auth_service_def bearer_claims_conv get_store_def Let_def)
    then show ?thesis unfolding path b using ne by auto
  qed
qed

text \<open>
  C4: the permission guard implements the access policy. A request to a permission point is
  admitted exactly when its tenant header is set, its bearer holds a live, unrevoked access
  token of that tenant, is at this moment an enabled member of the open tenant, the role of
  that membership has the permission point, and the tenant named in the path, if any, is
  the same.
\<close>

theorem permission_guard_exact:
  assumes "ap_auth ap = Some A" "ap_has_store ap"
  shows "is_ok (fst (require_permission_of res act p E params xt h n ap)) \<longleftrightarrow>
    xt \<noteq> [] \<and> dget params p \<in> {None, Some xt} \<and>
    (\<exists>tok c r. extract_bearer h = Inr tok \<and> auth_verify E A tok (Some ''access'') n = Inr c \<and>
       cl_tid c = xt \<and> \<not> fst (is_jti_revoked (cl_jti c) n (ap_store ap)) \<and>
       \<not> tenant_blocked (get_tenant_status xt (ap_store ap)) \<and>
       \<not> user_blocked (get_user_status (cl_sub c) (ap_store ap)) \<and>
       get_member_role xt (cl_sub c) (ap_store ap) = Some r \<and>
       role_allows (ap_store ap) xt r res act)"
proof -
  have "(\<forall>q. Some p = Some q \<longrightarrow> dget params q \<in> {None, Some xt}) \<longleftrightarrow> dget params p \<in> {None, Some xt}" by simp
  moreover have "(\<exists>r. bearer_of E A h n (ap_store ap) xt r \<and> role_allows (ap_store ap) xt r res act) \<longleftrightarrow>
      (\<exists>tok c r. extract_bearer h = Inr tok \<and> auth_verify E A tok (Some ''access'') n = Inr c \<and>
       cl_tid c = xt \<and> \<not> fst (is_jti_revoked (cl_jti c) n (ap_store ap)) \<and>
       \<not> tenant_blocked (get_tenant_status xt (ap_store ap)) \<and>
       \<not> user_blocked (get_user_status (cl_sub c) (ap_store ap)) \<and>
       get_member_role xt (cl_sub c) (ap_store ap) = Some r \<and> role_allows (ap_store ap) xt r res act)"
    unfolding bearer_of_def by (rule iffI; elim exE conjE; intro exI conjI; assumption?)
  ultimately show ?thesis unfolding require_permission_of_def permission_of_ok [OF assms]
    by (simp only: conj_ac)
qed

section \<open>An admitted and a refused request\<close>

definition demo_claims :: claims where
  "demo_claims = \<lparr>cl_sub = ''usr_admin'', cl_tid = ''default'', cl_tenant = Some ''default'',
     cl_role = Some ''tenant_admin'', cl_scope = None, cl_iat = 1, cl_nbf = None, cl_exp = 9,
     cl_iss = ''iss'', cl_aud = ''aud'', cl_jti = ''j'', cl_type = Some ''access''\<rparr>"

definition demo_token :: string where
  "demo_token = jw_encode demo_jwt demo_claims ''key'' ''HS256'' None"

definition demo_app :: "(string, rentry) dict app" where
  "demo_app = \<lparr>ap_store = demo_boot, ap_has_store = True, ap_auth = Some demo_service, ap_settings = None,
     ap_has_cache = True, ap_redis = []\<rparr>"

lemma py_strip_id:
  assumes "s \<noteq> []" "\<not> is_space (hd s)" "\<not> is_space (last s)"
  shows "py_strip s = s"
proof -
  have d: "xs \<noteq> [] \<Longrightarrow> \<not> is_space (hd xs) \<Longrightarrow> dropWhile is_space xs = xs" for xs by (cases xs) auto
  show ?thesis using assms d [of s] d [of "rev s"] by (simp add: py_strip_def hd_rev)
qed

lemma demo_bearer: "extract_bearer (''Bearer '' @ demo_token) = Inr demo_token"
proof -
  have "py_strip demo_token = demo_token"
    by (rule py_strip_id) (simp_all add: demo_token_def demo_jwt_def demo_claims_def w_claims_def w_str_def
        w_nat_def w_opt_def is_space_def Let_def numeral_eq_Suc)
  moreover have "py_lower (''Bearer '' @ demo_token) = ''bearer '' @ py_lower demo_token"
  proof -
    have "py_lower ''Bearer '' = ''bearer ''" by code_simp
    then show ?thesis by (simp only: py_lower_def map_append)
  qed
  ultimately show ?thesis
    by (simp only: extract_bearer_def startswith_append not_True_eq_False if_False append_is_Nil_conv
        list.distinct drop_append) simp
qed

lemma demo_token_decodes: "auth_verify demo_env demo_service demo_token (Some ''access'') 5 = Inr demo_claims"
  unfolding demo_token_def
  by (simp add: auth_verify_def demo_jwt_header demo_jwt_decode verify_token_def demo_service_def
      AuthService_def hs256_def verify_key_for_def demo_claims_def)

lemma demo_boot_facts:
  "get_tenant_status ''default'' demo_boot = Some ''active''"
  "get_user_status ''usr_admin'' demo_boot = Some ''active''"
  "get_member_role ''default'' ''usr_admin'' demo_boot = Some ''tenant_admin''"
  by (simp_all add: demo_boot_def bootstrap_def is_empty_tenants_def create_tenant_def JOIN_POLICIES_def
      create_user_def hash_password_def add_member_def is_valid_role_def builtin_role_iff Let_def demo_empty
      get_tenant_status_def get_user_status_def get_member_role_def dget_dset)

theorem permission_guard_exact_witness:
  "is_ok (fst (require_permission_of ''quotas'' ''write'' ''tenant_id'' demo_env [(''tenant_id'', ''default'')]
      ''default'' (''Bearer '' @ demo_token) 5 demo_app))
   \<and> \<not> is_ok (fst (require_permission_of ''quotas'' ''write'' ''tenant_id'' demo_env [(''tenant_id'', ''other'')]
      ''default'' (''Bearer '' @ demo_token) 5 demo_app))"
proof -
  have a: "ap_auth demo_app = Some demo_service" "ap_has_store demo_app" by (simp_all add: demo_app_def)
  have "\<not> fst (is_jti_revoked ''j'' 5 demo_boot)"
    by (simp add: is_jti_revoked_def sweep_revoked_def demo_boot_revoked Let_def)
  then have "\<exists>tok c r. extract_bearer (''Bearer '' @ demo_token) = Inr tok \<and>
      auth_verify demo_env demo_service tok (Some ''access'') 5 = Inr c \<and> cl_tid c = ''default'' \<and>
      \<not> fst (is_jti_revoked (cl_jti c) 5 (ap_store demo_app)) \<and>
      \<not> tenant_blocked (get_tenant_status ''default'' (ap_store demo_app)) \<and>
      \<not> user_blocked (get_user_status (cl_sub c) (ap_store demo_app)) \<and>
      get_member_role ''default'' (cl_sub c) (ap_store demo_app) = Some r \<and>
      role_allows (ap_store demo_app) ''default'' r ''quotas'' ''write''"
    by (rule_tac exI [of _ demo_token], rule_tac exI [of _ demo_claims], rule_tac exI [of _ "''tenant_admin''"])
      (simp add: demo_bearer [simplified] demo_token_decodes demo_app_def demo_boot_facts demo_claims_def
        tenant_blocked_def user_blocked_def role_allows_def)
  then show ?thesis unfolding permission_guard_exact [OF a] by simp
qed

section \<open>Invalidation\<close>

lemma keys_dropped:
  assumes "redis_sound R \<alpha>"
  shows "\<alpha> (fold (\<lambda>h. rd_del R t (''apikey:'' @ h)) hs s) =
    (\<lambda>k. if k \<in> (\<lambda>h. ''apikey:'' @ h) ` set hs then None else \<alpha> s k)"
  by (induction hs arbitrary: s) (auto simp: redis_del [OF assms])

lemma key_of_hash:
  assumes "reachable K fr s" "get_api_key_by_hash h s = Some k"
  shows "k_key_hash k = h" "k \<in> set (list_api_keys (k_tenant_id k) s)"
proof -
  obtain kid where kid: "dget (key_hash_index s) h = Some kid" "dget (api_keys s) kid = Some k"
    using assms(2) by (auto simp: get_api_key_by_hash_def split: option.splits if_splits)
  obtain k' where "dget (api_keys s) kid = Some k'" "k_key_hash k' = h" "k_revoked_at k' = None"
    by (rule keys_okD [OF reachable_invD(6) [OF assms(1)] kid(1)])
  then have k: "k_key_hash k = h" "k_revoked_at k = None" using kid(2) by simp_all
  then show "k_key_hash k = h" by simp
  show "k \<in> set (list_api_keys (k_tenant_id k) s)"
    using k(2) dget_in_dvals [OF kid(2)] by (simp add: list_api_keys_def)
qed

lemma invalidation_runs:
  assumes "\<forall>t s. rd_up R t s" "ap_has_store ap" "ap_has_cache ap"
  shows "invalidate_tenant_api_keys_cache R tid t ap = ret () (ap\<lparr>ap_redis := rd_del R t (tenant_key tid)
    (fold (\<lambda>h. rd_del R t (''apikey:'' @ h))
      (filter (\<lambda>h. h \<noteq> []) (map k_key_hash (list_api_keys tid (ap_store ap)))) (ap_redis ap))\<rparr>)"
proof -
  define hs where "hs = filter (\<lambda>h. h \<noteq> []) (map k_key_hash (list_api_keys tid (ap_store ap)))"
  define r1 where "r1 = fold (\<lambda>h. rd_del R t (''apikey:'' @ h)) hs (ap_redis ap)"
  have "cache_step (invalidate_tenant_api_keys R tid hs t) ap = ret () (ap\<lparr>ap_redis := r1\<rparr>)"
    using assms(1) by (cases "hs = []") (simp_all add: cache_step_def invalidate_tenant_api_keys_def call_def r1_def)
  moreover have "cache_step (invalidate_tenant R tid t) (ap\<lparr>ap_redis := r1\<rparr>)
      = ret () (ap\<lparr>ap_redis := rd_del R t (tenant_key tid) r1\<rparr>)"
    using assms(1) by (simp add: cache_step_def invalidate_tenant_def drop_entry_def call_def)
  ultimately show ?thesis
    unfolding hs_def [symmetric] r1_def [symmetric]
    using assms by (simp add: invalidate_tenant_api_keys_cache_def get_store_def Let_def hs_def [symmetric])
qed

text \<open>
  C20: after a change of quota or tenant has invalidated the cache, no cached authorization
  data of a live key of that tenant is left: the next lookup of the key, at any time and with
  any Redis that behaves as documented, finds nothing and goes to the store.
\<close>

theorem invalidation_drops_cached_keys:
  assumes "redis_sound R \<alpha>" "\<forall>t s. rd_up R t s" "reachable K fr (ap_store ap)"
    and "ap_has_cache ap" "invalidate_tenant_api_keys_cache R tid t ap = ret () ap'"
    and "get_api_key_by_hash (sha256_hash key) (ap_store ap) = Some k" "k_tenant_id k = tid"
  shows "get_tenant_by_api_key R fp key t' (ap_redis ap') = ret None (ap_redis ap')
    \<and> cache_get_tenant R fp tid t' (ap_redis ap') = ret None (ap_redis ap')"
proof -
  define hs where "hs = filter (\<lambda>h. h \<noteq> []) (map k_key_hash (list_api_keys tid (ap_store ap)))"
  have "k_key_hash k = sha256_hash key" "k \<in> set (list_api_keys tid (ap_store ap))"
    using key_of_hash [OF assms(3,6)] assms(7) by simp_all
  moreover have "sha256_hash key \<noteq> []" using length_sha256_hash [of key] by (cases "sha256_hash key") simp_all
  ultimately have h: "sha256_hash key \<in> set hs" by (force simp: hs_def)
  define r1 where "r1 = fold (\<lambda>h. rd_del R t (''apikey:'' @ h)) hs (ap_redis ap)"
  have st: "ap_has_store ap"
    using assms(4,5) by (cases "ap_has_store ap") (simp_all add: invalidate_tenant_api_keys_cache_def get_store_def)
  have "ap' = ap\<lparr>ap_redis := rd_del R t (tenant_key tid) r1\<rparr>"
    using invalidation_runs [OF assms(2) st assms(4), of tid t] assms(5) unfolding r1_def hs_def by simp
  then have "ap_redis ap' = rd_del R t (tenant_key tid) r1" by simp
  then have \<alpha>: "\<alpha> (ap_redis ap') = (\<alpha> r1)(tenant_key tid := None)" by (simp add: redis_del [OF assms(1)])
  have "\<alpha> r1 (api_key_key key) = None"
    unfolding r1_def keys_dropped [OF assms(1)] api_key_key_def using h by simp
  then have "\<alpha> (ap_redis ap') (api_key_key key) = None" "\<alpha> (ap_redis ap') (tenant_key tid) = None"
    by (simp_all add: \<alpha>)
  then show ?thesis
    using assms(2) by (simp add: get_tenant_by_api_key_def cache_get_tenant_def read_entry_gone [OF assms(1)])
qed

text \<open>A key of the sample store, cached before the invalidation.\<close>

theorem invalidation_drops_cached_keys_witness:
  "\<exists>ap ap'. ap_store ap = demo5 \<and> \<not> str_at 1 (map_of (ap_redis ap) (api_key_key ''fmu_r'')) = None
    \<and> invalidate_tenant_api_keys_cache kv_redis ''acme'' 1 ap = ret () ap'
    \<and> get_tenant_by_api_key kv_redis (\<lambda>_. 0) ''fmu_r'' 2 (ap_redis ap') = ret None (ap_redis ap')"
proof -
  define ap where "ap = \<lparr>ap_store = demo5, ap_has_store = True, ap_auth = None, ap_settings = None,
     ap_has_cache = True, ap_redis = [(api_key_key ''fmu_r'', (RStr ''{}'', None :: time option))]\<rparr>"
  have up: "\<forall>t s. rd_up kv_redis t s" by (simp add: kv_redis_def)
  have r: "reachable demo_kdf demo_fr (ap_store ap)" using demo_reachable by (simp add: ap_def)
  have c: "ap_has_cache ap" by (simp add: ap_def)
  obtain k where k: "get_api_key_by_hash (sha256_hash ''fmu_r'') (ap_store ap) = Some k" "k_tenant_id k = ''acme''"
    using demo_keys by (simp add: ap_def)
  obtain ap' where ap': "invalidate_tenant_api_keys_cache kv_redis ''acme'' 1 ap = ret () ap'"
    using invalidation_runs [OF up _ c, of "''acme''" 1] by (auto simp: ap_def)
  from invalidation_drops_cached_keys [OF kv_redis_sound up r c ap' k, of "\<lambda>_. 0" 2]
  have "get_tenant_by_api_key kv_redis (\<lambda>_. 0) ''fmu_r'' 2 (ap_redis ap') = ret None (ap_redis ap')" by blast
  with ap' show ?thesis by (intro exI [of _ ap] exI [of _ ap']) (simp add: ap_def)
qed

end
