(* ===== verification/Rate_Limit.thy ===== *)
theory Rate_Limit
  imports Guards
begin

text \<open>
  Login rate limiting (\<open>ratelimit.py\<close>): a token bucket per address and per account in the
  memory of the process, with a cap on the number of buckets, and the entry point that
  prefers the limiter of the cache.

  The lemmas show that the bookkeeping that keeps the memory bounded does not change an
  answer: as long as fewer buckets than the cap were used within two windows, the limiter
  answers like one that never forgets a bucket.
\<close>

section \<open>Buckets\<close>

definition MAX_BUCKETS :: nat where "MAX_BUCKETS = 8192"

record bucket =
  bk_tokens :: real
  bk_last :: time

record limiter =
  lm_max_tokens :: real
  lm_window :: real
  lm_buckets :: "(string, bucket) dict"

definition limiter_key :: "string \<Rightarrow> string \<Rightarrow> string option \<Rightarrow> string" where
  "limiter_key tid ip username =
    (if truthy_str username then ''u:'' @ tid @ '':'' @ py_lower (upd_opt username [])
     else tid @ '':'' @ ip)"

definition stale :: "limiter \<Rightarrow> time \<Rightarrow> bucket \<Rightarrow> bool" where
  "stale L now b \<longleftrightarrow> now - bk_last b > lm_window L * 2"

definition sweep :: "time \<Rightarrow> limiter \<Rightarrow> nat \<times> limiter" where
  "sweep now L =
    (length (filter (\<lambda>(k, b). stale L now b) (lm_buckets L)),
     L\<lparr>lm_buckets := filter (\<lambda>(k, b). \<not> stale L now b) (lm_buckets L)\<rparr>)"

text \<open>\<open>min(buckets, key=last)\<close>: the first key, in order of insertion, with the least \<open>last\<close>.\<close>

fun oldest_from :: "string \<Rightarrow> bucket \<Rightarrow> (string, bucket) dict \<Rightarrow> string" where
  "oldest_from k b [] = k"
| "oldest_from k b ((k', b') # d) =
    (if bk_last b' < bk_last b then oldest_from k' b' d else oldest_from k b d)"

definition evict_oldest :: "(string, bucket) dict \<Rightarrow> (string, bucket) dict" where
  "evict_oldest d = (case d of [] \<Rightarrow> [] | (k, b) # d' \<Rightarrow> dpop (oldest_from k b d') d)"

definition make_room :: "time \<Rightarrow> limiter \<Rightarrow> limiter" where
  "make_room now L =
    (let L1 = (if length (lm_buckets L) \<ge> MAX_BUCKETS then snd (sweep now L) else L)
     in if length (lm_buckets L1) \<ge> MAX_BUCKETS
        then L1\<lparr>lm_buckets := evict_oldest (lm_buckets L1)\<rparr> else L1)"

text \<open>Refill by the time elapsed, then take a token if there is one.\<close>

definition charge :: "real \<Rightarrow> real \<Rightarrow> time \<Rightarrow> bucket \<Rightarrow> bool \<times> bucket" where
  "charge max_tokens refill now b =
    (let tokens = min max_tokens (bk_tokens b + (now - bk_last b) * refill)
     in if tokens < 1 then (False, \<lparr>bk_tokens = tokens, bk_last = now\<rparr>)
        else (True, \<lparr>bk_tokens = tokens - 1, bk_last = now\<rparr>))"

definition consume :: "string \<Rightarrow> time \<Rightarrow> real \<Rightarrow> limiter \<Rightarrow> bool \<times> limiter" where
  "consume key now refill L =
    (let (b, L1) = (case dget (lm_buckets L) key of
           Some b \<Rightarrow> (b, L)
         | None \<Rightarrow> (\<lparr>bk_tokens = lm_max_tokens L, bk_last = now\<rparr>, make_room now L));
         (ok, b') = charge (lm_max_tokens L) refill now b
     in (ok, L1\<lparr>lm_buckets := dset key b' (lm_buckets L1)\<rparr>))"

text \<open>\<open>all(...)\<close> over the keys stops at the first denial.\<close>

fun consume_all :: "string list \<Rightarrow> time \<Rightarrow> real \<Rightarrow> limiter \<Rightarrow> bool \<times> limiter" where
  "consume_all [] now refill L = (True, L)"
| "consume_all (k # ks) now refill L =
    (let (ok, L1) = consume k now refill L
     in if ok then consume_all ks now refill L1 else (False, L1))"

definition limiter_keys :: "string \<Rightarrow> string \<Rightarrow> string option \<Rightarrow> string list" where
  "limiter_keys tid ip username =
    limiter_key tid ip None # (if truthy_str username then [limiter_key tid ip username] else [])"

definition allow :: "string \<Rightarrow> string \<Rightarrow> string option \<Rightarrow> time \<Rightarrow> limiter \<Rightarrow> bool \<times> limiter" where
  "allow tid ip username now L =
    (if lm_max_tokens L \<le> 0 then (True, L)
     else consume_all (limiter_keys tid ip username) now (lm_max_tokens L / lm_window L) L)"

section \<open>The entry point\<close>

record 'r rate_app = "'r app" +
  ra_limiter :: "limiter option"

text \<open>\<open>getattr(settings, ..., default) or ...\<close>, with \<open>settings\<close> possibly \<open>None\<close>.\<close>

definition rate_limit :: "settings option \<Rightarrow> int" where
  "rate_limit cfg = (case cfg of None \<Rightarrow> DEFAULT_LOGIN_LIMIT | Some c \<Rightarrow> cfg_login_rate_limit c)"

definition rate_window :: "settings option \<Rightarrow> int" where
  "rate_window cfg =
    (case cfg of
       None \<Rightarrow> DEFAULT_LOGIN_WINDOW
     | Some c \<Rightarrow> if cfg_login_rate_window c = 0 then DEFAULT_LOGIN_WINDOW else cfg_login_rate_window c)"

definition get_login_limiter :: "'r rate_app \<Rightarrow> limiter \<times> 'r rate_app" where
  "get_login_limiter ap =
    (case ra_limiter ap of
       Some L \<Rightarrow> (L, ap)
     | None \<Rightarrow>
         let L = \<lparr>lm_max_tokens = of_int (rate_limit (ap_settings ap)),
                  lm_window = of_int (rate_window (ap_settings ap)), lm_buckets = []\<rparr>
         in (L, ap\<lparr>ra_limiter := Some L\<rparr>))"

text \<open>\<open>peer\<close> is the address of the TCP peer, \<open>xff\<close> the header \<open>X-Forwarded-For\<close>.\<close>

definition client_ip :: "settings option \<Rightarrow> string option \<Rightarrow> string option \<Rightarrow> string" where
  "client_ip cfg peer xff =
    (let p = upd_opt peer ''unknown'';
         trusted = (case cfg of None \<Rightarrow> [] | Some c \<Rightarrow> cfg_trusted_proxies c)
     in if p \<in> set trusted \<and> truthy_str xff then py_strip (hd (py_split (upd_opt xff []) '',''))
        else p)"

definition too_many :: guard_error where
  "too_many = http 429 ''too many login attempts, retry later''"

text \<open>
  The limiter of the cache catches its own exceptions and answers \<open>True\<close>, so the handler
  around the call, which falls back to the limiter in memory, is never entered.
\<close>

definition check_login_rate ::
  "'r redis \<Rightarrow> string option \<Rightarrow> string option \<Rightarrow> string \<Rightarrow> string option \<Rightarrow> time \<Rightarrow> time \<Rightarrow> 'r rate_app
     \<Rightarrow> (guard_error, unit, 'r rate_app) outcome" where
  "check_login_rate R peer xff tid username now t ap =
    (let ip = client_ip (ap_settings ap) peer xff;
         limit = rate_limit (ap_settings ap);
         window = rate_window (ap_settings ap)
     in if ap_has_cache ap \<and> limit > 0 then
          let (allowed, r) = cache_check_login_rate R tid ip username limit window t (ap_redis ap)
          in (if allowed then Inr () else Inl too_many, ap\<lparr>ap_redis := r\<rparr>)
        else
          let (L, ap1) = get_login_limiter ap; (ok, L') = allow tid ip username now L
          in (if ok then Inr () else Inl too_many, ap1\<lparr>ra_limiter := Some L'\<rparr>))"

section \<open>The limiter without bookkeeping\<close>

definition ideal_consume :: "string \<Rightarrow> time \<Rightarrow> real \<Rightarrow> limiter \<Rightarrow> bool \<times> limiter" where
  "ideal_consume key now refill L =
    (let b = upd_opt (dget (lm_buckets L) key) \<lparr>bk_tokens = lm_max_tokens L, bk_last = now\<rparr>;
         (ok, b') = charge (lm_max_tokens L) refill now b
     in (ok, L\<lparr>lm_buckets := dset key b' (lm_buckets L)\<rparr>))"

fun ideal_all :: "string list \<Rightarrow> time \<Rightarrow> real \<Rightarrow> limiter \<Rightarrow> bool \<times> limiter" where
  "ideal_all [] now refill L = (True, L)"
| "ideal_all (k # ks) now refill L =
    (let (ok, L1) = ideal_consume k now refill L
     in if ok then ideal_all ks now refill L1 else (False, L1))"

definition ideal_allow :: "string \<Rightarrow> string \<Rightarrow> string option \<Rightarrow> time \<Rightarrow> limiter \<Rightarrow> bool \<times> limiter" where
  "ideal_allow tid ip username now L =
    ideal_all (limiter_keys tid ip username) now (lm_max_tokens L / lm_window L) L"

type_synonym attempt = "time \<times> string \<times> string \<times> string option"

fun limiter_answers :: "attempt list \<Rightarrow> limiter \<Rightarrow> bool list" where
  "limiter_answers [] L = []"
| "limiter_answers ((now, tid, ip, username) # as) L =
    (let (ok, L') = allow tid ip username now L in ok # limiter_answers as L')"

fun ideal_answers :: "attempt list \<Rightarrow> limiter \<Rightarrow> bool list" where
  "ideal_answers [] L = []"
| "ideal_answers ((now, tid, ip, username) # as) L =
    (let (ok, L') = ideal_allow tid ip username now L in ok # ideal_answers as L')"

text \<open>The buckets used within two windows, and a run in which they never fill the cap.\<close>

definition active :: "time \<Rightarrow> limiter \<Rightarrow> nat" where
  "active now L = length (filter (\<lambda>(k, b). \<not> stale L now b) (lm_buckets L))"

fun roomy :: "time \<Rightarrow> attempt list \<Rightarrow> limiter \<Rightarrow> bool" where
  "roomy prev [] L \<longleftrightarrow> True"
| "roomy prev ((now, tid, ip, username) # as) L \<longleftrightarrow>
    prev \<le> now \<and> Suc (active now L) < MAX_BUCKETS \<and> roomy now as (snd (ideal_allow tid ip username now L))"

section \<open>Bookkeeping does not change an answer\<close>

text \<open>A bucket whose refill has reached the maximum.\<close>

definition full :: "limiter \<Rightarrow> time \<Rightarrow> bucket \<Rightarrow> bool" where
  "full L now b \<longleftrightarrow> lm_max_tokens L \<le> bk_tokens b + (now - bk_last b) * (lm_max_tokens L / lm_window L)"

text \<open>\<open>L\<close> holds some of the buckets of \<open>I\<close>; those it dropped are full by now.\<close>

definition represents :: "time \<Rightarrow> limiter \<Rightarrow> limiter \<Rightarrow> bool" where
  "represents now L I \<longleftrightarrow>
    lm_max_tokens L = lm_max_tokens I \<and> lm_window L = lm_window I \<and>
    dict_wf (lm_buckets L) \<and> dict_wf (lm_buckets I) \<and>
    (\<forall>k b. dget (lm_buckets L) k = Some b \<longrightarrow> dget (lm_buckets I) k = Some b) \<and>
    (\<forall>k b. dget (lm_buckets I) k = Some b \<longrightarrow> 0 \<le> bk_tokens b \<and> bk_last b \<le> now) \<and>
    (\<forall>k b. dget (lm_buckets I) k = Some b \<longrightarrow> dget (lm_buckets L) k = None \<longrightarrow> full I now b)"

lemma stale_full:
  assumes "0 < lm_max_tokens L" "0 < lm_window L" "0 \<le> bk_tokens b" "stale L now b"
  shows "full L now b"
proof -
  have "lm_window L * (lm_max_tokens L / lm_window L) \<le> (now - bk_last b) * (lm_max_tokens L / lm_window L)"
    using assms by (intro mult_right_mono) (auto simp: stale_def)
  then show ?thesis using assms by (simp add: full_def)
qed

lemma full_later:
  assumes "0 < lm_max_tokens L" "0 < lm_window L" "full L now b" "now \<le> now'"
  shows "full L now' b"
proof -
  have "(now - bk_last b) * (lm_max_tokens L / lm_window L) \<le> (now' - bk_last b) * (lm_max_tokens L / lm_window L)"
    using assms by (intro mult_right_mono) auto
  then show ?thesis using assms(3) unfolding full_def by linarith
qed

lemma represents_later:
  assumes "0 < lm_max_tokens I" "0 < lm_window I" "represents now L I" "now \<le> now'"
  shows "represents now' L I"
  using assms(3,4) full_later [OF assms(1,2) _ assms(4)] unfolding represents_def by fastforce

lemma dget_filter_buckets:
  assumes "dict_wf d"
  shows "dget (filter (\<lambda>(k, b). P b) d) k = (case dget d k of Some b \<Rightarrow> if P b then Some b else None | None \<Rightarrow> None)"
  using assms by (induction d) (auto split: option.split, force)

lemma length_active:
  assumes "represents now L I"
  shows "active now L \<le> active now I"
proof -
  let ?f = "\<lambda>J. filter (\<lambda>(k, b). \<not> stale J now b) (lm_buckets J)"
  have wf: "dict_wf (lm_buckets L)" "dict_wf (lm_buckets I)" and st: "stale L now = stale I now"
    using assms by (auto simp: represents_def stale_def fun_eq_iff)
  have "distinct (?f L)" "distinct (?f I)" using wf by (simp_all add: distinct_map)
  then have "length (?f L) = card (set (?f L))" "length (?f I) = card (set (?f I))"
    by (simp_all only: distinct_card)
  moreover have "set (?f L) \<subseteq> set (?f I)"
  proof
    fix x assume x: "x \<in> set (?f L)"
    obtain k b where kb: "x = (k, b)" by (cases x)
    have "dget (lm_buckets L) k = Some b" using x kb dict_wf_get_iff [OF wf(1)] by simp
    then have "dget (lm_buckets I) k = Some b" using assms unfolding represents_def by blast
    then show "x \<in> set (?f I)" using x kb st dict_wf_get_iff [OF wf(2)] by simp
  qed
  ultimately show ?thesis by (simp add: active_def card_mono)
qed

lemma represents_sweep:
  assumes "0 < lm_max_tokens I" "0 < lm_window I" "represents now L I"
  shows "represents now (snd (sweep now L)) I"
proof -
  have wf: "dict_wf (lm_buckets L)" and st: "stale L now = stale I now"
    using assms(3) by (auto simp: represents_def stale_def fun_eq_iff)
  let ?d = "filter (\<lambda>(k, b). \<not> stale I now b) (lm_buckets L)"
  have d: "dget ?d k = (case dget (lm_buckets L) k of Some b \<Rightarrow> if \<not> stale I now b then Some b else None | None \<Rightarrow> None)" for k
    by (rule dget_filter_buckets [OF wf])
  have "dict_wf ?d" by (rule distinct_map_filter [OF wf])
  moreover have "full I now b" if b: "dget (lm_buckets I) k = Some b" "dget ?d k = None" for k b
  proof (cases "dget (lm_buckets L) k")
    case None
    then show ?thesis using assms(3) b(1) unfolding represents_def by blast
  next
    case (Some b')
    then have "b' = b" "stale I now b" using assms(3) b d [of k] unfolding represents_def by (auto split: if_splits)
    moreover have "0 \<le> bk_tokens b" using assms(3) b(1) unfolding represents_def by blast
    ultimately show ?thesis using stale_full [OF assms(1,2)] by blast
  qed
  moreover have "dget (lm_buckets I) k = Some b" if "dget ?d k = Some b" for k b
    using that assms(3) d [of k] unfolding represents_def by (auto split: option.splits if_splits)
  ultimately show ?thesis
    using assms(3) unfolding represents_def sweep_def snd_conv st by simp
qed

lemma represents_make_room:
  assumes "0 < lm_max_tokens I" "0 < lm_window I" "represents now L I" "active now I < MAX_BUCKETS"
  shows "represents now (make_room now L) I"
proof (cases "length (lm_buckets L) \<ge> MAX_BUCKETS")
  case True
  have "length (lm_buckets (snd (sweep now L))) = active now L" by (simp add: sweep_def active_def)
  also have "\<dots> < MAX_BUCKETS" using length_active [OF assms(3)] assms(4) by simp
  finally have "make_room now L = snd (sweep now L)" using True by (simp add: make_room_def)
  then show ?thesis using represents_sweep [OF assms(1-3)] by simp
next
  case False
  then show ?thesis using assms(3) by (simp add: make_room_def)
qed

lemma charge_full:
  assumes "full I now b"
  shows "charge (lm_max_tokens I) (lm_max_tokens I / lm_window I) now b
    = charge (lm_max_tokens I) (lm_max_tokens I / lm_window I) now \<lparr>bk_tokens = lm_max_tokens I, bk_last = now\<rparr>"
  using assms by (simp add: charge_def full_def min_def)

lemma charge_ok:
  assumes "0 < m" "0 \<le> refill" "0 \<le> bk_tokens b" "bk_last b \<le> now" "charge m refill now b = (ok, b')"
  shows "0 \<le> bk_tokens b' \<and> bk_last b' = now"
proof -
  have "0 \<le> (now - bk_last b) * refill" using assms by simp
  then show ?thesis using assms by (auto simp: charge_def Let_def split: if_splits)
qed

lemma represents_dset:
  assumes "represents now L I" "0 \<le> bk_tokens b" "bk_last b \<le> now"
  shows "represents now (L\<lparr>lm_buckets := dset k b (lm_buckets L)\<rparr>) (I\<lparr>lm_buckets := dset k b (lm_buckets I)\<rparr>)"
  using assms unfolding represents_def by (auto simp: dget_dset full_def split: if_splits)

lemma consume_represents:
  assumes I: "0 < lm_max_tokens I" "0 < lm_window I" and r: "represents now L I"
    and room: "active now I < MAX_BUCKETS"
    and refill: "refill = lm_max_tokens I / lm_window I"
  shows "\<exists>ok L' I'. consume key now refill L = (ok, L') \<and> ideal_consume key now refill I = (ok, I') \<and>
    represents now L' I' \<and> lm_max_tokens I' = lm_max_tokens I \<and> lm_window I' = lm_window I"
proof -
  have m: "lm_max_tokens L = lm_max_tokens I" using r by (simp add: represents_def)
  define fresh where "fresh = \<lparr>bk_tokens = lm_max_tokens I, bk_last = now\<rparr>"
  define bI where "bI = upd_opt (dget (lm_buckets I) key) fresh"
  obtain ok b' where ch: "charge (lm_max_tokens I) refill now bI = (ok, b')" by fastforce
  have bI: "0 \<le> bk_tokens bI" "bk_last bI \<le> now"
    using r I by (cases "dget (lm_buckets I) key"; simp add: bI_def fresh_def represents_def)+
  have b': "0 \<le> bk_tokens b'" "bk_last b' \<le> now"
    using charge_ok [OF I(1) _ bI ch] I refill by simp_all
  have ideal: "ideal_consume key now refill I = (ok, I\<lparr>lm_buckets := dset key b' (lm_buckets I)\<rparr>)"
    using ch by (simp add: ideal_consume_def bI_def fresh_def Let_def)
  obtain L1 where L1: "consume key now refill L = (ok, L1\<lparr>lm_buckets := dset key b' (lm_buckets L1)\<rparr>)"
      "represents now L1 I"
  proof (cases "dget (lm_buckets L) key")
    case (Some b)
    then have "bI = b" using r by (simp add: represents_def bI_def)
    with Some ch m r that [of L] show thesis by (simp add: consume_def)
  next
    case None
    have "charge (lm_max_tokens I) refill now fresh = (ok, b')"
    proof (cases "dget (lm_buckets I) key")
      case (Some b)
      then have "full I now b" using r None unfolding represents_def by blast
      with Some ch refill show ?thesis using charge_full [of I now b] by (simp add: bI_def fresh_def)
    qed (use ch in \<open>simp add: bI_def\<close>)
    with None m have "consume key now refill L
        = (ok, (make_room now L)\<lparr>lm_buckets := dset key b' (lm_buckets (make_room now L))\<rparr>)"
      by (simp add: consume_def fresh_def)
    with represents_make_room [OF I r room] that show thesis by blast
  qed
  show ?thesis using L1(1) ideal represents_dset [OF L1(2) b'] by simp
qed

lemma length_active_dset: "length (filter P (dset k v d)) \<le> Suc (length (filter P d))"
  by (induction d) auto

lemma active_ideal: "active now (snd (ideal_consume key now refill I)) \<le> Suc (active now I)"
proof -
  have "stale (I\<lparr>lm_buckets := x\<rparr>) now = stale I now" for x by (simp add: stale_def fun_eq_iff)
  then show ?thesis
    by (simp add: ideal_consume_def active_def case_prod_beta Let_def length_active_dset)
qed

lemma allow_represents:
  assumes I: "0 < lm_max_tokens I" "0 < lm_window I" and r: "represents now L I"
    and room: "Suc (active now I) < MAX_BUCKETS"
  shows "\<exists>ok L' I'. allow tid ip username now L = (ok, L') \<and> ideal_allow tid ip username now I = (ok, I') \<and>
    represents now L' I' \<and> lm_max_tokens I' = lm_max_tokens I \<and> lm_window I' = lm_window I"
proof -
  define refill where "refill = lm_max_tokens I / lm_window I"
  define k1 where "k1 = limiter_key tid ip None"
  have mw: "lm_max_tokens L = lm_max_tokens I" "lm_window L = lm_window I" using r by (simp_all add: represents_def)
  have "active now I < MAX_BUCKETS" using room by simp
  from consume_represents [OF I r this refill_def, of k1] obtain ok L1 I1 where
    1: "consume k1 now refill L = (ok, L1)" "ideal_consume k1 now refill I = (ok, I1)" "represents now L1 I1"
      "lm_max_tokens I1 = lm_max_tokens I" "lm_window I1 = lm_window I" by blast
  show ?thesis
  proof (cases "ok \<and> truthy_str username")
    case False
    then show ?thesis
      using 1 I mw by (auto simp: allow_def ideal_allow_def limiter_keys_def k1_def refill_def)
  next
    case True
    define k2 where "k2 = limiter_key tid ip username"
    have "active now I1 < MAX_BUCKETS" using active_ideal [of now k1 refill I] 1(2) room by simp
    from consume_represents [OF _ _ 1(3) this, of refill k2] 1(4,5) I obtain ok2 L2 I2 where
      2: "consume k2 now refill L1 = (ok2, L2)" "ideal_consume k2 now refill I1 = (ok2, I2)" "represents now L2 I2"
        "lm_max_tokens I2 = lm_max_tokens I" "lm_window I2 = lm_window I" by (auto simp: refill_def)
    then show ?thesis
      using 1 True I mw
      by (cases ok2) (auto simp: allow_def ideal_allow_def limiter_keys_def k1_def k2_def refill_def)
  qed
qed

lemma answers_represents:
  "0 < lm_max_tokens I \<Longrightarrow> 0 < lm_window I \<Longrightarrow> represents prev L I \<Longrightarrow> roomy prev as I
    \<Longrightarrow> limiter_answers as L = ideal_answers as I"
proof (induction as arbitrary: prev L I)
  case Nil
  then show ?case by simp
next
  case (Cons a as)
  obtain now tid ip username where a: "a = (now, tid, ip, username)" by (cases a)
  have r: "represents now L I"
    using represents_later [OF Cons.prems(1-3)] Cons.prems(4) by (simp add: a)
  have room: "Suc (active now I) < MAX_BUCKETS" using Cons.prems(4) by (simp add: a)
  from allow_represents [OF Cons.prems(1,2) r room, of tid ip username] obtain ok L' I' where
    *: "allow tid ip username now L = (ok, L')" "ideal_allow tid ip username now I = (ok, I')"
      "represents now L' I'" "lm_max_tokens I' = lm_max_tokens I" "lm_window I' = lm_window I" by blast
  with Cons.IH [OF _ _ *(3)] Cons.prems show ?case by (simp add: a)
qed

text \<open>
  C17: the memory cap is invisible. A limiter that starts empty, with positive limit and
  window, answers any time-ordered sequence of attempts, on any addresses and accounts, like
  the token buckets that are never forgotten, provided that fewer buckets than the cap were
  in use within two windows at every moment.
\<close>

theorem limiter_equals_ideal:
  assumes "0 < lm_max_tokens L" "0 < lm_window L" "lm_buckets L = []" "roomy t0 as L"
  shows "limiter_answers as L = ideal_answers as L"
  by (rule answers_represents [OF assms(1,2) _ assms(4)]) (simp add: represents_def assms(3))

definition demo_limiter :: limiter where
  "demo_limiter = \<lparr>lm_max_tokens = 2, lm_window = 60, lm_buckets = []\<rparr>"

definition demo_attempts :: "attempt list" where
  "demo_attempts = [(0, ''acme'', ''ip'', None), (1, ''acme'', ''ip'', None), (2, ''acme'', ''ip'', None),
     (40, ''acme'', ''ip'', None)]"

theorem limiter_equals_ideal_witness:
  "limiter_answers demo_attempts demo_limiter = ideal_answers demo_attempts demo_limiter
    \<and> ideal_answers demo_attempts demo_limiter = [True, True, False, True]"
proof -
  have "roomy 0 demo_attempts demo_limiter"
    by (simp add: demo_attempts_def demo_limiter_def active_def stale_def MAX_BUCKETS_def ideal_allow_def
        limiter_keys_def limiter_key_def ideal_consume_def charge_def)
  with limiter_equals_ideal [of demo_limiter 0 demo_attempts]
  have "limiter_answers demo_attempts demo_limiter = ideal_answers demo_attempts demo_limiter"
    by (simp add: demo_limiter_def)
  moreover have "ideal_answers demo_attempts demo_limiter = [True, True, False, True]"
    by (simp add: demo_attempts_def demo_limiter_def ideal_allow_def
        limiter_keys_def limiter_key_def ideal_consume_def charge_def)
  ultimately show ?thesis by blast
qed

section \<open>The cap\<close>

lemma oldest_from_key: "oldest_from k b d \<in> insert k (set (dkeys d))"
  by (induction k b d rule: oldest_from.induct) auto

lemma length_dpop: "k \<in> set (dkeys d) \<Longrightarrow> length (dpop k d) < length d"
proof (induction d)
  case (Cons x d)
  obtain k' b where x: "x = (k', b)" by (cases x)
  show ?case
  proof (cases "k' = k")
    case True
    then show ?thesis using length_delete_le [of k d] by (simp add: x)
  next
    case False
    then show ?thesis using Cons by (auto simp: x)
  qed
qed simp

lemma length_dset_present: "k \<in> set (dkeys d) \<Longrightarrow> length (dset k v d) = length d"
  by (induction d) auto

lemma evict_oldest_ok:
  assumes "dict_wf d" "d \<noteq> []"
  shows "dict_wf (evict_oldest d) \<and> length (evict_oldest d) < length d"
proof -
  obtain k b d' where d: "d = (k, b) # d'" using assms(2) by (cases d) auto
  have "oldest_from k b d' \<in> set (dkeys d)" using oldest_from_key [of k b d'] by (simp add: d)
  moreover have "evict_oldest d = dpop (oldest_from k b d') d" by (simp add: evict_oldest_def d)
  ultimately show ?thesis
    using length_dpop [of "oldest_from k b d'" d] dict_wf_dpop [OF assms(1)] by metis
qed

lemma make_room_ok:
  assumes "dict_wf (lm_buckets L)" "length (lm_buckets L) \<le> MAX_BUCKETS"
  shows "dict_wf (lm_buckets (make_room now L)) \<and> length (lm_buckets (make_room now L)) < MAX_BUCKETS"
proof -
  define L1 where "L1 = (if length (lm_buckets L) \<ge> MAX_BUCKETS then snd (sweep now L) else L)"
  have wf: "dict_wf (lm_buckets L1)" using assms(1) by (simp add: L1_def sweep_def distinct_map_filter)
  have len: "length (lm_buckets L1) \<le> MAX_BUCKETS"
    using assms(2) length_filter_le [of "\<lambda>(k, b). \<not> stale L now b" "lm_buckets L"]
    unfolding L1_def sweep_def by (cases "length (lm_buckets L) \<ge> MAX_BUCKETS") auto
  have mr: "make_room now L = (if length (lm_buckets L1) \<ge> MAX_BUCKETS
      then L1\<lparr>lm_buckets := evict_oldest (lm_buckets L1)\<rparr> else L1)"
    by (simp add: make_room_def L1_def Let_def)
  show ?thesis
  proof (cases "length (lm_buckets L1) \<ge> MAX_BUCKETS")
    case True
    then have "lm_buckets L1 \<noteq> []" by (auto simp: MAX_BUCKETS_def)
    from evict_oldest_ok [OF wf this] True len show ?thesis by (simp add: mr)
  qed (use wf in \<open>simp add: mr\<close>)
qed

text \<open>The number of buckets never exceeds the cap, also under a flood of addresses.\<close>

lemma consume_capped:
  assumes "dict_wf (lm_buckets L)" "length (lm_buckets L) \<le> MAX_BUCKETS"
  shows "dict_wf (lm_buckets (snd (consume key now refill L)))
    \<and> length (lm_buckets (snd (consume key now refill L))) \<le> MAX_BUCKETS"
proof (cases "dget (lm_buckets L) key")
  case None
  have "length (dset key v d) \<le> Suc (length d)" for v :: bucket and d
    by (induction d) auto
  then have "length (dset key v (lm_buckets (make_room now L))) \<le> MAX_BUCKETS" for v
    using make_room_ok [OF assms, of now] by (meson Suc_leI le_trans)
  with make_room_ok [OF assms, of now] None show ?thesis
    by (simp add: consume_def case_prod_beta Let_def distinct_update)
next
  case (Some b)
  then have "key \<in> set (dkeys (lm_buckets L))" by (force dest: map_of_SomeD)
  with Some assms show ?thesis
    by (simp add: consume_def case_prod_beta Let_def distinct_update length_dset_present)
qed

section \<open>Redis outage\<close>

text \<open>
  C39: with the cache configured, an outage of Redis lifts the login limit. Whatever the
  limit and however many attempts were made, an attempt while Redis is down passes: the
  limiter in memory is not consulted, and does not change.
\<close>

theorem outage_lifts_login_limit:
  assumes "ap_has_cache ap" "0 < rate_limit (ap_settings ap)" "\<not> rd_up R t (ap_redis ap)"
  shows "check_login_rate R peer xff tid username now t ap = ret () ap"
  using assms by (simp add: check_login_rate_def cache_check_login_rate_def call_def Let_def)

text \<open>A Redis that is down, and a limiter in memory that would deny.\<close>

definition down_redis :: "(string, rentry) dict redis" where
  "down_redis = kv_redis\<lparr>rd_up := \<lambda>t s. False\<rparr>"

definition exhausted_app :: "(string, rentry) dict rate_app" where
  "exhausted_app = \<lparr>ap_store = empty_store, ap_has_store = True, ap_auth = None, ap_settings = None,
     ap_has_cache = True, ap_redis = [],
     ra_limiter = Some \<lparr>lm_max_tokens = 10, lm_window = 60,
       lm_buckets = [(''acme:ip'', \<lparr>bk_tokens = 0, bk_last = 100\<rparr>)]\<rparr>\<rparr>"

theorem outage_lifts_login_limit_witness:
  "check_login_rate down_redis (Some ''ip'') None ''acme'' None 100 100 exhausted_app = ret () exhausted_app
    \<and> fst (check_login_rate down_redis (Some ''ip'') None ''acme'' None 100 100
        (exhausted_app\<lparr>ap_has_cache := False\<rparr>)) = Inl too_many"
proof -
  have "check_login_rate down_redis (Some ''ip'') None ''acme'' None 100 100 exhausted_app = ret () exhausted_app"
    by (rule outage_lifts_login_limit)
      (simp_all add: exhausted_app_def down_redis_def rate_limit_def DEFAULT_LOGIN_LIMIT_def)
  moreover have "fst (check_login_rate down_redis (Some ''ip'') None ''acme'' None 100 100
      (exhausted_app\<lparr>ap_has_cache := False\<rparr>)) = Inl too_many"
    by (simp add: check_login_rate_def exhausted_app_def client_ip_def get_login_limiter_def allow_def
        limiter_keys_def limiter_key_def consume_def charge_def)
  ultimately show ?thesis by blast
qed

end
