(* ===== verification/Grpc_Service.thy ===== *)
theory Grpc_Service
  imports Guards Concurrency
begin

text \<open>
  The gRPC plane (\<open>grpc_servicer.py\<close>, \<open>grpc_interceptor.py\<close>): an inference gateway asks for
  authorization of an API key and gets a concurrency lease, releases it, and reports usage.

  \<^item> The state is the store and one Redis, which carries both the cache (if there is one) and
    the leases. A call has the clock of the service, the clock of Redis, the date and the
    random draws in \<open>rpc_call\<close>.
  \<^item> What the cache returns is any JSON value. The operations on it raise where Python does; a
    cached \<open>tenant_id\<close> that is not a string, which this program never writes, raises as well.
  \<^item> Protobuf refuses integers that do not fit a field. Metrics and the context variable of
    the row-level security of PostgreSQL have no counterpart.
\<close>

section \<open>State, requests, responses\<close>

record 'r grpc_state =
  gs_store :: store
  gs_redis :: 'r
  gs_has_cache :: bool

record 'r grpc_env =
  ge_redis :: "'r redis"
  ge_fr :: "real \<Rightarrow> string"
  ge_fp :: "string \<Rightarrow> real"
  ge_lease_ttl :: int

record rpc_call =
  rc_now :: time
  rc_server :: time
  rc_day :: string
  rc_uuid :: string
  rc_uid :: string

datatype auth_code =
    AUTH_ERROR_CODE_UNSPECIFIED
  | INVALID_API_KEY
  | TENANT_DISABLED
  | MODULE_UNAUTHORIZED
  | MODEL_UNAUTHORIZED
  | CONCURRENCY_LIMIT_EXCEEDED
  | DAILY_QUOTA_EXCEEDED
  | RATE_LIMIT_EXCEEDED

record authorize_request =
  rq_api_key :: string
  rq_target_module :: string
  rq_target_model :: string
  rq_tenant_id :: string

record tenant_context =
  tc_tenant_id :: string
  tc_tenant_name :: string
  tc_tier :: string
  tc_priority :: int

record authorize_response =
  rs_is_allowed :: bool
  rs_error_code :: auth_code
  rs_error_message :: string
  rs_tenant_context :: "tenant_context option"
  rs_lease_id :: string
  rs_max_allowed_tokens :: int

datatype rpc_error =
    RedisFailure redis_error
  | BadValue
  | Unavailable

definition fits :: "nat \<Rightarrow> int \<Rightarrow> bool" where
  "fits w i \<longleftrightarrow> - (2 ^ (w - 1)) \<le> i \<and> i < 2 ^ (w - 1)"

section \<open>Helpers\<close>

definition DEFAULT_MAX_TOKENS :: int where "DEFAULT_MAX_TOKENS = 4096"

definition TIER_PRIORITY :: "(string, int) dict" where
  "TIER_PRIORITY = [(''enterprise'', 3), (''pro'', 2), (''standard'', 2), (''team'', 2), (''free'', 1)]"

text \<open>\<open>int(x)\<close> and \<open>m in x\<close> for a value read from JSON; \<open>None\<close> where Python raises.\<close>

definition json_int :: "json \<Rightarrow> int option" where
  "json_int j =
    (case j of
       JInt i \<Rightarrow> Some i
     | JBool b \<Rightarrow> Some (if b then 1 else 0)
     | JFloat x \<Rightarrow> Some (py_int x)
     | JStr s \<Rightarrow> parse_int (py_strip s)
     | _ \<Rightarrow> None)"

definition json_in :: "string \<Rightarrow> json \<Rightarrow> bool option" where
  "json_in m j =
    (case j of
       JArr xs \<Rightarrow> Some (JStr m \<in> set xs)
     | JObj kvs \<Rightarrow> Some (m \<in> set (dkeys kvs))
     | JStr s \<Rightarrow> Some (py_contains s m)
     | _ \<Rightarrow> None)"

definition priority_from :: "json \<Rightarrow> json \<Rightarrow> int option" where
  "priority_from default_priority tier =
    (if truthy_json default_priority then json_int default_priority
     else case tier of
       JStr s \<Rightarrow> Some (upd_opt (dget TIER_PRIORITY s) 2)
     | JArr xs \<Rightarrow> None
     | JObj kvs \<Rightarrow> None
     | _ \<Rightarrow> Some 2)"

text \<open>\<open>_quota_int(quota, key, default)\<close> on the quota of the store, which has all fields or is absent.\<close>

definition quota_int :: "quota_rec option \<Rightarrow> (quota_body \<Rightarrow> int) \<Rightarrow> int \<Rightarrow> int" where
  "quota_int q field dflt = (case q of None \<Rightarrow> dflt | Some r \<Rightarrow> field (q_body r))"

definition daily_limit_for :: "quota_rec option \<Rightarrow> int" where
  "daily_limit_for q = quota_int q q_tpm 50000"

definition refuse :: "auth_code \<Rightarrow> string \<Rightarrow> authorize_response" where
  "refuse code msg = \<lparr>rs_is_allowed = False, rs_error_code = code, rs_error_message = msg,
     rs_tenant_context = None, rs_lease_id = [], rs_max_allowed_tokens = 0\<rparr>"

definition lease_belongs :: "string \<Rightarrow> string \<Rightarrow> bool" where
  "lease_belongs lease_id tid \<longleftrightarrow> lease_id \<noteq> [] \<and> startswith lease_id (tid @ '':'')"

section \<open>AuthorizeAndAcquire\<close>

text \<open>The authorization data of a tenant, as it is cached.\<close>

definition tenant_info :: "tenant_rec \<Rightarrow> quota_rec option \<Rightarrow> string \<Rightarrow> json" where
  "tenant_info tn q tid = JObj
    [(''tenant_id'', JStr tid), (''tenant_name'', JStr (t_display_name tn)), (''tier'', JStr (t_plan tn)),
     (''is_active'', JBool (t_status tn = ''active'')),
     (''allowed_modules'', JArr (case q of None \<Rightarrow> [] | Some r \<Rightarrow> map JStr (q_allowed_modules (q_body r)))),
     (''allowed_models'', JArr (case q of None \<Rightarrow> [] | Some r \<Rightarrow> map JStr (q_allowed_models (q_body r)))),
     (''max_concurrency'', JInt (quota_int q q_concurrent 2)),
     (''daily_token_limit'', JInt (quota_int q q_tpm 50000)),
     (''rpm_limit'', JInt (quota_int q q_rpm 0)),
     (''default_priority'', JInt (quota_int q q_default_priority 0))]"

text \<open>The lookup in the store: a refusal, or the data of the tenant of the key.\<close>

definition store_info :: "string \<Rightarrow> store \<Rightarrow> authorize_response + json" where
  "store_info api_key s =
    (case get_api_key_by_hash (sha256_hash api_key) s of
       None \<Rightarrow> Inl (refuse INVALID_API_KEY ''invalid or revoked api key'')
     | Some k \<Rightarrow>
         (case get_tenant (k_tenant_id k) s of
            None \<Rightarrow> Inl (refuse INVALID_API_KEY ''tenant missing for key'')
          | Some tn \<Rightarrow> Inr (tenant_info tn (get_quota (k_tenant_id k) s) (k_tenant_id k))))"

text \<open>
  Cache first, where an error counts as a miss; then the store, and the result is cached for
  300 seconds, where an error is ignored.
\<close>

definition lookup_info ::
  "'r grpc_env \<Rightarrow> rpc_call \<Rightarrow> string \<Rightarrow> 'r grpc_state \<Rightarrow> (authorize_response + json) \<times> 'r grpc_state" where
  "lookup_info E c api_key g =
    (let (cached, g1) =
       (if gs_has_cache g then
          case get_tenant_by_api_key (ge_redis E) (ge_fp E) api_key (rc_server c) (gs_redis g) of
            (Inl e, r) \<Rightarrow> (None, g\<lparr>gs_redis := r\<rparr>)
          | (Inr x, r) \<Rightarrow> (x, g\<lparr>gs_redis := r\<rparr>)
        else (None, g))
     in case cached of
          Some j \<Rightarrow> (Inr j, g1)
        | None \<Rightarrow>
            (case store_info api_key (gs_store g1) of
               Inl resp \<Rightarrow> (Inl resp, g1)
             | Inr j \<Rightarrow>
                 if gs_has_cache g1 then
                   (Inr j, g1\<lparr>gs_redis := snd (set_api_key (ge_redis E) (ge_fr E) api_key j 300 (rc_server c) (gs_redis g1))\<rparr>)
                 else (Inr j, g1)))"

text \<open>The checks before anything is reserved: a refusal, or the tenant and its daily limit.\<close>

definition pre_checks ::
  "authorize_request \<Rightarrow> json \<Rightarrow> rpc_error + (authorize_response + (string, json) dict \<times> string \<times> int)" where
  "pre_checks req info =
    (case info of
       JObj kvs \<Rightarrow>
         if \<not> truthy_json (jget_default kvs ''is_active'' (JBool True))
         then Inr (Inl (refuse TENANT_DISABLED ''tenant disabled''))
         else (case dget kvs ''tenant_id'' of
           Some (JStr tid) \<Rightarrow>
             let asserted = py_strip (rq_tenant_id req);
                 modules = jget_default kvs ''allowed_modules'' JNull;
                 models = jget_default kvs ''allowed_models'' JNull
             in if asserted \<noteq> [] \<and> asserted \<noteq> tid
                then Inr (Inl (refuse INVALID_API_KEY ''api_key does not belong to asserted tenant''))
                else
                err_bind (if truthy_json modules \<and> rq_target_module req \<noteq> []
                          then (case json_in (rq_target_module req) modules of None \<Rightarrow> Inl BadValue | Some b \<Rightarrow> Inr b)
                          else Inr True) (\<lambda>module_ok.
                if \<not> module_ok
                then Inr (Inl (refuse MODULE_UNAUTHORIZED (''unauthorized module: '' @ rq_target_module req)))
                else
                err_bind (if truthy_json models \<and> rq_target_model req \<noteq> []
                          then (case json_in (rq_target_model req) models of None \<Rightarrow> Inl BadValue | Some b \<Rightarrow> Inr b)
                          else Inr True) (\<lambda>model_ok.
                if \<not> model_ok
                then Inr (Inl (refuse MODEL_UNAUTHORIZED (''unauthorized model: '' @ rq_target_model req)))
                else case json_int (jget_default kvs ''daily_token_limit'' (JInt 50000)) of
                  None \<Rightarrow> Inl BadValue
                | Some daily_limit \<Rightarrow>
                    if daily_limit \<le> 0
                    then Inr (Inl (refuse DAILY_QUOTA_EXCEEDED ''daily token quota set to 0''))
                    else Inr (Inr (kvs, tid, daily_limit))))
         | _ \<Rightarrow> Inl BadValue)
     | _ \<Rightarrow> Inl BadValue)"

text \<open>A call on Redis inside the handler: an error leaves the handler.\<close>

definition on_redis ::
  "('r \<Rightarrow> (redis_error, 'a, 'r) outcome) \<Rightarrow> 'r grpc_state \<Rightarrow> (rpc_error, 'a, 'r grpc_state) outcome" where
  "on_redis f g =
    (case f (gs_redis g) of
       (Inl e, r) \<Rightarrow> raise (RedisFailure e) (g\<lparr>gs_redis := r\<rparr>)
     | (Inr x, r) \<Rightarrow> ret x (g\<lparr>gs_redis := r\<rparr>))"

definition bind_rpc ::
  "('e, 'a, 's) outcome \<Rightarrow> ('a \<Rightarrow> 's \<Rightarrow> ('e, 'b, 's) outcome) \<Rightarrow> ('e, 'b, 's) outcome" where
  "bind_rpc m f = (case m of (Inl e, s) \<Rightarrow> raise e s | (Inr x, s) \<Rightarrow> f x s)"

definition reserve ::
  "'r grpc_env \<Rightarrow> rpc_call \<Rightarrow> string \<Rightarrow> int \<Rightarrow> 'r grpc_state \<Rightarrow> (rpc_error, bool \<times> int, 'r grpc_state) outcome" where
  "reserve E c tid daily_limit g =
    (if gs_has_cache g
     then on_redis (reserve_daily_quota (ge_redis E) tid daily_limit (rc_day c) (rc_server c)) g
     else ret (True, daily_limit) g)"

definition refund ::
  "'r grpc_env \<Rightarrow> rpc_call \<Rightarrow> string \<Rightarrow> 'r grpc_state \<Rightarrow> (rpc_error, unit, 'r grpc_state) outcome" where
  "refund E c tid g =
    (if gs_has_cache g then on_redis (refund_daily_quota (ge_redis E) tid 0 (rc_day c) (rc_server c)) g
     else ret () g)"

text \<open>The response of an admitted request; a field that does not fit raises.\<close>

definition pass_response ::
  "(string, json) dict \<Rightarrow> string \<Rightarrow> string \<Rightarrow> int \<Rightarrow> rpc_error + authorize_response" where
  "pass_response kvs tid lease_id remaining =
    (let tier = jget_default kvs ''tier'' (JStr ''standard'')
     in case priority_from (jget_default kvs ''default_priority'' JNull) tier of
          None \<Rightarrow> Inl BadValue
        | Some priority \<Rightarrow>
            (case (jget_default kvs ''tenant_name'' (JStr tid), tier) of
               (JStr name, JStr tr) \<Rightarrow>
                 if \<not> fits 32 priority then Inl BadValue
                 else Inr \<lparr>rs_is_allowed = True, rs_error_code = AUTH_ERROR_CODE_UNSPECIFIED,
                        rs_error_message = [],
                        rs_tenant_context = Some \<lparr>tc_tenant_id = tid, tc_tenant_name = name, tc_tier = tr,
                          tc_priority = priority\<rparr>,
                        rs_lease_id = lease_id,
                        rs_max_allowed_tokens =
                          min DEFAULT_MAX_TOKENS (if remaining > 0 then remaining else DEFAULT_MAX_TOKENS)\<rparr>
             | _ \<Rightarrow> Inl BadValue))"

text \<open>The per-minute budget, counted last; where it is spent the lease is given back.\<close>

definition rpm_gate ::
  "'r grpc_env \<Rightarrow> rpc_call \<Rightarrow> (string, json) dict \<Rightarrow> string \<Rightarrow> string \<Rightarrow> int \<Rightarrow> 'r grpc_state
     \<Rightarrow> (rpc_error, authorize_response, 'r grpc_state) outcome" where
  "rpm_gate E c kvs tid lease_id remaining g =
    (case json_int (jget_default kvs ''rpm_limit'' (JInt 0)) of
       None \<Rightarrow> raise BadValue g
     | Some rpm_limit \<Rightarrow>
         bind_rpc
           (if rpm_limit > 0 \<and> gs_has_cache g
            then on_redis (check_rpm (ge_redis E) tid rpm_limit (rc_uid c) (rc_now c) (rc_server c)) g
            else ret (True, 0) g)
           (\<lambda>(rpm_ok, _) g1.
             if rpm_ok then (pass_response kvs tid lease_id remaining, g1)
             else
               bind_rpc (on_redis (lease_release (ge_redis E) tid lease_id (rc_server c)) g1) (\<lambda>_ g2.
               bind_rpc (refund E c tid g2) (\<lambda>_ g3.
               ret (refuse RATE_LIMIT_EXCEEDED (''rpm limit ('' @ int_repr rpm_limit @ ''/min) exceeded''))
                 (g3\<lparr>gs_store := log_lease tid lease_id ''release'' (Some ''rpm_exceeded'') (rc_now c) (gs_store g3)\<rparr>)))))"

definition acquire_gate ::
  "'r grpc_env \<Rightarrow> rpc_call \<Rightarrow> (string, json) dict \<Rightarrow> string \<Rightarrow> int \<Rightarrow> 'r grpc_state
     \<Rightarrow> (rpc_error, authorize_response, 'r grpc_state) outcome" where
  "acquire_gate E c kvs tid remaining g =
    (case json_int (jget_default kvs ''max_concurrency'' (JInt 2)) of
       None \<Rightarrow> raise BadValue g
     | Some max_concurrency \<Rightarrow>
         bind_rpc
           (on_redis (try_acquire (ge_redis E) (ge_lease_ttl E) tid max_concurrency (rc_uuid c) (rc_now c) (rc_server c)) g)
           (\<lambda>acquired g1.
             case acquired of
               None \<Rightarrow>
                 bind_rpc (refund E c tid g1) (\<lambda>_ g2.
                 ret (refuse CONCURRENCY_LIMIT_EXCEEDED
                   (''concurrency limit ('' @ int_repr max_concurrency @ '') reached'')) g2)
             | Some (lease_id, active) \<Rightarrow>
                 rpm_gate E c kvs tid lease_id remaining
                   (g1\<lparr>gs_store := log_lease tid lease_id ''acquire'' (Some ''grpc_authorize'') (rc_now c) (gs_store g1)\<rparr>)))"

definition grpc_authorize ::
  "'r grpc_env \<Rightarrow> rpc_call \<Rightarrow> authorize_request \<Rightarrow> 'r grpc_state
     \<Rightarrow> (rpc_error, authorize_response, 'r grpc_state) outcome" where
  "grpc_authorize E c req g =
    (let api_key = py_strip (rq_api_key req)
     in if api_key = [] then ret (refuse INVALID_API_KEY ''empty api key'') g
        else case lookup_info E c api_key g of
          (Inl resp, g1) \<Rightarrow> ret resp g1
        | (Inr info, g1) \<Rightarrow>
            (case pre_checks req info of
               Inl e \<Rightarrow> raise e g1
             | Inr (Inl resp) \<Rightarrow> ret resp g1
             | Inr (Inr (kvs, tid, daily_limit)) \<Rightarrow>
                 bind_rpc (reserve E c tid daily_limit g1) (\<lambda>(quota_ok, remaining) g2.
                   if \<not> quota_ok then ret (refuse DAILY_QUOTA_EXCEEDED ''daily token quota exceeded'') g2
                   else acquire_gate E c kvs tid remaining g2)))"

definition AuthorizeAndAcquire ::
  "'r grpc_env \<Rightarrow> rpc_call \<Rightarrow> authorize_request \<Rightarrow> 'r grpc_state
     \<Rightarrow> (rpc_error, authorize_response, 'r grpc_state) outcome" where
  "AuthorizeAndAcquire E c req g =
    (case grpc_authorize E c req g of
       (Inl e, g') \<Rightarrow> raise Unavailable g'
     | (Inr resp, g') \<Rightarrow> ret resp g')"

section \<open>ReleaseLease and ReportUsage\<close>

definition or_default :: "string \<Rightarrow> string \<Rightarrow> string" where
  "or_default s d = (if s = [] then d else s)"

definition ReleaseLease ::
  "'r grpc_env \<Rightarrow> rpc_call \<Rightarrow> string \<Rightarrow> string \<Rightarrow> string \<Rightarrow> 'r grpc_state \<Rightarrow> (rpc_error, bool, 'r grpc_state) outcome" where
  "ReleaseLease E c lease_id tid reason g =
    (if \<not> lease_belongs lease_id tid then ret False g
     else bind_rpc (on_redis (lease_release (ge_redis E) tid lease_id (rc_server c)) g) (\<lambda>active g1.
       if active \<ge> 0
       then ret True (g1\<lparr>gs_store := log_lease tid lease_id ''release'' (Some (or_default reason ''released''))
                           (rc_now c) (gs_store g1)\<rparr>)
       else ret False g1))"

record usage_request =
  ur_lease_id :: string
  ur_tenant_id :: string
  ur_model_name :: string
  ur_prompt_tokens :: int
  ur_completion_tokens :: int
  ur_release_after :: bool

definition ReportUsage ::
  "'r grpc_env \<Rightarrow> rpc_call \<Rightarrow> usage_request \<Rightarrow> 'r grpc_state \<Rightarrow> (rpc_error, bool \<times> int, 'r grpc_state) outcome" where
  "ReportUsage E c u g =
    (let tid = ur_tenant_id u; lease_id = ur_lease_id u;
         total = ur_prompt_tokens u + ur_completion_tokens u
     in if lease_id \<noteq> [] \<and> \<not> lease_belongs lease_id tid then ret (False, 0) g
        else
          let g1 = (if total > 0
                    then g\<lparr>gs_store := snd (record_usage tid None ''tokens'' total ''grpc''
                             (or_none (ur_model_name u)) (rc_now c) (gs_store g))\<rparr>
                    else g)
          in bind_rpc
               (if gs_has_cache g1 \<and> total > 0
                then bind_rpc (on_redis (record_token_usage (ge_redis E) tid total (rc_day c) (rc_server c)) g1) (\<lambda>_. ret ())
                else ret () g1) (\<lambda>_ g2.
             bind_rpc
               (if lease_id \<noteq> [] \<and> ur_release_after u then
                  bind_rpc (on_redis (lease_release (ge_redis E) tid lease_id (rc_server c)) g2) (\<lambda>active g3.
                    ret () (if active \<ge> 0
                            then g3\<lparr>gs_store := log_lease tid lease_id ''release'' (Some ''usage_reported'')
                                      (rc_now c) (gs_store g3)\<rparr>
                            else g3))
                else ret () g2) (\<lambda>_ g4.
             let daily_limit = daily_limit_for (get_quota tid (gs_store g4))
             in bind_rpc
                  (if gs_has_cache g4
                   then on_redis (remaining_quota (ge_redis E) tid daily_limit (rc_day c) (rc_server c)) g4
                   else ret daily_limit g4) (\<lambda>remaining g5.
                if fits 64 remaining then ret (True, remaining) g5 else raise BadValue g5))))"

section \<open>The service-token interceptor\<close>

definition SERVICE_TOKEN_METADATA_KEY :: string where
  "SERVICE_TOKEN_METADATA_KEY = ''x-fusion-service-token''"

definition ServiceTokenInterceptor :: "string \<Rightarrow> string + string" where
  "ServiceTokenInterceptor service_token =
    (if service_token = [] then Inl ''service_token must be non-empty (fail-closed)'' else Inr service_token)"

text \<open>\<open>True\<close> continues with the call, \<open>False\<close> aborts it as unauthenticated.\<close>

definition intercept_service :: "string \<Rightarrow> (string \<times> string) list \<Rightarrow> guard_error + bool" where
  "intercept_service service_token metadata =
    (let supplied = upd_opt (dget (fold (\<lambda>(k, v). dset k v) metadata []) SERVICE_TOKEN_METADATA_KEY) []
     in if supplied = [] then Inr False else compare_digest supplied service_token)"

end
