(* ===== verification/Grpc_Properties.thy ===== *)
theory Grpc_Properties
  imports Grpc_Service Lease_Properties Cache_Properties Store_Properties
begin

text \<open>
  What an authorization granted over gRPC implies, and how the daily quota behaves at its
  limit.
\<close>

section \<open>Inversion of the handler\<close>

lemma bind_rpcE:
  assumes "bind_rpc m f = (Inr y, s')"
  obtains x s where "m = (Inr x, s)" "f x s = (Inr y, s')"
  using assms by (cases m; cases "fst m") (auto simp: bind_rpc_def)

lemma on_redisE:
  assumes "on_redis f g = (Inr x, g')"
  obtains r where "f (gs_redis g) = (Inr x, r)" "g' = g\<lparr>gs_redis := r\<rparr>"
  using assms by (auto simp: on_redis_def split: prod.splits sum.splits)

lemma refuse_not_allowed [simp]: "\<not> rs_is_allowed (refuse code msg)"
  by (simp add: refuse_def)

lemma pass_responseE:
  assumes "pass_response kvs tid lease_id remaining = Inr resp"
  shows "rs_lease_id resp = lease_id" "\<exists>tc. rs_tenant_context resp = Some tc \<and> tc_tenant_id tc = tid"
    "rs_max_allowed_tokens resp = min 4096 (if remaining > 0 then remaining else 4096)"
  using assms
  by (auto simp: pass_response_def DEFAULT_MAX_TOKENS_def Let_def split: option.splits json.splits if_splits)


text \<open>The step of the request-rate gate when it passes: the script answered yes, or was not asked.\<close>

definition rpm_step ::
  "'r grpc_env \<Rightarrow> rpc_call \<Rightarrow> (string, json) dict \<Rightarrow> string \<Rightarrow> bool \<Rightarrow> 'r \<Rightarrow> 'r \<Rightarrow> bool" where
  "rpm_step E c kvs tid cached r r' \<longleftrightarrow>
    (\<exists>rpm. json_int (jget_default kvs ''rpm_limit'' (JInt 0)) = Some rpm \<and>
       (if 0 < rpm \<and> cached
        then \<exists>n. check_rpm (ge_redis E) tid rpm (rc_uid c) (rc_now c) (rc_server c) r = (Inr (True, n), r')
        else r' = r))"

lemma rpm_gateE:
  assumes "rpm_gate E c kvs tid lease_id remaining g = (Inr resp, g')" "rs_is_allowed resp"
  obtains r where "g' = g\<lparr>gs_redis := r\<rparr>" "pass_response kvs tid lease_id remaining = Inr resp"
    "rpm_step E c kvs tid (gs_has_cache g) (gs_redis g) r"
proof -
  obtain rpm where rpm: "json_int (jget_default kvs ''rpm_limit'' (JInt 0)) = Some rpm"
    using assms(1) by (auto simp: rpm_gate_def split: option.splits)
  define m where "m = (if rpm > 0 \<and> gs_has_cache g
     then on_redis (check_rpm (ge_redis E) tid rpm (rc_uid c) (rc_now c) (rc_server c)) g else ret (True, 0) g)"
  obtain x g1 where x: "m = (Inr x, g1)" and
    f: "(if fst x then (pass_response kvs tid lease_id remaining, g1)
         else bind_rpc (on_redis (lease_release (ge_redis E) tid lease_id (rc_server c)) g1) (\<lambda>_ g2.
               bind_rpc (refund E c tid g2) (\<lambda>_ g3.
               ret (refuse RATE_LIMIT_EXCEEDED (''rpm limit ('' @ int_repr rpm @ ''/min) exceeded''))
                 (g3\<lparr>gs_store := log_lease tid lease_id ''release'' (Some ''rpm_exceeded'') (rc_now c) (gs_store g3)\<rparr>))))
       = (Inr resp, g')"
    using assms(1) unfolding rpm_gate_def rpm option.case m_def [symmetric]
    by (rule_tac bind_rpcE [of m]) (auto simp: case_prod_beta)
  have ok: "fst x"
  proof (rule ccontr)
    assume "\<not> fst x"
    with f show False using assms(2) by (auto elim!: bind_rpcE)
  qed
  then have p: "pass_response kvs tid lease_id remaining = Inr resp" "g' = g1" using f by simp_all
  show thesis
  proof (cases "rpm > 0 \<and> gs_has_cache g")
    case True
    then obtain r where "check_rpm (ge_redis E) tid rpm (rc_uid c) (rc_now c) (rc_server c) (gs_redis g) = (Inr x, r)"
        "g1 = g\<lparr>gs_redis := r\<rparr>"
      using x by (auto simp: m_def elim: on_redisE)
    with True p ok rpm show thesis by (cases x) (intro that [of r], simp_all add: rpm_step_def)
  next
    case False
    then show thesis using x p rpm by (intro that [of "gs_redis g"]) (auto simp: m_def rpm_step_def)
  qed
qed

lemma acquire_gateE:
  assumes "acquire_gate E c kvs tid remaining g = (Inr resp, g')" "rs_is_allowed resp"
  obtains m lease_id n r1 r2 where
    "json_int (jget_default kvs ''max_concurrency'' (JInt 2)) = Some m"
    "try_acquire (ge_redis E) (ge_lease_ttl E) tid m (rc_uuid c) (rc_now c) (rc_server c) (gs_redis g)
      = (Inr (Some (lease_id, n)), r1)"
    "gs_store g' = log_lease tid lease_id ''acquire'' (Some ''grpc_authorize'') (rc_now c) (gs_store g)"
    "gs_redis g' = r2" "pass_response kvs tid lease_id remaining = Inr resp"
    "rpm_step E c kvs tid (gs_has_cache g) r1 r2"
proof -
  obtain m where m: "json_int (jget_default kvs ''max_concurrency'' (JInt 2)) = Some m"
    using assms(1) by (auto simp: acquire_gate_def split: option.splits)
  obtain a g1 where a: "on_redis (try_acquire (ge_redis E) (ge_lease_ttl E) tid m (rc_uuid c) (rc_now c) (rc_server c)) g
        = (Inr a, g1)" and
    f: "(case a of None \<Rightarrow> bind_rpc (refund E c tid g1) (\<lambda>_ g2.
            ret (refuse CONCURRENCY_LIMIT_EXCEEDED (''concurrency limit ('' @ int_repr m @ '') reached'')) g2)
         | Some (lease_id, active) \<Rightarrow> rpm_gate E c kvs tid lease_id remaining
            (g1\<lparr>gs_store := log_lease tid lease_id ''acquire'' (Some ''grpc_authorize'') (rc_now c) (gs_store g1)\<rparr>))
       = (Inr resp, g')"
    using assms(1) unfolding acquire_gate_def m option.case by (rule bind_rpcE)
  have "a \<noteq> None"
  proof
    assume "a = None"
    with f show False using assms(2) by (auto elim!: bind_rpcE)
  qed
  then obtain lease_id n where s: "a = Some (lease_id, n)" by auto
  obtain r1 where r1: "try_acquire (ge_redis E) (ge_lease_ttl E) tid m (rc_uuid c) (rc_now c) (rc_server c) (gs_redis g)
      = (Inr (Some (lease_id, n)), r1)" "g1 = g\<lparr>gs_redis := r1\<rparr>"
    using a unfolding s by (rule on_redisE)
  from f have "rpm_gate E c kvs tid lease_id remaining
      (g1\<lparr>gs_store := log_lease tid lease_id ''acquire'' (Some ''grpc_authorize'') (rc_now c) (gs_store g1)\<rparr>) = (Inr resp, g')"
    by (simp add: s)
  then obtain r2 where r2:
      "g' = (g1\<lparr>gs_store := log_lease tid lease_id ''acquire'' (Some ''grpc_authorize'') (rc_now c) (gs_store g1)\<rparr>)\<lparr>gs_redis := r2\<rparr>"
      "pass_response kvs tid lease_id remaining = Inr resp"
      "rpm_step E c kvs tid (gs_has_cache g1) (gs_redis g1) r2"
    by (rule rpm_gateE [OF _ assms(2)]) simp
  show thesis
    by (rule that [OF m r1(1) _ _ r2(2), of r2]) (use r2(1,3) in \<open>simp_all add: r1(2)\<close>)
qed

lemma lookup_infoE:
  assumes "lookup_info E c key g = (Inr info, g')"
  shows "gs_store g' = gs_store g" "gs_has_cache g' = gs_has_cache g"
    "store_info key (gs_store g) = Inr info \<or> gs_has_cache g \<and>
      fst (get_tenant_by_api_key (ge_redis E) (ge_fp E) key (rc_server c) (gs_redis g)) = Inr (Some info)"
  using assms by (auto simp: lookup_info_def Let_def split: prod.splits sum.splits option.splits if_splits)

text \<open>The data under which the checks before the reservation pass.\<close>

definition admits :: "authorize_request \<Rightarrow> (string, json) dict \<Rightarrow> string \<Rightarrow> int \<Rightarrow> bool" where
  "admits req kvs tid limit \<longleftrightarrow>
    truthy_json (jget_default kvs ''is_active'' (JBool True)) \<and> dget kvs ''tenant_id'' = Some (JStr tid) \<and>
    py_strip (rq_tenant_id req) \<in> {[], tid} \<and>
    (truthy_json (jget_default kvs ''allowed_modules'' JNull) \<longrightarrow> rq_target_module req \<noteq> [] \<longrightarrow>
       json_in (rq_target_module req) (jget_default kvs ''allowed_modules'' JNull) = Some True) \<and>
    (truthy_json (jget_default kvs ''allowed_models'' JNull) \<longrightarrow> rq_target_model req \<noteq> [] \<longrightarrow>
       json_in (rq_target_model req) (jget_default kvs ''allowed_models'' JNull) = Some True) \<and>
    json_int (jget_default kvs ''daily_token_limit'' (JInt 50000)) = Some limit \<and> 0 < limit"



section \<open>The daily quota of an admitted request\<close>




section \<open>The lease of an admitted request\<close>

lemma rpm_key_other: "\<forall>x. rpm_key tid \<noteq> lease_prefix @ x" "rpm_key tid \<noteq> leases_key tid'"
  by (simp_all add: rpm_key_def lease_prefix_def leases_key_def)





lemma acquired_lease:
  assumes R: "redis_sound R \<alpha>" and ttl: "0 < ttl" and z: "zkey (lease_set \<alpha> s tid)"
    and a: "try_acquire R ttl tid m hex clock t s = (Inr (Some (lease_id, n)), s')"
  obtains l D where "lease_id = new_lease_id tid hex" "lease_set \<alpha> s' tid = Some (RZset l, Some D)"
    "lease_id \<in> set (dkeys l)" "int (length l) \<le> m" "t < D" "\<alpha> s' (rpm_key tid) = \<alpha> s (rpm_key tid)"
proof -
  have pos: "0 < m" "rd_up R t s" using a by (auto simp: try_acquire_def Let_def split: if_splits)
  define now where "now = py_int clock"
  define id where "id = new_lease_id tid hex"
  obtain l d where zs: "zset_at t (lease_set \<alpha> s tid) = (l, d)" by (cases "zset_at t (lease_set \<alpha> s tid)")
  have "int (length (unexpired now l)) < m"
  proof (rule ccontr)
    assume "\<not> int (length (unexpired now l)) < m"
    then have "m \<le> int (length (unexpired now l))" by simp
    from acquire_full [OF R z zs this] a pos show False
      by (simp add: try_acquire_def Let_def now_def id_def)
  qed
  note room = this
  show thesis
  proof (rule acquire_room [where lease_id = id, OF R z zs room ttl])
    fix s1
    assume s1: "ACQUIRE_LUA R t (leases_key tid) lease_prefix now ttl id m s
        = ret (int (length (dset id (now + ttl) (unexpired now l)))) s1"
      and set: "lease_set \<alpha> s1 tid = Some (RZset (dset id (now + ttl) (unexpired now l)), Some (t + of_int (ttl + 60)))"
      and other: "\<And>k. \<forall>x. k \<noteq> lease_prefix @ x \<Longrightarrow> k \<noteq> leases_key tid \<Longrightarrow> \<alpha> s1 k = \<alpha> s k"
    have eq: "lease_id = id" "s' = s1"
      using a pos s1 by (simp_all add: try_acquire_def Let_def now_def id_def split: if_splits)
    show thesis
    proof (rule that)
      show "lease_id = new_lease_id tid hex" using eq(1) by (simp add: id_def)
      show "lease_set \<alpha> s' tid = Some (RZset (dset id (now + ttl) (unexpired now l)), Some (t + of_int (ttl + 60)))"
        using set eq(2) by simp
      show "lease_id \<in> set (dkeys (dset id (now + ttl) (unexpired now l)))"
        unfolding eq(1) by (simp add: dget_dset dom_map_of_conv_image_fst [symmetric] domIff)
      show "int (length (dset id (now + ttl) (unexpired now l))) \<le> m"
        using length_dset [of id "now + ttl" "unexpired now l"] room by linarith
      show "t < t + real_of_int (ttl + 60)" using ttl by simp
      show "\<alpha> s' (rpm_key tid) = \<alpha> s (rpm_key tid)" unfolding eq(2) by (rule other [OF rpm_key_other])
    qed
  qed
qed

lemma read_entry_frame:
  assumes R: "redis_sound R \<alpha>" and k: "k \<noteq> key"
  shows "\<alpha> (snd (read_entry R fp key t s)) k = \<alpha> s k"
  using k by (simp add: read_entry_def call_def redis_del [OF R] split: option.split json.split)

lemma write_entry_frame:
  assumes R: "redis_sound R \<alpha>" and k: "k \<noteq> key"
  shows "\<alpha> (snd (write_entry R fr key j ttl t s)) k = \<alpha> s k"
proof (cases "0 < ttl")
  case True
  obtain s' where "rd_set R t key (dumps_default fr j) ttl s = Some s'"
      "\<alpha> s' = (\<alpha> s)(key := Some (RStr (dumps_default fr j), Some (t + of_int ttl)))"
    by (rule redis_set [OF R True])
  then show ?thesis using k by (simp add: write_entry_def call_def)
qed (use redis_set_bad [OF R, of ttl t key "dumps_default fr j" s] in \<open>simp add: write_entry_def call_def\<close>)

lemma lookup_info_frame:
  assumes R: "redis_sound (ge_redis E) \<alpha>" and k: "k \<noteq> api_key_key key"
  shows "\<alpha> (gs_redis (snd (lookup_info E c key g))) k = \<alpha> (gs_redis g) k"
proof -
  note rd = read_entry_frame [OF R k, of "ge_fp E" "rc_server c" "gs_redis g"]
  note wr = write_entry_frame [OF R k, of "ge_fr E" _ 300 "rc_server c"]
  show ?thesis
    using rd
    by (auto simp: lookup_info_def Let_def get_tenant_by_api_key_def set_api_key_def wr
        split: prod.splits sum.splits option.splits)
qed

lemma reserve_frame:
  assumes R: "redis_sound (ge_redis E) \<alpha>" and k: "k \<noteq> quota_key tid (rc_day c)"
    and r: "reserve E c tid limit g = (Inr x, g')"
  shows "\<alpha> (gs_redis g') k = \<alpha> (gs_redis g) k"
proof -
  have "\<alpha> (rd_expire (ge_redis E) t (quota_key tid (rc_day c)) ttl s) k = \<alpha> s k" for t ttl s
    using k by (simp add: redis_expire [OF R] split: option.split)
  then show ?thesis
    using r redis_incrby_other [OF R _ k]
    by (auto simp: reserve_def on_redis_def reserve_daily_quota_def call_def RESERVE_QUOTA_LUA_def
        split: prod.splits sum.splits option.splits if_splits)
qed

lemma lease_keys_apart:
  "leases_key x \<noteq> api_key_key key" "rpm_key x \<noteq> api_key_key key"
  "leases_key x \<noteq> quota_key tid day" "rpm_key x \<noteq> quota_key tid day" "leases_key x \<noteq> rpm_key tid"
  by (simp_all add: leases_key_def rpm_key_def api_key_key_def quota_key_def)







text \<open>The reservation when the counter of the day has reached the limit exactly.\<close>

lemma reserve_at_limit:
  assumes R: "redis_sound (ge_redis E) \<alpha>" and up: "rd_up (ge_redis E) (rc_server c) (gs_redis g)" and "gs_has_cache g"
    and e: "\<alpha> (gs_redis g) (quota_key tid (rc_day c)) = Some (RStr (int_repr limit), d)" and "alive (rc_server c) d"
    and "0 < limit" "limit < 2 ^ 63"
  shows "\<exists>r. reserve E c tid limit g = ret (True, 0) (g\<lparr>gs_redis := r\<rparr>)"
proof -
  let ?k = "quota_key tid (rc_day c)"
  have at: "str_at (rc_server c) (\<alpha> (gs_redis g) ?k) = Some (int_repr limit, d)" using e assms(5) by simp
  obtain r where "rd_incrby (ge_redis E) (rc_server c) ?k 0 (gs_redis g) = Some (limit + 0, r)"
      "\<alpha> r = (\<alpha> (gs_redis g))(?k := Some (RStr (int_repr (limit + 0)), d))"
    by (rule redis_incrby_old [OF R _ at dec_int_repr, of 0]) (use e assms(6,7) in simp_all)
  moreover have "counter (ge_redis E) (rc_server c) ?k (gs_redis g) = Some limit"
    using at e by (simp add: counter_def redis_get [OF R])
  ultimately show ?thesis
    using up assms(3) by (simp add: reserve_def on_redis_def reserve_daily_quota_def call_def RESERVE_QUOTA_LUA_def) blast
qed

lemma pass_response_code:
  "pass_response kvs tid lease_id remaining = Inr resp \<Longrightarrow> rs_error_code resp = AUTH_ERROR_CODE_UNSPECIFIED"
  by (auto simp: pass_response_def Let_def split: option.splits json.splits if_splits)

lemma rpm_gate_code:
  assumes "rpm_gate E c kvs tid lease_id remaining g = (Inr resp, g')"
  shows "rs_error_code resp \<noteq> DAILY_QUOTA_EXCEEDED"
  using assms
  by (auto simp: rpm_gate_def refuse_def dest!: pass_response_code split: option.splits if_splits elim!: bind_rpcE)

lemma acquire_gate_code:
  assumes "acquire_gate E c kvs tid remaining g = (Inr resp, g')"
  shows "rs_error_code resp \<noteq> DAILY_QUOTA_EXCEEDED"
  using assms
  by (auto simp: acquire_gate_def refuse_def dest: rpm_gate_code split: option.splits elim!: bind_rpcE)

lemma pre_checksI: "admits req kvs tid limit \<Longrightarrow> pre_checks req (JObj kvs) = Inr (Inr (kvs, tid, limit))"
  by (auto simp: pre_checks_def admits_def Let_def err_bind_def)

text \<open>A free slot is granted.\<close>

lemma acquire_free:
  assumes R: "redis_sound R \<alpha>" and "rd_up R t s" "0 < ttl" "0 < m" "\<alpha> s (leases_key tid) = None"
  shows "\<exists>n r. try_acquire R ttl tid m hex clock t s = ret (Some (new_lease_id tid hex, n)) r"
proof (rule acquire_room [where lease_id = "new_lease_id tid hex" and now = "py_int clock", OF R _ _ _ assms(3), of s tid t "[]" None m])
  fix r
  assume "ACQUIRE_LUA R t (leases_key tid) lease_prefix (py_int clock) ttl (new_lease_id tid hex) m s
    = ret (int (length (dset (new_lease_id tid hex) (py_int clock + ttl) (unexpired (py_int clock) [])))) r"
  then show ?thesis using assms(2,4) by (simp add: try_acquire_def Let_def unexpired_def)
qed (use assms(4,5) in \<open>simp_all add: unexpired_def\<close>)

lemma rpm_free:
  assumes R: "redis_sound R \<alpha>" and "rd_up R t s" "0 < rpm" "\<alpha> s (rpm_key tid) = None"
  shows "\<exists>n r. check_rpm R tid rpm uid clock t s = ret (True, n) r"
proof -
  define s1 where "s1 = rd_zremrangebyscore R t (rpm_key tid) 0 (py_int clock - 60) s"
  have "\<alpha> s1 (rpm_key tid) = None" using redis_zset(5) [OF R, of s "rpm_key tid"] assms(4) by (simp add: s1_def zput_def)
  then have "rd_zcard R t (rpm_key tid) s1 = 0" using redis_zset(1) [OF R, of s1 "rpm_key tid" t] by simp
  then show ?thesis
    using assms(2,3) by (simp add: check_rpm_def call_def CHECK_RPM_LUA_def Let_def s1_def [symmetric])
qed

text \<open>The sample tenant asks with its key when the counter of the day stands at the limit.\<close>

definition demo_genv :: "(string, rentry) dict grpc_env" where
  "demo_genv = \<lparr>ge_redis = kv_redis, ge_fr = demo_fr, ge_fp = (\<lambda>_. 0), ge_lease_ttl = 120\<rparr>"

definition demo_call :: rpc_call where
  "demo_call = \<lparr>rc_now = 1000, rc_server = 1000, rc_day = ''2026-01-01'', rc_uuid = ''0123456789abcdef'', rc_uid = ''1''\<rparr>"

definition demo_authorize :: authorize_request where
  "demo_authorize = \<lparr>rq_api_key = ''fmu_r'', rq_target_module = [], rq_target_model = [], rq_tenant_id = ''acme''\<rparr>"

definition demo_gateway :: "(string, rentry) dict grpc_state" where
  "demo_gateway = \<lparr>gs_store = demo5,
     gs_redis = [(quota_key ''acme'' ''2026-01-01'', (RStr (int_repr 100000), None))], gs_has_cache = True\<rparr>"


text \<open>
  C40: a tenant whose counter of the day stands exactly at its daily limit is not refused for
  its quota, and when it is granted it gets the full allowance of 4096 tokens: the
  reservation adds nothing, so it passes, and a remainder of zero reads as no bound.
\<close>

theorem exhausted_quota_still_admitted:
  assumes "redis_sound (ge_redis E) \<alpha>" "\<forall>t r. rd_up (ge_redis E) t r" "gs_has_cache g"
    and "lookup_info E c (py_strip (rq_api_key req)) g = (Inr (JObj kvs), g1)" "admits req kvs tid limit"
    and "\<alpha> (gs_redis g) (quota_key tid (rc_day c)) = Some (RStr (int_repr limit), d)" "alive (rc_server c) d"
    and "limit < 2 ^ 63" "py_strip (rq_api_key req) \<noteq> []"
    and "AuthorizeAndAcquire E c req g = (Inr resp, g')"
  shows "rs_error_code resp \<noteq> DAILY_QUOTA_EXCEEDED \<and> (rs_is_allowed resp \<longrightarrow> rs_max_allowed_tokens resp = 4096)"
proof -
  have "\<alpha> (gs_redis g1) (quota_key tid (rc_day c)) = Some (RStr (int_repr limit), d)"
    using lookup_info_frame [OF assms(1), of "quota_key tid (rc_day c)" "py_strip (rq_api_key req)" c g] assms(4,6)
    by (simp add: quota_key_def api_key_key_def)
  moreover have "gs_has_cache g1" using lookup_infoE(2) [OF assms(4)] assms(3) by simp
  moreover have "0 < limit" using assms(5) by (simp add: admits_def)
  ultimately have "\<exists>r. reserve E c tid limit g1 = ret (True, 0) (g1\<lparr>gs_redis := r\<rparr>)"
    using assms(2,7,8) by (intro reserve_at_limit [OF assms(1)]) simp_all
  then obtain r where r: "reserve E c tid limit g1 = ret (True, 0) (g1\<lparr>gs_redis := r\<rparr>)" by (rule exE)
  have acq: "acquire_gate E c kvs tid 0 (g1\<lparr>gs_redis := r\<rparr>) = (Inr resp, g')"
    using assms(4,9,10) r
    by (simp add: AuthorizeAndAcquire_def grpc_authorize_def Let_def pre_checksI [OF assms(5)] bind_rpc_def
        split: prod.splits sum.splits)
  have "rs_max_allowed_tokens resp = 4096" if "rs_is_allowed resp"
    by (rule acquire_gateE [OF acq that]) (simp add: pass_responseE(3))
  with acquire_gate_code [OF acq] show ?thesis by simp
qed

text \<open>The sample request is granted; the two properties at that request.\<close>

definition demo_kvs :: "(string, json) dict" where
  "demo_kvs =
    [(''tenant_id'', JStr ''acme''), (''tenant_name'', JStr ''Acme''), (''tier'', JStr ''standard''),
     (''is_active'', JBool True), (''allowed_modules'', JArr []), (''allowed_models'', JArr []),
     (''max_concurrency'', JInt 4), (''daily_token_limit'', JInt 100000), (''rpm_limit'', JInt 60),
     (''default_priority'', JInt 0)]"

lemma demo_info: "store_info ''fmu_r'' demo5 = Inr (JObj demo_kvs)"
  unfolding store_info_def demo_keys
  by (simp add: demo_defs valid_auditor not_builtin_auditor get_tenant_def get_quota_def tenant_info_def
      quota_int_def DEFAULT_QUOTA_def demo_kvs_def)

lemma demo_strip: "py_strip ''fmu_r'' = ''fmu_r''" "py_strip ''acme'' = ''acme''"
  by code_simp+

lemma demo_admits: "admits demo_authorize demo_kvs ''acme'' 100000"
  by (simp add: admits_def demo_authorize_def demo_kvs_def demo_strip jget_default_def json_int_def)

lemma demo_miss:
  "read_entry kv_redis (\<lambda>_. 0) (api_key_key ''fmu_r'') 1000 (gs_redis demo_gateway) = ret None (gs_redis demo_gateway)"
  by (simp add: read_entry_def call_def kv_redis_def demo_gateway_def api_key_key_def quota_key_def)

lemma demo_lookup: "\<exists>g1. lookup_info demo_genv demo_call (py_strip (rq_api_key demo_authorize)) demo_gateway
    = (Inr (JObj demo_kvs), g1)"
  using demo_miss
  by (simp add: lookup_info_def get_tenant_by_api_key_def demo_genv_def demo_call_def demo_authorize_def
      demo_strip demo_gateway_def demo_info)

lemma demo_response: "\<exists>resp. pass_response demo_kvs ''acme'' lease_id remaining = Inr resp \<and> rs_is_allowed resp"
  by (simp add: pass_response_def priority_from_def demo_kvs_def jget_default_def TIER_PRIORITY_def
      fits_def)

lemma demo_granted: "\<exists>resp g'. AuthorizeAndAcquire demo_genv demo_call demo_authorize demo_gateway = (Inr resp, g')
    \<and> rs_is_allowed resp"
proof -
  obtain g1 where look: "lookup_info demo_genv demo_call (py_strip (rq_api_key demo_authorize)) demo_gateway
      = (Inr (JObj demo_kvs), g1)"
    using demo_lookup by (rule exE)
  have R: "redis_sound (ge_redis demo_genv) map_of" by (simp add: demo_genv_def kv_redis_sound)
  have up: "rd_up (ge_redis demo_genv) t r" for t r by (simp add: demo_genv_def kv_redis_def)
  have frame: "map_of (gs_redis g1) k = map_of (gs_redis demo_gateway) k" if "k \<noteq> api_key_key ''fmu_r''" for k
    using lookup_info_frame [OF R that, of demo_call demo_gateway] look by (simp add: demo_authorize_def demo_strip)
  have cache: "gs_has_cache g1" using lookup_infoE(2) [OF look] by (simp add: demo_gateway_def)
  have "map_of (gs_redis g1) (quota_key ''acme'' (rc_day demo_call)) = Some (RStr (int_repr 100000), None)"
    by (simp add: frame quota_key_def api_key_key_def) (simp add: demo_gateway_def demo_call_def quota_key_def)
  then obtain r where res: "reserve demo_genv demo_call ''acme'' 100000 g1 = ret (True, 0) (g1\<lparr>gs_redis := r\<rparr>)"
    using reserve_at_limit [OF R up cache, of "''acme''" demo_call 100000 None] by auto
  have free: "map_of r k = None"
    if "k \<noteq> api_key_key ''fmu_r''" "k \<noteq> quota_key ''acme'' (rc_day demo_call)" for k
    using reserve_frame [OF R that(2) res] frame [OF that(1)] that(2)
    by (simp add: demo_gateway_def demo_call_def)
  obtain n r1 where got: "try_acquire (ge_redis demo_genv) 120 ''acme'' 4 (rc_uuid demo_call) (rc_now demo_call)
      (rc_server demo_call) r = ret (Some (new_lease_id ''acme'' (rc_uuid demo_call), n)) r1"
    using acquire_free [OF R up, of 120 4 r "''acme''" "rc_uuid demo_call" "rc_now demo_call" "rc_server demo_call"]
      free [OF lease_keys_apart(1,3)] by auto
  have "map_of r1 (rpm_key ''acme'') = None"
    by (rule acquired_lease [OF R _ _ got]) (simp_all add: free lease_keys_apart)
  then obtain b r2 where rpm: "check_rpm (ge_redis demo_genv) ''acme'' 60 (rc_uid demo_call) (rc_now demo_call)
      (rc_server demo_call) r1 = ret (True, b) r2"
    using rpm_free [OF R up, of 60 r1 "''acme''" "rc_uid demo_call" "rc_now demo_call" "rc_server demo_call"] by auto
  obtain resp where resp: "pass_response demo_kvs ''acme'' (new_lease_id ''acme'' (rc_uuid demo_call)) 0 = Inr resp"
      "rs_is_allowed resp"
    using demo_response by blast
  have m: "json_int (jget_default demo_kvs ''max_concurrency'' (JInt 2)) = Some 4"
      "json_int (jget_default demo_kvs ''rpm_limit'' (JInt 0)) = Some 60" "ge_lease_ttl demo_genv = 120"
    by (simp_all add: demo_kvs_def jget_default_def json_int_def demo_genv_def)
  have "py_strip (rq_api_key demo_authorize) \<noteq> []" by (simp add: demo_authorize_def demo_strip)
  then show ?thesis
    using resp(2)
    by (simp add: AuthorizeAndAcquire_def grpc_authorize_def Let_def look pre_checksI [OF demo_admits] res
        bind_rpc_def acquire_gate_def rpm_gate_def on_redis_def m got rpm cache resp(1))
qed


theorem exhausted_quota_still_admitted_witness:
  "\<exists>resp g'. AuthorizeAndAcquire demo_genv demo_call demo_authorize demo_gateway = (Inr resp, g') \<and>
     rs_is_allowed resp \<and> rs_max_allowed_tokens resp = 4096"
proof -
  obtain resp g' where run: "AuthorizeAndAcquire demo_genv demo_call demo_authorize demo_gateway = (Inr resp, g')"
      "rs_is_allowed resp"
    using demo_granted by blast
  obtain g1 where look: "lookup_info demo_genv demo_call (py_strip (rq_api_key demo_authorize)) demo_gateway
      = (Inr (JObj demo_kvs), g1)"
    using demo_lookup by (rule exE)
  have R: "redis_sound (ge_redis demo_genv) map_of" by (simp add: demo_genv_def kv_redis_sound)
  have up: "\<forall>t r. rd_up (ge_redis demo_genv) t r" by (simp add: demo_genv_def kv_redis_def)
  have at: "map_of (gs_redis demo_gateway) (quota_key ''acme'' (rc_day demo_call)) = Some (RStr (int_repr 100000), None)"
    by (simp add: demo_gateway_def demo_call_def)
  have "gs_has_cache demo_gateway" "py_strip (rq_api_key demo_authorize) \<noteq> []"
    by (simp_all add: demo_gateway_def demo_authorize_def demo_strip)
  with exhausted_quota_still_admitted [OF R up _ look demo_admits at _ _ _ run(1)] run
  show ?thesis by (intro exI [of _ resp] exI [of _ g']) simp
qed

end
