(* ===== verification/Spec2Isabelle.thy ===== *)
theory Spec2Isabelle
  imports Store_Properties Store_Log_Properties Store_Account_Properties Crypto Key_Properties Session_Properties
    Config Lease_Properties Cache_Properties Events Guard_Properties Rate_Limit Grpc_Properties
begin

text \<open>
  Fusion-identity: a multi-tenant identity service in Python (\<open>src/fusion_identity\<close>).

  \<^bold>\<open>The program.\<close> Start-up reads the environment (\<open>config.py\<close>) and seeds an empty store with a
  first administrator (\<open>auth.py\<close>, \<open>bootstrap\<close>). The store (\<open>store.py\<close>) keeps tenants, users,
  memberships, roles, keys, secrets, tokens and logs. The authentication service (\<open>auth.py\<close>)
  logs users in, issues signed tokens (\<open>jwt_utils.py\<close>, keys from \<open>jwks.py\<close>), rotates refresh
  tokens and verifies tokens against the store. HTTP requests pass the guards of \<open>deps.py\<close> and
  the login limiter (\<open>ratelimit.py\<close>). An inference gateway asks over gRPC (\<open>grpc_servicer.py\<close>)
  whether a key may run: the answer combines the store, cached tenant data, a daily counter and
  a per-minute window in Redis (\<open>cache.py\<close>) and a concurrency lease (\<open>concurrency.py\<close>).
  Lifecycle events go through an outbox to a webhook (\<open>events.py\<close>).

  \<^bold>\<open>Conventions\<close> (\<open>Prelude\<close>). A Python object is a record, a \<open>dict\<close> an association list in
  order of insertion (\<open>dget\<close>, \<open>dset\<close>, \<open>dpop\<close>), a string a list of characters with code
  points below 256. An operation
  that can raise returns the error or the result together with the state it leaves, so a
  raise after a write is visible. Clock readings and random draws are arguments. Time is
  real; rounding of floats is not modelled. Integers are Python's unbounded integers; a field
  of a protobuf message and a Redis counter are checked against their width.

  \<^bold>\<open>Parameters.\<close> Code outside the repository is an argument with named laws.
  \<^item> \<open>jwt_lib\<close> (PyJWT): \<open>jwt_roundtrip\<close>, \<open>jwt_checks\<close>; \<open>Jwt_Instance\<close> builds a library that
    meets them.
  \<^item> \<open>kdf\<close> (argon2, scrypt): \<open>argon2_sound\<close>; \<open>aead\<close> (HKDF and AES-GCM): \<open>aead_sound\<close>;
    \<open>rsa_lib\<close> (the cryptography package). Each has a concrete instance in the witnesses.
  \<^item> \<open>redis\<close>: \<open>redis_sound R \<alpha>\<close> gives the documented effect of every command on the keyspace
    \<open>\<alpha>\<close>; \<open>kv_redis\<close> is an instance. A call may fail to reach the server (\<open>rd_up\<close>).
  \<^item> \<open>client\<close>: the HTTP client, stop flag and clock around the webhook worker, without laws.
  \<^item> The text of a float (\<open>repr\<close>) is a function argument. SHA-256, HMAC, base64, UTF-8 and
    JSON are concrete.

  \<^bold>\<open>The theories.\<close>
  \<^item> \<open>Hashing\<close>, \<open>Encoding\<close>, \<open>Json\<close>: SHA-256 (the constants are computed from the primes),
    byte encodings, \<open>json.dumps\<close> and \<open>json.loads\<close>. Decoding inverts encoding.
  \<^item> \<open>Store_Types\<close> to \<open>Store_Logs\<close>: the whole of \<open>InMemoryStore\<close>, one definition per method,
    grouped as in \<open>store.py\<close>, and an inductive step relation per group.
  \<^item> \<open>Store_Invariant\<close>, \<open>Store_Audit\<close>, \<open>Store_Integrity\<close>: \<open>reachable\<close> is closed under every
    step, and \<open>store_inv\<close> holds in every reachable store: dictionaries have distinct keys, member
    roles resolve, the key index is exact, one secret of an app is current, the audit log is
    chained, logs are capped and numbered.
  \<^item> \<open>Store_Tickets\<close>: tickets, invitations, refresh rotation and reset and e-mail tokens as
    instances of the locale \<open>one_shot\<close> of \<open>Prelude\<close>; the four logs are instances of
    \<open>capped_log\<close>.
  \<^item> \<open>Store_Properties\<close>, \<open>Store_Log_Properties\<close>, \<open>Store_Account_Properties\<close>: what the store
    promises: lookups, cascades, isolation of tenants, tamper evidence of the audit chain up to
    a collision of SHA-256, paging, single use.
  \<^item> \<open>Crypto\<close>, \<open>Jwt\<close>, \<open>Key_Ring\<close>, \<open>Key_Properties\<close>: secrets at rest with a rotation window,
    tokens, and the key ring with rotation, pruning, persistence, restart and configured extra
    verification keys.
  \<^item> \<open>Auth\<close>, \<open>Auth_Steps\<close>: every method of \<open>AuthService\<close> and \<open>bootstrap\<close>. Each operation is a
    sequence of store steps, so the store invariant holds under all interleavings.
  \<^item> \<open>Login_Properties\<close>, \<open>Token_Properties\<close>, \<open>Lockout_Properties\<close>, \<open>Session_Properties\<close>: what
    a login, a verification, a refresh, a logout, a revocation, a password change and a user
    deletion guarantee.
  \<^item> \<open>Config\<close>: \<open>load_settings\<close> with all its refusals; a service that starts has separated,
    strong secrets.
  \<^item> \<open>Redis\<close>, \<open>Concurrency\<close>, \<open>Lease_Properties\<close>: the lease scripts; the count of leases stays
    within the limit for all clocks and interleavings, and the leases refine an abstract table.
  \<^item> \<open>Cache\<close>, \<open>Cache_Properties\<close>: the four scripts and all methods of \<open>IdentityCache\<close>;
    lifetime of entries and the login window.
  \<^item> \<open>Guards\<close>, \<open>Guard_Properties\<close>: the guards of \<open>deps.py\<close>; a request is admitted exactly when
    the policy says so, and an invalidation leaves no cached data of a key.
  \<^item> \<open>Rate_Limit\<close>: the in-memory limiter equals one that never forgets a bucket.
  \<^item> \<open>Events\<close>: signing, the outbox and the delivery worker, which drains the outbox.
  \<^item> \<open>Grpc_Service\<close>, \<open>Grpc_Properties\<close>: the three calls and the interceptor; what a granted
    authorization implies across store, day counter, request window and leases.

  Five properties state behaviour that differs from a comment or from the evident intent of
  the code: \<open>evicted_chain_reported_broken\<close>, \<open>long_current_key_gets_no_grace\<close>,
  \<open>change_password_ignores_lock\<close>, \<open>session_outlives_issue_ledger\<close>, \<open>outage_lifts_login_limit\<close>;
  a sixth, \<open>exhausted_quota_still_admitted\<close>, concerns the daily quota at its limit.

  \<^bold>\<open>Bounds and fuel.\<close> The JSON reader has fuel twice the length of its text; \<open>loads_dumps\<close> shows
  that this reads back every printed value without floats. \<open>run_worker\<close> counts rounds of a loop that only a
  stop ends; \<open>outbox_drains\<close> gives the number of rounds that suffices. All other functions
  terminate, by structure or with a measure.

  \<^bold>\<open>Not modelled.\<close>
  \<^item> \<open>db.py\<close>: the same interface as SQL in PostgreSQL with row-level security; its meaning is
    that of the database, not of code in the repository.
  \<^item> \<open>routes/*\<close>: handlers that parse a request, call the modelled operations and format the
    answer with FastAPI; \<open>models.py\<close> beyond the records the service works on.
  \<^item> \<open>app.py\<close>, \<open>grpc_server.py\<close>, \<open>migrations.py\<close>: wiring of external systems.
  \<^item> \<open>email_sender.py\<close>, \<open>metrics_collector.py\<close>, logging, \<open>client/*\<close>: input and output only.
  \<^item> \<open>dispatch_hook\<close> of \<open>events.py\<close>, which raises before it sends anything.
  \<^item> Interleavings inside one store or Redis call: the store runs on one event loop without
    suspension points in its methods, and Redis runs a script without interleaving. The one
    method that sends two commands, \<open>active_count\<close>, is a single step here.
  \<^item> A failure of argon2 itself (its plain \<open>VerificationError\<close>), which ends the request uncaught.
\<close>

end
